(* ===== verification/Prelude.thy ===== *)
theory Prelude
  imports Main "HOL-Library.Word" "HOL-Library.List_Lexorder"
begin

text \<open>
  Shared vocabulary of the development: the machine types of the C++ sources, the faults that
  stand for undefined or abnormal behaviour, the result type every modelled operation returns,
  the bounded \<open>for\<close> loop of the sources, and the generic lemmas the components use.

  The target is an LP64 little-endian machine: \<open>size_t\<close> has 64 bits, \<open>int\<close> 32 bits, and the
  object representation of an integer starts with its least significant byte.
\<close>

unbundle bit_operations_syntax

named_theorems wire \<open>what the encoders write and the decoders read back\<close>
named_theorems run \<open>unfolding rules for running the result monad\<close>

declare add_2_eq_Suc [simp del] add_2_eq_Suc' [simp del]

subsection \<open>Machine types\<close>

type_synonym byte = "8 word"
type_synonym bytes = "byte list"
type_synonym int8 = "8 word"
type_synonym int16 = "16 word"
type_synonym int32 = "32 word"
type_synonym size_t = "64 word"

text \<open>A string literal of the sources as the bytes of its characters.\<close>

definition str :: "string \<Rightarrow> bytes" where
  "str s = map of_char s"

lemma length_str [simp]: "length (str s) = length s"
  by (simp add: str_def)

subsection \<open>Faults and results\<close>

text \<open>
  \<open>OutOfBounds\<close>: an access outside a block; \<open>Indeterminate\<close>: a read of a byte nobody wrote;
  \<open>NullDeref\<close>: an access through a null pointer; \<open>BadAlloc\<close>: \<open>new\<close> throws;
  \<open>AssertionFailed\<close>: \<open>assert\<close> aborts; \<open>NoReturnValue\<close>: control flows off the end of a
  function that returns a value; \<open>BadFree\<close>: \<open>delete\<close> of an object that is not there (any more);
  \<open>MismatchedDelete\<close>: \<open>delete\<close> of what \<open>new[]\<close> made; \<open>Diverged\<close>: the fuel of a loop is used up.
\<close>

datatype fault =
    OutOfBounds
  | Indeterminate
  | NullDeref
  | BadAlloc
  | AssertionFailed
  | NoReturnValue
  | BadFree
  | MismatchedDelete
  | Diverged

type_synonym 'a result = "fault + 'a"

definition bind_result :: "'a result \<Rightarrow> ('a \<Rightarrow> 'b result) \<Rightarrow> 'b result" where
  "bind_result m f = (case m of Inl e \<Rightarrow> Inl e | Inr x \<Rightarrow> f x)"

lemma bind_result_simps [simp, run]:
  "bind_result (Inr x) f = f x"
  "bind_result (Inl e) f = Inl e"
  by (simp_all add: bind_result_def)

lemma bind_result_Inr_iff:
  "bind_result m f = Inr y \<longleftrightarrow> (\<exists>x. m = Inr x \<and> f x = Inr y)"
  by (cases m) simp_all

lemma bind_result_InrE [elim!]:
  assumes "bind_result m f = Inr y"
  obtains x where "m = Inr x" and "f x = Inr y"
  using assms by (auto simp: bind_result_Inr_iff)

lemma bind_result_assoc:
  "bind_result (bind_result m f) g = bind_result m (\<lambda>x. bind_result (f x) g)"
  by (cases m) simp_all

lemma bind_result_cong [fundef_cong]:
  assumes "m = m'" and "\<And>x. m' = Inr x \<Longrightarrow> f x = f' x"
  shows "bind_result m f = bind_result m' f'"
  using assms by (cases m') simp_all

subsection \<open>The counting loop\<close>

text \<open>\<open>for_loop i n body s\<close> runs \<open>body\<close> with the counter at \<open>i, i + 1, \<dots>, i + n - 1\<close>.\<close>

fun for_loop :: "nat \<Rightarrow> nat \<Rightarrow> (nat \<Rightarrow> 's \<Rightarrow> 's result) \<Rightarrow> 's \<Rightarrow> 's result" where
  "for_loop i 0 body s = Inr s"
| "for_loop i (Suc n) body s = bind_result (body i s) (for_loop (Suc i) n body)"

lemma for_loop_invariant:
  assumes "for_loop i n body s = Inr t" and "P i s"
    and "\<And>j x y. i \<le> j \<Longrightarrow> j < i + n \<Longrightarrow> P j x \<Longrightarrow> body j x = Inr y \<Longrightarrow> P (Suc j) y"
  shows "P (i + n) t"
  using assms
proof (induction n arbitrary: i s)
  case 0
  then show ?case by simp
next
  case (Suc n)
  from Suc.prems(1) obtain u where u: "body i s = Inr u" "for_loop (Suc i) n body u = Inr t"
    by auto
  then have "P (Suc i) u" using Suc.prems(2,3) by auto
  then have "P (Suc i + n) t" using Suc.IH [OF u(2)] Suc.prems(3) by simp
  then show ?case by simp
qed

lemma for_loop_total:
  assumes "\<And>j x. i \<le> j \<Longrightarrow> j < i + n \<Longrightarrow> body j x = Inr (step j x)"
  shows "for_loop i n body s = Inr (fold step [i..<i + n] s)"
  using assms
proof (induction n arbitrary: i s)
  case 0
  then show ?case by simp
next
  case (Suc n)
  have "for_loop (Suc i) n body (step i s) = Inr (fold step [Suc i..<Suc i + n] (step i s))"
    by (rule Suc.IH) (simp add: Suc.prems)
  moreover have "[i..<i + Suc n] = i # [Suc i..<Suc i + n]"
    by (simp add: upt_rec)
  ultimately show ?case by (simp add: Suc.prems)
qed

subsection \<open>Words\<close>

lemma unat_of_nat_16 [simp]: "n < 65536 \<Longrightarrow> unat (of_nat n :: int16) = n"
  by (simp add: unat_of_nat take_bit_nat_eq_self)

lemma unat_of_nat_32 [simp]: "n < 4294967296 \<Longrightarrow> unat (of_nat n :: int32) = n"
  by (simp add: unat_of_nat take_bit_nat_eq_self)

lemma sint_of_nat_16: "n < 32768 \<Longrightarrow> sint (of_nat n :: int16) = int n"
  by (simp add: signed_of_nat signed_take_bit_int_eq_self)

lemma sint_of_nat_16_neg:
  assumes "32768 \<le> n" and "n < 65536"
  shows "sint (of_nat n :: int16) < 0"
proof -
  have "(of_nat n :: int16) = of_int (int n - 65536)"
    by simp
  then have "sint (of_nat n :: int16) = signed_take_bit 15 (int n - 65536)"
    by (simp only: sint_sbintrunc') simp
  also have "\<dots> = int n - 65536"
    using assms by (intro signed_take_bit_int_eq_self) simp_all
  finally show ?thesis using assms by simp
qed

lemma sint_of_nat_32: "n < 2147483648 \<Longrightarrow> sint (of_nat n :: int32) = int n"
  by (simp add: signed_of_nat signed_take_bit_int_eq_self)

text \<open>Adding a size to a non-negative \<open>int32\<close> that stays in range.\<close>

lemma sint_add_of_nat_32:
  fixes w :: int32
  assumes "0 \<le> sint w" and "sint w + int n < 2147483648"
  shows "sint (w + of_nat n) = sint w + int n"
proof -
  have "sint (of_nat n :: int32) = int n"
    using assms by (intro sint_of_nat_32) linarith
  then have "sint (w + of_nat n) = signed_take_bit 31 (sint w + int n)"
    by (simp add: sint_word_ariths)
  with assms show ?thesis by (simp add: signed_take_bit_int_eq_self)
qed

subsection \<open>Maps\<close>

lemma map_upds_at:
  assumes "length ks = length vs" and "distinct ks" and "k < length ks"
  shows "(m(ks [\<mapsto>] vs)) (ks ! k) = Some (vs ! k)"
  using assms
proof (induction ks vs arbitrary: m k rule: list_induct2)
  case Nil
  then show ?case by simp
next
  case (Cons x xs y ys)
  then show ?case by (cases k) (auto simp: in_set_conv_nth)
qed

end
