(* ===== verification/Protocol_Constants.thy ===== *)
theory Protocol_Constants
  imports Prelude
begin

text \<open>
  \<^verbatim>\<open>include/cql.h\<close>: the constants of the protocol and of the library, all of them, in the width
  in which the sources keep them (an opcode in a byte, consistencies and column types in an
  \<open>int16_t\<close>, the others in an \<open>int\<close>).
\<close>

subsection \<open>Log levels\<close>

definition CQL_LOG_CRITICAL :: int where "CQL_LOG_CRITICAL = 0"
definition CQL_LOG_ERROR :: int where "CQL_LOG_ERROR = 1"
definition CQL_LOG_INFO :: int where "CQL_LOG_INFO = 2"
definition CQL_LOG_DEBUG :: int where "CQL_LOG_DEBUG = 3"

subsection \<open>Errors: their sources and codes\<close>

definition CQL_ERROR_SOURCE_OS :: int where "CQL_ERROR_SOURCE_OS = 1"
definition CQL_ERROR_SOURCE_NETWORK :: int where "CQL_ERROR_SOURCE_NETWORK = 2"
definition CQL_ERROR_SOURCE_SSL :: int where "CQL_ERROR_SOURCE_SSL = 3"
definition CQL_ERROR_SOURCE_COMPRESSION :: int where "CQL_ERROR_SOURCE_COMPRESSION = 4"
definition CQL_ERROR_SOURCE_SERVER :: int where "CQL_ERROR_SOURCE_SERVER = 5"
definition CQL_ERROR_SOURCE_LIBRARY :: int where "CQL_ERROR_SOURCE_LIBRARY = 6"
definition CQL_ERROR_NO_ERROR :: int where "CQL_ERROR_NO_ERROR = 0"
definition CQL_ERROR_SSL_CERT :: int where "CQL_ERROR_SSL_CERT = 1000000"
definition CQL_ERROR_SSL_PRIVATE_KEY :: int where "CQL_ERROR_SSL_PRIVATE_KEY = 1000001"
definition CQL_ERROR_SSL_CA_CERT :: int where "CQL_ERROR_SSL_CA_CERT = 1000002"
definition CQL_ERROR_SSL_CRL :: int where "CQL_ERROR_SSL_CRL = 1000003"
definition CQL_ERROR_SSL_READ :: int where "CQL_ERROR_SSL_READ = 1000004"
definition CQL_ERROR_SSL_WRITE :: int where "CQL_ERROR_SSL_WRITE = 1000005"
definition CQL_ERROR_SSL_READ_WAITING :: int where "CQL_ERROR_SSL_READ_WAITING = 1000006"
definition CQL_ERROR_SSL_WRITE_WAITING :: int where "CQL_ERROR_SSL_WRITE_WAITING = 1000007"
definition CQL_ERROR_LIB_NO_STREAMS :: int where "CQL_ERROR_LIB_NO_STREAMS = 1000008"
definition CQL_ERROR_LIB_MAX_CONNECTIONS :: int where "CQL_ERROR_LIB_MAX_CONNECTIONS = 1000009"

subsection \<open>Opcodes\<close>

definition CQL_OPCODE_ERROR :: byte where "CQL_OPCODE_ERROR = 0x00"
definition CQL_OPCODE_STARTUP :: byte where "CQL_OPCODE_STARTUP = 0x01"
definition CQL_OPCODE_READY :: byte where "CQL_OPCODE_READY = 0x02"
definition CQL_OPCODE_AUTHENTICATE :: byte where "CQL_OPCODE_AUTHENTICATE = 0x03"
definition CQL_OPCODE_CREDENTIALS :: byte where "CQL_OPCODE_CREDENTIALS = 0x04"
definition CQL_OPCODE_OPTIONS :: byte where "CQL_OPCODE_OPTIONS = 0x05"
definition CQL_OPCODE_SUPPORTED :: byte where "CQL_OPCODE_SUPPORTED = 0x06"
definition CQL_OPCODE_QUERY :: byte where "CQL_OPCODE_QUERY = 0x07"
definition CQL_OPCODE_RESULT :: byte where "CQL_OPCODE_RESULT = 0x08"
definition CQL_OPCODE_PREPARE :: byte where "CQL_OPCODE_PREPARE = 0x09"
definition CQL_OPCODE_EXECUTE :: byte where "CQL_OPCODE_EXECUTE = 0x0A"
definition CQL_OPCODE_REGISTER :: byte where "CQL_OPCODE_REGISTER = 0x0B"
definition CQL_OPCODE_EVENT :: byte where "CQL_OPCODE_EVENT = 0x0C"

lemmas opcode_defs = CQL_OPCODE_ERROR_def CQL_OPCODE_STARTUP_def CQL_OPCODE_READY_def
    CQL_OPCODE_AUTHENTICATE_def CQL_OPCODE_CREDENTIALS_def CQL_OPCODE_OPTIONS_def
    CQL_OPCODE_SUPPORTED_def CQL_OPCODE_QUERY_def CQL_OPCODE_RESULT_def CQL_OPCODE_PREPARE_def
    CQL_OPCODE_EXECUTE_def CQL_OPCODE_REGISTER_def CQL_OPCODE_EVENT_def

subsection \<open>Consistency levels\<close>

definition CQL_CONSISTENCY_ANY :: int16 where "CQL_CONSISTENCY_ANY = 0x0000"
definition CQL_CONSISTENCY_ONE :: int16 where "CQL_CONSISTENCY_ONE = 0x0001"
definition CQL_CONSISTENCY_TWO :: int16 where "CQL_CONSISTENCY_TWO = 0x0002"
definition CQL_CONSISTENCY_THREE :: int16 where "CQL_CONSISTENCY_THREE = 0x0003"
definition CQL_CONSISTENCY_QUORUM :: int16 where "CQL_CONSISTENCY_QUORUM = 0x0004"
definition CQL_CONSISTENCY_ALL :: int16 where "CQL_CONSISTENCY_ALL = 0x0005"
definition CQL_CONSISTENCY_LOCAL_QUORUM :: int16 where "CQL_CONSISTENCY_LOCAL_QUORUM = 0x0006"
definition CQL_CONSISTENCY_EACH_QUORUM :: int16 where "CQL_CONSISTENCY_EACH_QUORUM = 0x0007"
definition CQL_CONSISTENCY_SERIAL :: int16 where "CQL_CONSISTENCY_SERIAL = 0x0008"
definition CQL_CONSISTENCY_LOCAL_SERIAL :: int16 where "CQL_CONSISTENCY_LOCAL_SERIAL = 0x0009"
definition CQL_CONSISTENCY_LOCAL_ONE :: int16 where "CQL_CONSISTENCY_LOCAL_ONE = 0x000A"

subsection \<open>Column types\<close>

definition CQL_COLUMN_TYPE_UNKNOWN :: int16 where "CQL_COLUMN_TYPE_UNKNOWN = 0xFFFF"
definition CQL_COLUMN_TYPE_CUSTOM :: int16 where "CQL_COLUMN_TYPE_CUSTOM = 0x0000"
definition CQL_COLUMN_TYPE_ASCII :: int16 where "CQL_COLUMN_TYPE_ASCII = 0x0001"
definition CQL_COLUMN_TYPE_BIGINT :: int16 where "CQL_COLUMN_TYPE_BIGINT = 0x0002"
definition CQL_COLUMN_TYPE_BLOB :: int16 where "CQL_COLUMN_TYPE_BLOB = 0x0003"
definition CQL_COLUMN_TYPE_BOOLEAN :: int16 where "CQL_COLUMN_TYPE_BOOLEAN = 0x0004"
definition CQL_COLUMN_TYPE_COUNTER :: int16 where "CQL_COLUMN_TYPE_COUNTER = 0x0005"
definition CQL_COLUMN_TYPE_DECIMAL :: int16 where "CQL_COLUMN_TYPE_DECIMAL = 0x0006"
definition CQL_COLUMN_TYPE_DOUBLE :: int16 where "CQL_COLUMN_TYPE_DOUBLE = 0x0007"
definition CQL_COLUMN_TYPE_FLOAT :: int16 where "CQL_COLUMN_TYPE_FLOAT = 0x0008"
definition CQL_COLUMN_TYPE_INT :: int16 where "CQL_COLUMN_TYPE_INT = 0x0009"
definition CQL_COLUMN_TYPE_TEXT :: int16 where "CQL_COLUMN_TYPE_TEXT = 0x000A"
definition CQL_COLUMN_TYPE_TIMESTAMP :: int16 where "CQL_COLUMN_TYPE_TIMESTAMP = 0x000B"
definition CQL_COLUMN_TYPE_UUID :: int16 where "CQL_COLUMN_TYPE_UUID = 0x000C"
definition CQL_COLUMN_TYPE_VARCHAR :: int16 where "CQL_COLUMN_TYPE_VARCHAR = 0x000D"
definition CQL_COLUMN_TYPE_VARINT :: int16 where "CQL_COLUMN_TYPE_VARINT = 0x000E"
definition CQL_COLUMN_TYPE_TIMEUUID :: int16 where "CQL_COLUMN_TYPE_TIMEUUID = 0x000F"
definition CQL_COLUMN_TYPE_INET :: int16 where "CQL_COLUMN_TYPE_INET = 0x0010"
definition CQL_COLUMN_TYPE_LIST :: int16 where "CQL_COLUMN_TYPE_LIST = 0x0020"
definition CQL_COLUMN_TYPE_MAP :: int16 where "CQL_COLUMN_TYPE_MAP = 0x0021"
definition CQL_COLUMN_TYPE_SET :: int16 where "CQL_COLUMN_TYPE_SET = 0x0022"

subsection \<open>Options of a cluster\<close>

definition CQL_OPTION_THREADS_IO :: int where "CQL_OPTION_THREADS_IO = 1"
definition CQL_OPTION_THREADS_CALLBACK :: int where "CQL_OPTION_THREADS_CALLBACK = 2"
definition CQL_OPTION_CONTACT_POINT_ADD :: int where "CQL_OPTION_CONTACT_POINT_ADD = 3"
definition CQL_OPTION_PORT :: int where "CQL_OPTION_PORT = 4"
definition CQL_OPTION_CQL_VERSION :: int where "CQL_OPTION_CQL_VERSION = 5"
definition CQL_OPTION_SCHEMA_AGREEMENT_WAIT :: int where "CQL_OPTION_SCHEMA_AGREEMENT_WAIT = 6"
definition CQL_OPTION_CONTROL_CONNECTION_TIMEOUT :: int where "CQL_OPTION_CONTROL_CONNECTION_TIMEOUT = 7"
definition CQL_OPTION_COMPRESSION :: int where "CQL_OPTION_COMPRESSION = 9"
definition CQL_OPTION_COMPRESSION_NONE :: int where "CQL_OPTION_COMPRESSION_NONE = 0"
definition CQL_OPTION_COMPRESSION_SNAPPY :: int where "CQL_OPTION_COMPRESSION_SNAPPY = 1"
definition CQL_OPTION_COMPRESSION_LZ4 :: int where "CQL_OPTION_COMPRESSION_LZ4 = 2"

end
