(* ===== verification/Memory.thy ===== *)
theory Memory
  imports Protocol_Constants
begin

text \<open>
  The memory the sources work on. A heap block is a list of bytes, each \<open>Some\<close> byte once
  written and \<open>None\<close> (indeterminate) before; a \<open>char*\<close> is null or a block with an offset.
  Blocks that are read through pointers are never written again in the modelled code, so a
  pointer carries the contents of its block.

  The allocator is code outside the repository. It is the parameter \<open>alloc\<close>: the block that
  \<open>new char[n]\<close> returns can hold \<open>alloc n\<close> bytes. What the code may rely on is
  \<open>n \<le> alloc n\<close>, which theorems state as a hypothesis; the exact allocator is \<open>\<lambda>n. n\<close>.
  Running out of memory is not modelled: a request of a non-negative size succeeds.
\<close>

type_synonym block = "byte option list"
type_synonym allocator = "nat \<Rightarrow> nat"

definition new_char :: "allocator \<Rightarrow> nat \<Rightarrow> block" where
  "new_char alloc n = replicate (alloc n) None"

lemma length_new_char [simp]: "length (new_char alloc n) = alloc n"
  by (simp add: new_char_def)

subsection \<open>Writing\<close>

text \<open>
  \<open>put b p bs\<close> is \<open>memcpy\<close> of \<open>bs\<close> to offset \<open>p\<close> of block \<open>b\<close>: the new contents and the
  offset behind the copy.
\<close>

definition put :: "block \<Rightarrow> nat \<Rightarrow> bytes \<Rightarrow> (block \<times> nat) result" where
  "put b p bs =
     (if p + length bs \<le> length b
      then Inr (take p b @ map Some bs @ drop (p + length bs) b, p + length bs)
      else Inl OutOfBounds)"

text \<open>Two adjacent copies are one copy of both; this carries every encoder proof.\<close>

lemma put_put [wire]:
  "bind_result (put b p xs) (\<lambda>(b', q). put b' q ys) = put b p (xs @ ys)"
proof (cases "p + length xs + length ys \<le> length b")
  case True
  then have "take (p + length xs) (take p b @ map Some xs @ drop (p + length xs) b)
      = take p b @ map Some xs"
    by simp
  with True show ?thesis by (simp add: put_def ac_simps)
next
  case False
  then show ?thesis by (simp add: put_def)
qed

lemma put_put_then [wire]:
  "bind_result (put b p xs) (\<lambda>(b', q). bind_result (put b' q ys) f)
     = bind_result (put b p (xs @ ys)) f"
  by (simp add: put_put [symmetric] bind_result_assoc case_prod_unfold)

lemma put_bound: "put b p xs = Inr (b', q) \<Longrightarrow> q \<le> length b'"
  by (auto simp: put_def split: if_splits)

lemma put_then_eq:
  assumes "\<And>b' q. q \<le> length b' \<Longrightarrow> f b' q = put b' q ys"
  shows "bind_result (put b p xs) (\<lambda>(b', q). f b' q) = put b p (xs @ ys)"
proof -
  have "bind_result (put b p xs) (\<lambda>(b', q). f b' q)
      = bind_result (put b p xs) (\<lambda>(b', q). put b' q ys)"
    by (rule bind_result_cong) (auto dest: put_bound simp: assms)
  then show ?thesis by (simp add: put_put)
qed

lemma put_fits:
  "p + length bs \<le> length b \<Longrightarrow>
     put b p bs = Inr (take p b @ map Some bs @ drop (p + length bs) b, p + length bs)"
  by (simp add: put_def)

lemma put_Nil: "p \<le> length b \<Longrightarrow> put b p [] = Inr (b, p)"
  by (simp add: put_def)

text \<open>
  \<open>framed alloc n r bs\<close>: a fresh block of \<open>n\<close> requested bytes after \<open>bs\<close> was written behind
  the first \<open>r\<close> bytes, which are still indeterminate.
\<close>

definition framed :: "allocator \<Rightarrow> nat \<Rightarrow> nat \<Rightarrow> bytes \<Rightarrow> block" where
  "framed alloc n r bs = replicate r None @ map Some bs @ replicate (alloc n - r - length bs) None"

lemma put_new_char [wire]:
  "r + length bs \<le> alloc n \<Longrightarrow>
     put (new_char alloc n) r bs = Inr (framed alloc n r bs, r + length bs)"
  by (simp add: put_def new_char_def framed_def min_absorb1)

lemma length_framed [simp]: "r + length bs \<le> alloc n \<Longrightarrow> length (framed alloc n r bs) = alloc n"
  by (simp add: framed_def)

lemma put_framed_head:
  "length hs = r \<Longrightarrow>
     put (framed alloc n r bs) 0 hs = Inr (framed alloc n 0 (hs @ bs), r)"
  by (simp add: put_def framed_def)

subsection \<open>Pointers and reading\<close>

datatype char_ptr = Null | Ptr block nat

fun ptr_add :: "char_ptr \<Rightarrow> nat \<Rightarrow> char_ptr" where
  "ptr_add Null n = Null"
| "ptr_add (Ptr b p) n = Ptr b (p + n)"

lemma ptr_add_add [simp]: "ptr_add (ptr_add P m) n = ptr_add P (m + n)"
  by (cases P) simp_all

lemma ptr_add_0 [simp]: "ptr_add P 0 = P"
  by (cases P) simp_all

text \<open>\<open>load_bytes P n\<close> reads \<open>n\<close> bytes; reading none through a null pointer is harmless.\<close>

fun load_bytes :: "char_ptr \<Rightarrow> nat \<Rightarrow> bytes result" where
  "load_bytes Null n = (if n = 0 then Inr [] else Inl NullDeref)"
| "load_bytes (Ptr b p) n =
     (if p + n \<le> length b
      then (if None \<in> set (take n (drop p b)) then Inl Indeterminate
            else Inr (map the (take n (drop p b))))
      else Inl OutOfBounds)"

text \<open>\<open>points_to P bs\<close>: the initialised bytes \<open>bs\<close> lie at \<open>P\<close>.\<close>

fun points_to :: "char_ptr \<Rightarrow> bytes \<Rightarrow> bool" where
  "points_to Null bs \<longleftrightarrow> bs = []"
| "points_to (Ptr b p) bs \<longleftrightarrow>
     p + length bs \<le> length b \<and> take (length bs) (drop p b) = map Some bs"

lemma map_Some_the: "None \<notin> set xs \<Longrightarrow> map Some (map the xs) = xs"
  by (induction xs) auto

lemma load_bytes_iff:
  "load_bytes P n = Inr bs \<longleftrightarrow> length bs = n \<and> points_to P bs"
proof (cases P)
  case Null
  then show ?thesis by auto
next
  case (Ptr b p)
  show ?thesis
  proof
    assume "load_bytes P n = Inr bs"
    then have r: "p + n \<le> length b" "None \<notin> set (take n (drop p b))"
      "bs = map the (take n (drop p b))"
      by (auto simp: Ptr split: if_splits)
    then have "length bs = n" by simp
    with r show "length bs = n \<and> points_to P bs"
      by (simp add: Ptr map_Some_the del: map_map)
  next
    assume "length bs = n \<and> points_to P bs"
    then have "p + n \<le> length b" "take n (drop p b) = map Some bs"
      by (auto simp: Ptr)
    then show "load_bytes P n = Inr bs"
      by (auto simp: Ptr comp_def)
  qed
qed

lemma load_points_to [wire]: "points_to P bs \<Longrightarrow> load_bytes P (length bs) = Inr bs"
  by (simp add: load_bytes_iff)

lemma points_to_append [simp]:
  "points_to P (xs @ ys) \<longleftrightarrow> points_to P xs \<and> points_to (ptr_add P (length xs)) ys"
proof (cases P)
  case Null
  then show ?thesis by simp
next
  case (Ptr b p)
  have "take (length xs + length ys) (drop p b)
      = take (length xs) (drop p b) @ take (length ys) (drop (p + length xs) b)"
    by (simp add: take_add add.commute)
  moreover have "p + length xs \<le> length b \<Longrightarrow> length (take (length xs) (drop p b)) = length xs"
    by simp
  ultimately show ?thesis by (auto simp: Ptr append_eq_append_conv)
qed

lemma points_to_drop:
  assumes "points_to P bs" and "j \<le> length bs"
  shows "points_to (ptr_add P j) (drop j bs)"
proof -
  have "length (take j bs) = j" using assms(2) by simp
  then show ?thesis using assms(1) points_to_append [of P "take j bs" "drop j bs"] by simp
qed

lemma points_to_Cons: "points_to P (x # xs) \<longleftrightarrow> points_to P [x] \<and> points_to (ptr_add P 1) xs"
  using points_to_append [of P "[x]" xs] by simp

lemma points_to_Ptr_map:
  "points_to (Ptr (pre @ map Some bs @ post) (length pre)) bs"
  by simp

lemma points_to_framed: "points_to (Ptr (framed alloc n 0 bs) 0) bs"
  by (simp add: framed_def)

lemma points_to_put:
  assumes "put b p bs = Inr (b', q)"
  shows "points_to (Ptr b' p) bs" and "length b' = length b" and "q = p + length bs"
  using assms by (auto simp: put_def split: if_splits)

lemma points_to_unique:
  "points_to P xs \<Longrightarrow> points_to P ys \<Longrightarrow> length xs = length ys \<Longrightarrow> xs = ys"
  by (cases P) (auto simp: inj_map_eq_map [of Some, simplified])

text \<open>
  The C string at a pointer: bytes up to the first zero byte. A missing terminator runs out of
  the block or into bytes nobody wrote.
\<close>

fun c_string_at :: "block \<Rightarrow> bytes result" where
  "c_string_at [] = Inl OutOfBounds"
| "c_string_at (None # b) = Inl Indeterminate"
| "c_string_at (Some c # b) =
     (if c = 0 then Inr [] else bind_result (c_string_at b) (\<lambda>s. Inr (c # s)))"

fun c_string :: "char_ptr \<Rightarrow> bytes result" where
  "c_string Null = Inl NullDeref"
| "c_string (Ptr b p) = c_string_at (drop p b)"

lemma c_string_at_map:
  "0 \<notin> set s \<Longrightarrow> c_string_at (map Some s @ b) = bind_result (c_string_at b) (\<lambda>t. Inr (s @ t))"
  by (induction s) (auto simp: bind_result_def split: sum.splits)

lemma c_string_at_unterminated:
  assumes "0 \<notin> set s"
  shows "\<exists>e. c_string_at (map Some s @ replicate n None) = Inl e"
  using assms c_string_at_map [of s "[]"] by (cases n) (simp_all add: c_string_at_map)

subsection \<open>Object representations and byte order\<close>

text \<open>
  Little-endian object representations, and \<open>htons\<close> / \<open>htonl\<close> (which equal \<open>ntohs\<close> /
  \<open>ntohl\<close>) as byte reversal. \<open>be16\<close> and \<open>be32\<close> are the network representations.
\<close>

definition byte_of :: "nat \<Rightarrow> 'a::len word \<Rightarrow> byte" where
  "byte_of k w = ucast (drop_bit (8 * k) w)"

definition mem16 :: "int16 \<Rightarrow> bytes" where
  "mem16 w = [byte_of 0 w, byte_of 1 w]"

definition mem32 :: "int32 \<Rightarrow> bytes" where
  "mem32 w = [byte_of 0 w, byte_of 1 w, byte_of 2 w, byte_of 3 w]"

fun val16 :: "bytes \<Rightarrow> int16" where
  "val16 [b0, b1] = ucast b0 OR push_bit 8 (ucast b1)"
| "val16 _ = 0"

fun val32 :: "bytes \<Rightarrow> int32" where
  "val32 [b0, b1, b2, b3] =
     ucast b0 OR push_bit 8 (ucast b1) OR push_bit 16 (ucast b2) OR push_bit 24 (ucast b3)"
| "val32 _ = 0"

definition htons :: "int16 \<Rightarrow> int16" where
  "htons w = val16 (rev (mem16 w))"

definition htonl :: "int32 \<Rightarrow> int32" where
  "htonl w = val32 (rev (mem32 w))"

definition be16 :: "int16 \<Rightarrow> bytes" where
  "be16 w = [byte_of 1 w, byte_of 0 w]"

definition be32 :: "int32 \<Rightarrow> bytes" where
  "be32 w = [byte_of 3 w, byte_of 2 w, byte_of 1 w, byte_of 0 w]"

lemma bit_byte_high [simp]: "8 \<le> n \<Longrightarrow> \<not> bit (b :: byte) n"
  using bit_imp_le_length [of b n] by auto

lemma length_be [simp]: "length (be16 v) = 2" "length (be32 w) = 4"
  by (simp_all add: be16_def be32_def)

lemma length_mem [simp]: "length (mem16 v) = 2" "length (mem32 w) = 4"
  by (simp_all add: mem16_def mem32_def)

lemma val16_mem16 [simp]: "val16 (mem16 w) = w"
  unfolding mem16_def byte_of_def
  by (simp, rule bit_word_eqI) (auto simp: bit_simps)

lemma val32_mem32 [simp]: "val32 (mem32 w) = w"
proof -
  have "bit (val32 (mem32 w)) n \<longleftrightarrow> bit w n" if "n < 32" for n
  proof -
    consider "n < 8" | "8 \<le> n \<and> n < 16" | "16 \<le> n \<and> n < 24" | "24 \<le> n" by linarith
    then show ?thesis
      using that by cases (auto simp: mem32_def byte_of_def bit_simps)
  qed
  then show ?thesis by (intro bit_word_eqI) simp
qed

lemma mem16_val16:
  assumes "length bs = 2"
  shows "mem16 (val16 bs) = bs"
proof -
  from assms obtain b0 b1 where "bs = [b0, b1]"
    by (auto simp: length_Suc_conv numeral_2_eq_2)
  then show ?thesis
    by (auto intro!: bit_word_eqI simp: mem16_def byte_of_def bit_simps)
qed

lemma mem32_val32:
  assumes "length bs = 4"
  shows "mem32 (val32 bs) = bs"
proof -
  from assms obtain b0 b1 b2 b3 where "bs = [b0, b1, b2, b3]"
    by (auto simp: length_Suc_conv eval_nat_numeral)
  then show ?thesis
    by (auto intro!: bit_word_eqI simp: mem32_def byte_of_def bit_simps)
qed

lemma be_rev_mem: "be16 v = rev (mem16 v)" "be32 w = rev (mem32 w)"
  by (simp_all add: be16_def mem16_def be32_def mem32_def)

lemma mem_hton [wire]: "mem16 (htons v) = be16 v" "mem32 (htonl w) = be32 w"
  by (simp_all add: htons_def htonl_def be_rev_mem mem16_val16 mem32_val32)

lemma ntoh_be [wire]: "htons (val16 (be16 v)) = v" "htonl (val32 (be32 w)) = w"
  by (simp_all add: htons_def htonl_def be_rev_mem mem16_val16 mem32_val32)

lemma be_ntoh:
  "length bs = 2 \<Longrightarrow> be16 (htons (val16 bs)) = bs"
  "length cs = 4 \<Longrightarrow> be32 (htonl (val32 cs)) = cs"
  by (simp_all add: mem_hton [symmetric] htons_def htonl_def mem16_val16 mem32_val32)

end
