(* ===== verification/Std_Map.thy ===== *)
theory Std_Map
  imports Prelude
begin

text \<open>
  \<open>std::map\<close> as the sources use it: an association list in strictly increasing key order, so
  that iteration visits the keys in the order of the C++ container. \<open>std::string\<close> keys compare
  as unsigned bytes, which is the list order over \<open>byte\<close>.
\<close>

type_synonym ('k, 'v) std_map = "('k \<times> 'v) list"

definition map_ok :: "('k::linorder, 'v) std_map \<Rightarrow> bool" where
  "map_ok m \<longleftrightarrow> sorted_wrt (<) (map fst m)"

text \<open>\<open>insert\<close> keeps the value of a key that is already present.\<close>

fun map_insert :: "'k::linorder \<Rightarrow> 'v \<Rightarrow> ('k, 'v) std_map \<Rightarrow> ('k, 'v) std_map" where
  "map_insert k v [] = [(k, v)]"
| "map_insert k v ((k', v') # m) =
     (if k < k' then (k, v) # (k', v') # m
      else if k = k' then (k', v') # m
      else (k', v') # map_insert k v m)"

text \<open>\<open>m[k] = v\<close> overwrites it.\<close>

fun map_assign :: "'k::linorder \<Rightarrow> 'v \<Rightarrow> ('k, 'v) std_map \<Rightarrow> ('k, 'v) std_map" where
  "map_assign k v [] = [(k, v)]"
| "map_assign k v ((k', v') # m) =
     (if k < k' then (k, v) # (k', v') # m
      else if k = k' then (k', v) # m
      else (k', v') # map_assign k v m)"

text \<open>\<open>find\<close>: \<open>None\<close> is \<open>end()\<close>.\<close>

definition map_find :: "'k \<Rightarrow> ('k, 'v) std_map \<Rightarrow> 'v option" where
  "map_find k m = map_of m k"

lemma map_ok_simps [simp]:
  "map_ok []"
  "map_ok ((k, v) # m) \<longleftrightarrow> (\<forall>y \<in> fst ` set m. k < y) \<and> map_ok m"
  by (auto simp: map_ok_def)

lemma map_of_greater:
  "\<forall>y \<in> fst ` set m. k < y \<Longrightarrow> map_of m (k :: 'k::linorder) = None"
  by (metis map_of_eq_None_iff order_less_irrefl)

lemma keys_map_insert [simp]: "fst ` set (map_insert k v m) = insert k (fst ` set m)"
  by (induction k v m rule: map_insert.induct) (simp_all add: insert_commute)

lemma keys_map_assign [simp]: "fst ` set (map_assign k v m) = insert k (fst ` set m)"
  by (induction k v m rule: map_assign.induct) (simp_all add: insert_commute)

lemma map_insert_ok [intro]: "map_ok m \<Longrightarrow> map_ok (map_insert k v m)"
proof (induction k v m rule: map_insert.induct)
  case (2 k v j w m)
  then have *: "\<forall>y \<in> fst ` set m. j < y" "map_ok m" by simp_all
  have "k < j \<Longrightarrow> \<forall>y \<in> fst ` set m. k < y" using *(1) by (meson less_trans)
  with 2 * show ?case by (auto simp del: ball_simps simp: ball_simps(7) linorder_neq_iff)
qed simp

lemma map_assign_ok [intro]: "map_ok m \<Longrightarrow> map_ok (map_assign k v m)"
proof (induction k v m rule: map_assign.induct)
  case (2 k v j w m)
  then have *: "\<forall>y \<in> fst ` set m. j < y" "map_ok m" by simp_all
  have "k < j \<Longrightarrow> \<forall>y \<in> fst ` set m. k < y" using *(1) by (meson less_trans)
  with 2 * show ?case by (auto simp del: ball_simps simp: ball_simps(7) linorder_neq_iff)
qed simp

lemma map_find_insert:
  "map_ok m \<Longrightarrow> map_find k' (map_insert k v m) =
     (if k' = k \<and> map_find k m = None then Some v else map_find k' m)"
  unfolding map_find_def
proof (induction k v m rule: map_insert.induct)
  case (2 k v j w m)
  show ?case
  proof (cases "k < j")
    case True
    with 2 have "map_of m k = None" by (intro map_of_greater) force
    with True show ?thesis by auto
  next
    case False
    with 2 show ?thesis by auto
  qed
qed simp

lemma map_find_assign:
  "map_ok m \<Longrightarrow> map_find k' (map_assign k v m) = (if k' = k then Some v else map_find k' m)"
  unfolding map_find_def
  by (induction k v m rule: map_assign.induct) auto

text \<open>Inserting behind the largest key appends, so inserting a map's entries in order rebuilds it.\<close>

lemma map_insert_append: "\<forall>y \<in> fst ` set m. y < k \<Longrightarrow> map_insert k v m = m @ [(k, v)]"
  by (induction m) (auto dest: less_not_sym)

lemma fold_map_insert_append:
  "map_ok (acc @ m) \<Longrightarrow> fold (\<lambda>(k, v). map_insert k v) m acc = acc @ m"
proof (induction m arbitrary: acc)
  case Nil
  then show ?case by simp
next
  case (Cons e m)
  obtain k v where e: "e = (k, v)" by (cases e)
  from Cons.prems have "\<forall>y \<in> fst ` set acc. y < k"
    by (auto simp: map_ok_def sorted_wrt_append e)
  then have "map_insert k v acc = acc @ [e]" by (simp add: map_insert_append e)
  moreover have "fold (\<lambda>(k, v). map_insert k v) m (acc @ [e]) = (acc @ [e]) @ m"
    by (rule Cons.IH) (use Cons.prems in simp)
  ultimately show ?case by (simp add: e)
qed

lemma fold_map_insert: "map_ok m \<Longrightarrow> fold (\<lambda>(k, v). map_insert k v) m [] = m"
  using fold_map_insert_append [of "[]"] by simp

end
