(* ===== verification/Serialization.thy ===== *)
theory Serialization
  imports Memory Std_Map
begin

text \<open>
  \<^verbatim>\<open>include/cql_serialization.hpp\<close>: the encoders and decoders of the wire primitives, one
  definition per function. An encoder takes the block and the offset of its \<open>output\<close> pointer
  and returns the new block and the advanced offset; a decoder takes its \<open>input\<close> pointer and
  returns its reference parameters and the advanced pointer. The \<open>wire_\<close> functions are the
  reference format; the lemmas in \<open>wire\<close> show that encoders write it and decoders read it.
\<close>

type_synonym string_map = "(bytes, bytes) std_map"
type_synonym string_multimap = "(bytes, bytes list) std_map"

text \<open>\<open>s.c_str()\<close>: the characters and the terminating zero.\<close>

definition c_str :: "bytes \<Rightarrow> char_ptr" where
  "c_str s = Ptr (map Some (s @ [0])) 0"

subsection \<open>Operations\<close>

definition encode_byte :: "block \<Rightarrow> nat \<Rightarrow> byte \<Rightarrow> (block \<times> nat) result" where
  "encode_byte b out val = put b out [val]"

definition decode_short :: "char_ptr \<Rightarrow> (int16 \<times> char_ptr) result" where
  "decode_short input =
     bind_result (load_bytes input 2) (\<lambda>bs. Inr (htons (val16 bs), ptr_add input 2))"

definition encode_short :: "block \<Rightarrow> nat \<Rightarrow> int16 \<Rightarrow> (block \<times> nat) result" where
  "encode_short b out val = (let net_value = htons val in put b out (mem16 net_value))"

definition decode_int :: "char_ptr \<Rightarrow> (int32 \<times> char_ptr) result" where
  "decode_int input =
     bind_result (load_bytes input 4) (\<lambda>bs. Inr (htonl (val32 bs), ptr_add input 4))"

definition encode_int :: "block \<Rightarrow> nat \<Rightarrow> int32 \<Rightarrow> (block \<times> nat) result" where
  "encode_int b out val = (let net_value = htonl val in put b out (mem32 net_value))"

text \<open>
  \<open>decode_string\<close> stores the 16-bit length through \<open>(int16_t&) size\<close>: only the two low bytes
  of the caller's \<open>size_t\<close> change. \<open>decode_long_string\<close> likewise changes the four low bytes.
\<close>

definition set_low16 :: "size_t \<Rightarrow> int16 \<Rightarrow> size_t" where
  "set_low16 sz v = (sz AND NOT (mask 16)) OR ucast v"

definition set_low32 :: "size_t \<Rightarrow> int32 \<Rightarrow> size_t" where
  "set_low32 sz v = (sz AND NOT (mask 32)) OR ucast v"

definition decode_string :: "char_ptr \<Rightarrow> size_t \<Rightarrow> (char_ptr \<times> size_t \<times> char_ptr) result" where
  "decode_string input sz =
     bind_result (decode_short input) (\<lambda>(v, out).
       let sz' = set_low16 sz v in Inr (out, sz', ptr_add out (unat sz')))"

definition encode_string :: "block \<Rightarrow> nat \<Rightarrow> char_ptr \<Rightarrow> nat \<Rightarrow> (block \<times> nat) result" where
  "encode_string b out input sz =
     bind_result (encode_short b out (of_nat sz)) (\<lambda>(b', buffer).
     bind_result (load_bytes input sz) (\<lambda>bs. put b' buffer bs))"

definition decode_long_string :: "char_ptr \<Rightarrow> size_t \<Rightarrow> (char_ptr \<times> size_t \<times> char_ptr) result" where
  "decode_long_string input sz =
     bind_result (decode_int input) (\<lambda>(v, out).
       let sz' = set_low32 sz v in Inr (out, sz', ptr_add out (unat sz')))"

definition encode_long_string :: "block \<Rightarrow> nat \<Rightarrow> char_ptr \<Rightarrow> nat \<Rightarrow> (block \<times> nat) result" where
  "encode_long_string b out input sz =
     bind_result (encode_int b out (of_nat sz)) (\<lambda>(b', buffer).
     bind_result (load_bytes input sz) (\<lambda>bs. put b' buffer bs))"

fun encode_map_entries :: "block \<Rightarrow> nat \<Rightarrow> string_map \<Rightarrow> (block \<times> nat) result" where
  "encode_map_entries b buffer [] = Inr (b, buffer)"
| "encode_map_entries b buffer ((k, v) # m) =
     bind_result (encode_string b buffer (c_str k) (length k)) (\<lambda>(b, buffer).
     bind_result (encode_string b buffer (c_str v) (length v)) (\<lambda>(b, buffer).
     encode_map_entries b buffer m))"

definition encode_string_map :: "block \<Rightarrow> nat \<Rightarrow> string_map \<Rightarrow> (block \<times> nat) result" where
  "encode_string_map b out m =
     bind_result (encode_short b out (of_nat (length m))) (\<lambda>(b, buffer).
     encode_map_entries b buffer m)"

text \<open>The loops \<open>for (int i = 0; i < len; i++)\<close> over a signed 16-bit \<open>len\<close>.\<close>

definition decode_map_entry :: "nat \<Rightarrow> string_map \<times> char_ptr \<Rightarrow> (string_map \<times> char_ptr) result" where
  "decode_map_entry i = (\<lambda>(m, buffer).
     bind_result (decode_string buffer 0) (\<lambda>(key, key_size, buffer).
     bind_result (decode_string buffer 0) (\<lambda>(val, val_size, buffer).
     bind_result (load_bytes key (unat key_size)) (\<lambda>k.
     bind_result (load_bytes val (unat val_size)) (\<lambda>v.
     Inr (map_insert k v m, buffer))))))"

definition decode_string_map :: "char_ptr \<Rightarrow> (string_map \<times> char_ptr) result" where
  "decode_string_map input =
     bind_result (decode_short input) (\<lambda>(len, buffer).
     for_loop 0 (nat (sint len)) decode_map_entry ([], buffer))"

definition decode_list_entry :: "nat \<Rightarrow> bytes list \<times> char_ptr \<Rightarrow> (bytes list \<times> char_ptr) result" where
  "decode_list_entry i = (\<lambda>(out, buffer).
     bind_result (decode_string buffer 0) (\<lambda>(s, s_size, buffer).
     bind_result (load_bytes s (unat s_size)) (\<lambda>bs.
     Inr (out @ [bs], buffer))))"

definition decode_stringlist :: "char_ptr \<Rightarrow> (bytes list \<times> char_ptr) result" where
  "decode_stringlist input =
     bind_result (decode_short input) (\<lambda>(len, buffer).
     for_loop 0 (nat (sint len)) decode_list_entry ([], buffer))"

definition decode_multimap_entry ::
  "nat \<Rightarrow> string_multimap \<times> char_ptr \<Rightarrow> (string_multimap \<times> char_ptr) result" where
  "decode_multimap_entry i = (\<lambda>(out, buffer).
     bind_result (decode_string buffer 0) (\<lambda>(key, key_size, buffer).
     bind_result (decode_stringlist buffer) (\<lambda>(val, buffer).
     bind_result (load_bytes key (unat key_size)) (\<lambda>k.
     Inr (map_insert k val out, buffer)))))"

definition decode_string_multimap :: "char_ptr \<Rightarrow> (string_multimap \<times> char_ptr) result" where
  "decode_string_multimap input =
     bind_result (decode_short input) (\<lambda>(len, buffer).
     for_loop 0 (nat (sint len)) decode_multimap_entry ([], buffer))"

definition decode_option ::
  "char_ptr \<Rightarrow> char_ptr \<Rightarrow> size_t \<Rightarrow> (int16 \<times> char_ptr \<times> size_t \<times> char_ptr) result" where
  "decode_option input class_name class_name_size =
     bind_result (decode_short input) (\<lambda>(type, buffer).
     if type = CQL_COLUMN_TYPE_CUSTOM
     then bind_result (decode_string buffer class_name_size) (\<lambda>(class_name, class_name_size, buffer).
       Inr (type, class_name, class_name_size, buffer))
     else Inr (type, class_name, class_name_size, buffer))"

subsection \<open>The reference format\<close>

definition wire_string :: "bytes \<Rightarrow> bytes" where
  "wire_string s = be16 (of_nat (length s)) @ s"

definition wire_long_string :: "bytes \<Rightarrow> bytes" where
  "wire_long_string s = be32 (of_nat (length s)) @ s"

definition wire_entry :: "bytes \<times> bytes \<Rightarrow> bytes" where
  "wire_entry e = wire_string (fst e) @ wire_string (snd e)"

lemma wire_entry_pair: "wire_entry (k, v) = wire_string k @ wire_string v"
  by (simp add: wire_entry_def)

definition wire_string_map :: "string_map \<Rightarrow> bytes" where
  "wire_string_map m = be16 (of_nat (length m)) @ concat (map wire_entry m)"

definition wire_stringlist :: "bytes list \<Rightarrow> bytes" where
  "wire_stringlist xs = be16 (of_nat (length xs)) @ concat (map wire_string xs)"

definition wire_multimap_entry :: "bytes \<times> bytes list \<Rightarrow> bytes" where
  "wire_multimap_entry e = wire_string (fst e) @ wire_stringlist (snd e)"

definition wire_string_multimap :: "string_multimap \<Rightarrow> bytes" where
  "wire_string_multimap m = be16 (of_nat (length m)) @ concat (map wire_multimap_entry m)"

text \<open>What fits the length fields: 16 unsigned bits for a string, 15 for a count.\<close>

definition short_string :: "bytes \<Rightarrow> bool" where
  "short_string s \<longleftrightarrow> length s < 65536"

definition short_list :: "bytes list \<Rightarrow> bool" where
  "short_list xs \<longleftrightarrow> length xs < 32768 \<and> list_all short_string xs"

lemma length_wire_string [simp]: "length (wire_string s) = 2 + length s"
  by (simp add: wire_string_def)

lemma length_wire_long_string [simp]: "length (wire_long_string s) = 4 + length s"
  by (simp add: wire_long_string_def)

lemma length_wire_string_map [simp]:
  "length (wire_string_map m) = 2 + (\<Sum>e \<leftarrow> m. 4 + length (fst e) + length (snd e))"
  by (simp add: wire_string_map_def length_concat comp_def wire_entry_def add.assoc)

subsection \<open>Primitives\<close>

lemma points_to_c_str [simp]: "points_to (c_str s) s"
  by (simp add: c_str_def)

lemma encode_byte_put [wire]: "encode_byte b p v = put b p [v]"
  by (simp add: encode_byte_def)

lemma encode_short_put [wire]: "encode_short b p v = put b p (be16 v)"
  by (simp add: encode_short_def wire)

lemma encode_int_put [wire]: "encode_int b p v = put b p (be32 v)"
  by (simp add: encode_int_def wire)

lemma decode_short_wire [wire]:
  "points_to P (be16 v) \<Longrightarrow> decode_short P = Inr (v, ptr_add P 2)"
  using load_points_to [of P "be16 v"] by (simp add: decode_short_def wire)

lemma decode_int_wire [wire]:
  "points_to P (be32 v) \<Longrightarrow> decode_int P = Inr (v, ptr_add P 4)"
  using load_points_to [of P "be32 v"] by (simp add: decode_int_def wire)

lemma decode_short_iff:
  "decode_short P = Inr (v, Q) \<longleftrightarrow> points_to P (be16 v) \<and> Q = ptr_add P 2"
proof
  assume "decode_short P = Inr (v, Q)"
  then obtain bs where bs: "load_bytes P 2 = Inr bs" "v = htons (val16 bs)" "Q = ptr_add P 2"
    by (auto simp: decode_short_def)
  then have "length bs = 2" "points_to P bs" by (simp_all add: load_bytes_iff)
  with bs show "points_to P (be16 v) \<and> Q = ptr_add P 2" by (simp add: be_ntoh)
qed (auto simp: wire)

lemma decode_int_iff:
  "decode_int P = Inr (v, Q) \<longleftrightarrow> points_to P (be32 v) \<and> Q = ptr_add P 4"
proof
  assume "decode_int P = Inr (v, Q)"
  then obtain bs where bs: "load_bytes P 4 = Inr bs" "v = htonl (val32 bs)" "Q = ptr_add P 4"
    by (auto simp: decode_int_def)
  then have "length bs = 4" "points_to P bs" by (simp_all add: load_bytes_iff)
  with bs show "points_to P (be32 v) \<and> Q = ptr_add P 4" by (simp add: be_ntoh)
qed (auto simp: wire)

subsection \<open>Strings\<close>

lemma encode_string_put [wire]:
  assumes "points_to input s"
  shows "encode_string b p input (length s) = put b p (wire_string s)"
  using load_points_to [OF assms]
  by (simp add: encode_string_def wire_string_def wire)

lemma encode_long_string_put [wire]:
  assumes "points_to input s"
  shows "encode_long_string b p input (length s) = put b p (wire_long_string s)"
  using load_points_to [OF assms]
  by (simp add: encode_long_string_def wire_long_string_def wire)

lemma and_not_mask_zero: "unat sz < 2 ^ n \<Longrightarrow> sz AND NOT (mask n) = (0 :: size_t)"
proof -
  assume "unat sz < 2 ^ n"
  then have "unat (take_bit n sz) = unat sz"
    by (simp add: unsigned_take_bit_eq take_bit_nat_eq_self)
  then have "take_bit n sz = sz" by (simp add: word_unat_eq_iff)
  then have "sz AND mask n = sz" by (simp add: take_bit_eq_mask)
  then have "sz AND NOT (mask n) = (sz AND mask n) AND NOT (mask n)" by simp
  then show ?thesis by (simp only: and.assoc bit.conj_cancel_right bit.conj_zero_right)
qed

lemma set_low16_small: "unat sz < 65536 \<Longrightarrow> set_low16 sz v = ucast v"
  using and_not_mask_zero [of sz 16] by (simp add: set_low16_def)

lemma set_low32_small: "unat sz < 4294967296 \<Longrightarrow> set_low32 sz v = ucast v"
  using and_not_mask_zero [of sz 32] by (simp add: set_low32_def)

lemma ucast16_of_nat: "n < 65536 \<Longrightarrow> (ucast (of_nat n :: int16) :: size_t) = of_nat n"
  by (simp add: unsigned_of_nat take_bit_nat_eq_self)

lemma ucast32_of_nat: "n < 4294967296 \<Longrightarrow> (ucast (of_nat n :: int32) :: size_t) = of_nat n"
  by (simp add: unsigned_of_nat take_bit_nat_eq_self)

lemma unat_size_of_nat [simp]: "n < 4294967296 \<Longrightarrow> unat (of_nat n :: size_t) = n"
  by (simp add: unat_of_nat take_bit_nat_eq_self)

text \<open>Decoding a string: the pointer to its characters, its size, and the pointer behind it.\<close>

lemma decode_string_wire [wire]:
  assumes "points_to P (wire_string s)" and "short_string s" and "unat sz < 65536"
  shows "decode_string P sz = Inr (ptr_add P 2, of_nat (length s), ptr_add P (2 + length s))"
  using assms
  by (simp add: decode_string_def wire_string_def short_string_def set_low16_small
      decode_short_wire [where v = "of_nat (length s)"] ucast16_of_nat)

lemma decode_long_string_wire [wire]:
  assumes "points_to P (wire_long_string s)" and "length s < 4294967296"
    and "unat sz < 4294967296"
  shows "decode_long_string P sz =
     Inr (ptr_add P 4, of_nat (length s), ptr_add P (4 + length s))"
  using assms
  by (simp add: decode_long_string_def wire_long_string_def set_low32_small
      decode_int_wire [where v = "of_nat (length s)"] ucast32_of_nat)

text \<open>Reading the characters back.\<close>

lemma load_wire_string [wire]:
  assumes "points_to P (wire_string s)" and "short_string s"
  shows "load_bytes (ptr_add P 2) (unat (of_nat (length s) :: size_t)) = Inr s"
  using assms by (simp add: wire_string_def short_string_def wire)

subsection \<open>Loops over encoded entries\<close>

text \<open>
  The contract of a loop body that reads one entry: from a pointer \<open>P\<close> to the encoding of \<open>e\<close>
  it steps the accumulator with \<open>upd i e P\<close>, which keeps the invariant, and moves behind the
  encoding. Every decoding loop of the sources is an instance.
\<close>

locale entry_reader =
  fixes body :: "nat \<Rightarrow> 's \<times> char_ptr \<Rightarrow> ('s \<times> char_ptr) result"
    and enc :: "'e \<Rightarrow> bytes"
    and upd :: "nat \<Rightarrow> 'e \<Rightarrow> char_ptr \<Rightarrow> 's \<Rightarrow> 's"
    and ok :: "'e \<Rightarrow> bool"
    and invar :: "'s \<Rightarrow> bool"
  assumes body_reads:
    "ok e \<Longrightarrow> invar s \<Longrightarrow> points_to P (enc e) \<Longrightarrow>
       body i (s, P) = Inr (upd i e P s, ptr_add P (length (enc e)))"
    and invar_upd: "ok e \<Longrightarrow> invar s \<Longrightarrow> invar (upd i e P s)"
begin

fun upd_all :: "nat \<Rightarrow> 'e list \<Rightarrow> char_ptr \<Rightarrow> 's \<Rightarrow> 's" where
  "upd_all i [] P s = s"
| "upd_all i (e # es) P s = upd_all (Suc i) es (ptr_add P (length (enc e))) (upd i e P s)"

lemma loop_reads:
  assumes "list_all ok es" and "invar s" and "points_to P (concat (map enc es))"
  shows "for_loop i (length es) body (s, P)
     = Inr (upd_all i es P s, ptr_add P (length (concat (map enc es))))"
  using assms
proof (induction es arbitrary: i s P)
  case Nil
  then show ?case by simp
next
  case (Cons e es)
  then have "body i (s, P) = Inr (upd i e P s, ptr_add P (length (enc e)))"
    by (intro body_reads) auto
  moreover have "for_loop (Suc i) (length es) body (upd i e P s, ptr_add P (length (enc e)))
      = Inr (upd_all (Suc i) es (ptr_add P (length (enc e))) (upd i e P s),
          ptr_add (ptr_add P (length (enc e))) (length (concat (map enc es))))"
    using Cons.prems by (intro Cons.IH invar_upd) auto
  ultimately show ?case by simp
qed

lemma upd_all_fold: "(\<And>i e P. upd i e P = step e) \<Longrightarrow> upd_all i es P s = fold step es s"
  by (induction es arbitrary: i P s) simp_all

end

definition entry_ok :: "bytes \<times> bytes \<Rightarrow> bool" where
  "entry_ok e \<longleftrightarrow> short_string (fst e) \<and> short_string (snd e)"

definition multimap_entry_ok :: "bytes \<times> bytes list \<Rightarrow> bool" where
  "multimap_entry_ok e \<longleftrightarrow> short_string (fst e) \<and> short_list (snd e)"

lemma read_string_then [wire]:
  assumes "points_to P (wire_string s)" and "short_string s"
  shows "bind_result (decode_string P 0) f
     = f (ptr_add P 2, of_nat (length s), ptr_add P (2 + length s))"
  using decode_string_wire [OF assms, of 0] by simp

interpretation list_loop: entry_reader decode_list_entry wire_string
  "\<lambda>i s P out. out @ [s]" short_string "\<lambda>_. True"
proof
  fix e P i s
  assume "short_string e" "points_to P (wire_string e)"
  then show "decode_list_entry i (s, P) = Inr (s @ [e], ptr_add P (length (wire_string e)))"
    by (simp add: decode_list_entry_def read_string_then load_wire_string)
qed simp

interpretation map_loop: entry_reader decode_map_entry wire_entry
  "\<lambda>i e P m. map_insert (fst e) (snd e) m" entry_ok "\<lambda>_. True"
proof
  fix e P i s
  assume ok: "entry_ok e" and P: "points_to P (wire_entry e)"
  then have k: "points_to P (wire_string (fst e))" "short_string (fst e)"
    and v: "points_to (ptr_add P (2 + length (fst e))) (wire_string (snd e))" "short_string (snd e)"
    by (simp_all add: entry_ok_def wire_entry_def)
  show "decode_map_entry i (s, P)
      = Inr (map_insert (fst e) (snd e) s, ptr_add P (length (wire_entry e)))"
    using load_wire_string [OF k] load_wire_string [OF v]
    by (simp add: decode_map_entry_def read_string_then [OF k] read_string_then [OF v]
        wire_entry_def)
qed simp

text \<open>Lists of strings, and with them the entries of a multimap.\<close>

lemma decode_stringlist_wire [wire]:
  assumes "points_to P (wire_stringlist xs)" and "short_list xs"
  shows "decode_stringlist P = Inr (xs, ptr_add P (length (wire_stringlist xs)))"
proof -
  have "decode_short P = Inr (of_nat (length xs), ptr_add P 2)"
    using assms by (intro decode_short_wire) (simp add: wire_stringlist_def)
  moreover have "nat (sint (of_nat (length xs) :: int16)) = length xs"
    using assms(2) by (simp add: short_list_def sint_of_nat_16)
  moreover have "for_loop 0 (length xs) decode_list_entry ([], ptr_add P 2)
      = Inr (list_loop.upd_all 0 xs (ptr_add P 2) [],
          ptr_add (ptr_add P 2) (length (concat (map wire_string xs))))"
    using assms by (intro list_loop.loop_reads) (simp_all add: short_list_def wire_stringlist_def)
  moreover have "list_loop.upd_all i ys Q zs = zs @ ys" for i ys zs Q
    by (induction ys arbitrary: i Q zs) simp_all
  ultimately show ?thesis by (simp add: decode_stringlist_def wire_stringlist_def)
qed

interpretation multimap_loop: entry_reader decode_multimap_entry wire_multimap_entry
  "\<lambda>i e P m. map_insert (fst e) (snd e) m" multimap_entry_ok "\<lambda>_. True"
proof
  fix e P i s
  assume ok: "multimap_entry_ok e" and P: "points_to P (wire_multimap_entry e)"
  then have k: "points_to P (wire_string (fst e))" "short_string (fst e)"
    and v: "points_to (ptr_add P (2 + length (fst e))) (wire_stringlist (snd e))" "short_list (snd e)"
    by (simp_all add: multimap_entry_ok_def wire_multimap_entry_def)
  show "decode_multimap_entry i (s, P)
      = Inr (map_insert (fst e) (snd e) s, ptr_add P (length (wire_multimap_entry e)))"
    using load_wire_string [OF k] decode_stringlist_wire [OF v]
    by (simp add: decode_multimap_entry_def read_string_then [OF k]
        wire_multimap_entry_def)
qed simp

lemma decode_string_map_reads:
  assumes "points_to P (wire_string_map m)" and "list_all entry_ok m" and "length m < 32768"
  shows "decode_string_map P = Inr (fold (\<lambda>(k, v). map_insert k v) m [],
     ptr_add P (length (wire_string_map m)))"
proof -
  have "decode_short P = Inr (of_nat (length m), ptr_add P 2)"
    using assms by (intro decode_short_wire) (simp add: wire_string_map_def)
  moreover have "for_loop 0 (length m) decode_map_entry ([], ptr_add P 2)
      = Inr (map_loop.upd_all 0 m (ptr_add P 2) [],
        ptr_add (ptr_add P 2) (length (concat (map wire_entry m))))"
    using assms by (intro map_loop.loop_reads) (simp_all add: wire_string_map_def)
  moreover have "map_loop.upd_all 0 m (ptr_add P 2) [] = fold (\<lambda>(k, v). map_insert k v) m []"
    by (rule map_loop.upd_all_fold) (simp add: fun_eq_iff case_prod_unfold)
  ultimately show ?thesis
    using assms(3) by (simp add: decode_string_map_def wire_string_map_def sint_of_nat_16)
qed

lemma decode_string_multimap_reads:
  assumes "points_to P (wire_string_multimap m)" and "list_all multimap_entry_ok m"
    and "length m < 32768"
  shows "decode_string_multimap P = Inr (fold (\<lambda>(k, v). map_insert k v) m [],
     ptr_add P (length (wire_string_multimap m)))"
proof -
  have "decode_short P = Inr (of_nat (length m), ptr_add P 2)"
    using assms by (intro decode_short_wire) (simp add: wire_string_multimap_def)
  moreover have "for_loop 0 (length m) decode_multimap_entry ([], ptr_add P 2)
      = Inr (multimap_loop.upd_all 0 m (ptr_add P 2) [],
          ptr_add (ptr_add P 2) (length (concat (map wire_multimap_entry m))))"
    using assms by (intro multimap_loop.loop_reads) (simp_all add: wire_string_multimap_def)
  moreover have "multimap_loop.upd_all 0 m (ptr_add P 2) [] = fold (\<lambda>(k, v). map_insert k v) m []"
    by (rule multimap_loop.upd_all_fold) (simp add: fun_eq_iff case_prod_unfold)
  ultimately show ?thesis
    using assms(3)
    by (simp add: decode_string_multimap_def wire_string_multimap_def sint_of_nat_16)
qed

lemma encode_map_entries_put:
  "p \<le> length b \<Longrightarrow> encode_map_entries b p m = put b p (concat (map wire_entry m))"
proof (induction m arbitrary: b p)
  case Nil
  then show ?case by (simp add: put_Nil)
next
  case (Cons e m)
  obtain k v where e: "e = (k, v)" by (cases e)
  have "bind_result (put b p (wire_entry e)) (\<lambda>(b, q). encode_map_entries b q m)
      = put b p (wire_entry e @ concat (map wire_entry m))"
    by (rule put_then_eq) (rule Cons.IH)
  then show ?case
    by (simp add: e wire encode_string_put [OF points_to_c_str] wire_entry_pair)
qed

lemma encode_string_map_put [wire]:
  "encode_string_map b p m = put b p (wire_string_map m)"
  unfolding encode_string_map_def wire_string_map_def encode_short_put
  by (rule put_then_eq) (rule encode_map_entries_put)

subsection \<open>Properties\<close>

text \<open>
  The encoder of a string map is exact and memory safe: when the reference encoding fits
  behind the start offset it writes these bytes and no others and returns the offset behind
  them, otherwise the write runs out of the buffer.
\<close>

lemma encode_string_map_exact:
  "encode_string_map b p m =
     (if p + length (wire_string_map m) \<le> length b
      then Inr (take p b @ map Some (wire_string_map m) @ drop (p + length (wire_string_map m)) b,
                p + length (wire_string_map m))
      else Inl OutOfBounds)"
  by (simp only: encode_string_map_put put_def)

text \<open>
  C17: Round trip of string maps: what \<open>encode_string_map\<close> writes for a well-formed map of at
  most 32767 entries whose strings fit the 16-bit length field, \<open>decode_string_map\<close> reads back
  as the same map, and it stops where the encoder stopped.
\<close>

theorem string_map_roundtrip:
  assumes "map_ok m" and "list_all entry_ok m" and "length m < 32768"
    and "encode_string_map b p m = Inr (b', q)"
  shows "decode_string_map (Ptr b' p) = Inr (m, Ptr b' q)"
  using assms points_to_put [of b p "wire_string_map m" b' q]
    decode_string_map_reads [of "Ptr b' p" m] fold_map_insert [OF assms(1)]
  by (simp add: encode_string_map_put)

theorem string_map_roundtrip_witness:
  "decode_string_map (Ptr (map Some [0, 1, 0, 1, 97, 0, 2, 98, 99]) 0) =
     Inr ([([97], [98, 99])], Ptr (map Some [0, 1, 0, 1, 97, 0, 2, 98, 99]) 9)"
  by (rule string_map_roundtrip [where b = "replicate 9 None"])
    (simp_all add: entry_ok_def short_string_def encode_string_map_put put_def wire_string_map_def
      wire_entry_def wire_string_def be16_def byte_of_def)

text \<open>
  The entry count is encoded from a \<open>size_t\<close> but decoded as a signed \<open>int16_t\<close>: a map of
  32768 to 65535 entries is read back as the empty map, and the reader stops behind the count.
\<close>

lemma string_map_count_negative:
  assumes "points_to P (wire_string_map m)" and "32768 \<le> length m" and "length m < 65536"
  shows "decode_string_map P = Inr ([], ptr_add P 2)"
proof -
  have "decode_short P = Inr (of_nat (length m), ptr_add P 2)"
    using assms(1) by (intro decode_short_wire) (simp add: wire_string_map_def)
  moreover have "sint (of_nat (length m) :: int16) < 0"
    using assms(2,3) by (rule sint_of_nat_16_neg)
  ultimately show ?thesis by (simp add: decode_string_map_def)
qed

end
