(* ===== verification/Body_Simple.thy ===== *)
theory Body_Simple
  imports Serialization
begin

text \<open>
  The message bodies with little structure: \<^verbatim>\<open>include/cql_body_error.hpp\<close>,
  \<^verbatim>\<open>include/cql_body_options.hpp\<close>, \<^verbatim>\<open>include/cql_body_ready.hpp\<close> and
  \<^verbatim>\<open>include/cql_body_prepare.hpp\<close>, with the common interface of \<^verbatim>\<open>include/cql_body.hpp\<close>.

  \<open>prepare\<close> returns what \<open>*output\<close> points to (\<open>None\<close> when it is not assigned), the new value
  of \<open>size\<close> and the returned flag; \<open>consume\<close> returns the new body and the flag. Sizes of
  in-memory objects are natural numbers: no sum of them reaches \<open>2 ^ 64\<close>.
\<close>

type_synonym prepared = "block option \<times> nat \<times> bool"

subsection \<open>BodyError\<close>

record body_error =
  err_guard :: char_ptr
  err_code :: int32
  err_message :: char_ptr
  err_message_size :: size_t

definition body_error_new :: body_error where
  "body_error_new =
     \<lparr>err_guard = Null, err_code = 0xFFFFFFFF, err_message = Null, err_message_size = 0\<rparr>"

definition body_error_make :: "allocator \<Rightarrow> int32 \<Rightarrow> char_ptr \<Rightarrow> nat \<Rightarrow> body_error result" where
  "body_error_make alloc code input input_size =
     bind_result (load_bytes input input_size) (\<lambda>bs.
     bind_result (put (new_char alloc input_size) 0 bs) (\<lambda>(guard, _).
     Inr \<lparr>err_guard = Ptr guard 0, err_code = code, err_message = Ptr guard 0,
          err_message_size = of_nat input_size\<rparr>))"

definition body_error_consume :: "char_ptr \<Rightarrow> nat \<Rightarrow> body_error \<Rightarrow> (body_error \<times> bool) result" where
  "body_error_consume buffer sz e =
     bind_result (decode_int buffer) (\<lambda>(code, buffer).
     bind_result (decode_string buffer (err_message_size e)) (\<lambda>(message, message_size, _).
     Inr (e\<lparr>err_code := code, err_message := message, err_message_size := message_size\<rparr>, True)))"

definition body_error_prepare :: "allocator \<Rightarrow> nat \<Rightarrow> nat \<Rightarrow> body_error \<Rightarrow> prepared result" where
  "body_error_prepare alloc reserved sz e =
     (let sz = reserved + 4 + 2 + unat (err_message_size e); out = new_char alloc sz in
      bind_result (encode_int out reserved (err_code e)) (\<lambda>(out, buffer).
      bind_result (encode_string out buffer (err_message e) (unat (err_message_size e)))
        (\<lambda>(out, _). Inr (Some out, sz, True))))"

subsection \<open>BodyOptions and BodyReady\<close>

text \<open>Both have no state. Both allocate the incoming \<open>size\<close> before they set it to \<open>reserved\<close>.\<close>

definition body_options_consume :: "char_ptr \<Rightarrow> nat \<Rightarrow> bool result" where
  "body_options_consume buffer sz = Inr True"

definition body_options_prepare :: "allocator \<Rightarrow> nat \<Rightarrow> nat \<Rightarrow> prepared result" where
  "body_options_prepare alloc reserved sz =
     (let out = new_char alloc sz; sz = reserved in Inr (Some out, sz, True))"

definition body_ready_consume :: "char_ptr \<Rightarrow> nat \<Rightarrow> bool result" where
  "body_ready_consume buffer sz = Inr True"

definition body_ready_prepare :: "allocator \<Rightarrow> nat \<Rightarrow> nat \<Rightarrow> prepared result" where
  "body_ready_prepare alloc reserved sz =
     (let out = new_char alloc sz; sz = reserved in Inr (Some out, sz, True))"

subsection \<open>BodyPrepare\<close>

record body_prepare =
  prep_prepare :: bytes

definition body_prepare_new :: body_prepare where
  "body_prepare_new = \<lparr>prep_prepare = []\<rparr>"

definition prepare_string_ptr :: "char_ptr \<Rightarrow> nat \<Rightarrow> body_prepare \<Rightarrow> body_prepare result" where
  "prepare_string_ptr input sz p =
     bind_result (load_bytes input sz) (\<lambda>bs. Inr (p\<lparr>prep_prepare := bs\<rparr>))"

definition prepare_string :: "bytes \<Rightarrow> body_prepare \<Rightarrow> body_prepare" where
  "prepare_string input p = p\<lparr>prep_prepare := input\<rparr>"

definition body_prepare_consume :: "char_ptr \<Rightarrow> nat \<Rightarrow> body_prepare \<Rightarrow> (body_prepare \<times> bool) result" where
  "body_prepare_consume buffer sz p = Inr (p, True)"

definition body_prepare_prepare :: "allocator \<Rightarrow> nat \<Rightarrow> nat \<Rightarrow> body_prepare \<Rightarrow> prepared result" where
  "body_prepare_prepare alloc reserved sz p =
     (let sz = reserved + 4 + length (prep_prepare p); out = new_char alloc sz in
      bind_result (encode_long_string out reserved (c_str (prep_prepare p)) (length (prep_prepare p)))
        (\<lambda>(out, _). Inr (Some out, sz, True)))"

subsection \<open>The payload contract\<close>

text \<open>
  What \<open>Message::prepare\<close> relies on: a body with state \<open>x\<close> allocates the reserved bytes and its
  payload, and writes the payload behind the reserved bytes.
\<close>

locale payload_body =
  fixes prep :: "allocator \<Rightarrow> nat \<Rightarrow> nat \<Rightarrow> 'x \<Rightarrow> prepared result"
    and payload :: "'x \<Rightarrow> bytes"
    and ok :: "'x \<Rightarrow> bool"
  assumes prep_payload:
    "ok x \<Longrightarrow> (\<And>n. n \<le> alloc n) \<Longrightarrow>
       prep alloc r sz x =
         Inr (Some (framed alloc (r + length (payload x)) r (payload x)),
              r + length (payload x), True)"

text \<open>An error body holds text \<open>s\<close> when its message pointer shows exactly \<open>s\<close>.\<close>

definition error_text :: "body_error \<Rightarrow> bytes" where
  "error_text e = (case load_bytes (err_message e) (unat (err_message_size e)) of
     Inl _ \<Rightarrow> [] | Inr s \<Rightarrow> s)"

definition error_ok :: "body_error \<Rightarrow> bool" where
  "error_ok e \<longleftrightarrow>
     (case load_bytes (err_message e) (unat (err_message_size e)) of Inl _ \<Rightarrow> False | Inr _ \<Rightarrow> True)
     \<and> unat (err_message_size e) < 65536"

definition wire_error :: "int32 \<Rightarrow> bytes \<Rightarrow> bytes" where
  "wire_error code s = be32 code @ wire_string s"

lemma error_okD:
  assumes "error_ok e"
  shows "points_to (err_message e) (error_text e)"
    and "unat (err_message_size e) = length (error_text e)"
    and "short_string (error_text e)"
proof -
  from assms obtain s where s: "load_bytes (err_message e) (unat (err_message_size e)) = Inr s"
    by (auto simp: error_ok_def split: sum.splits)
  then have "error_text e = s" by (simp add: error_text_def)
  moreover from s have "length s = unat (err_message_size e)" "points_to (err_message e) s"
    by (simp_all add: load_bytes_iff)
  ultimately show "points_to (err_message e) (error_text e)"
    and "unat (err_message_size e) = length (error_text e)"
    and "short_string (error_text e)"
    using assms by (simp_all add: error_ok_def short_string_def)
qed

interpretation error_payload: payload_body body_error_prepare
  "\<lambda>e. wire_error (err_code e) (error_text e)" error_ok
proof
  fix e r sz and alloc :: allocator
  assume ok: "error_ok e" and alloc: "\<And>n. n \<le> alloc n"
  have "encode_string b p (err_message e) (unat (err_message_size e))
      = put b p (wire_string (error_text e))" for b p
    using error_okD [OF ok] by (simp add: encode_string_put)
  with alloc [of "r + (4 + (2 + length (error_text e)))"] error_okD(2) [OF ok]
  show "body_error_prepare alloc r sz e =
      Inr (Some (framed alloc (r + length (wire_error (err_code e) (error_text e))) r
             (wire_error (err_code e) (error_text e))),
           r + length (wire_error (err_code e) (error_text e)), True)"
    by (simp add: body_error_prepare_def wire_error_def wire add.assoc Let_def)
qed

interpretation prepare_payload: payload_body body_prepare_prepare
  "\<lambda>p. wire_long_string (prep_prepare p)" "\<lambda>p. True"
proof
  fix p r sz and alloc :: allocator
  assume alloc: "\<And>n. n \<le> alloc n"
  show "body_prepare_prepare alloc r sz p =
      Inr (Some (framed alloc (r + length (wire_long_string (prep_prepare p))) r
             (wire_long_string (prep_prepare p))),
           r + length (wire_long_string (prep_prepare p)), True)"
    using alloc [of "r + (4 + length (prep_prepare p))"]
    by (simp add: body_prepare_prepare_def wire encode_long_string_put [OF points_to_c_str]
      add.assoc Let_def)
qed

lemma body_error_consume_wire:
  assumes "points_to P (wire_error code s)" and "short_string s" and "unat (err_message_size e) < 65536"
  shows "body_error_consume P sz e =
     Inr (e\<lparr>err_code := code, err_message := ptr_add P 6, err_message_size := of_nat (length s)\<rparr>, True)"
proof -
  have "decode_int P = Inr (code, ptr_add P 4)"
    using assms by (intro decode_int_wire) (simp add: wire_error_def)
  moreover have "decode_string (ptr_add P 4) (err_message_size e)
      = Inr (ptr_add P 6, of_nat (length s), ptr_add P (6 + length s))"
    using assms decode_string_wire [of "ptr_add P 4" s "err_message_size e"]
    by (simp add: wire_error_def add.assoc)
  ultimately show ?thesis by (simp add: body_error_consume_def)
qed

end
