(* ===== verification/Body_Startup.thy ===== *)
theory Body_Startup
  imports Body_Simple
begin

text \<open>
  \<^verbatim>\<open>include/cql_body_startup.hpp\<close> and \<^verbatim>\<open>include/cql_body_supported.hpp\<close>: the bodies of
  the start-up negotiation. The start-up body writes and reads a string map of options, the
  supported body reads a string multimap.
\<close>

subsection \<open>BodyStartup\<close>

record body_startup =
  su_cql_version :: bytes
  su_compression :: bytes

definition body_startup_new :: body_startup where
  "body_startup_new = \<lparr>su_cql_version = str ''3.0.0'', su_compression = []\<rparr>"

definition body_startup_consume :: "char_ptr \<Rightarrow> nat \<Rightarrow> body_startup \<Rightarrow> (body_startup \<times> bool) result" where
  "body_startup_consume buffer sz s =
     bind_result (decode_string_map buffer) (\<lambda>(options, _).
     let s = (case map_find (str ''COMPRESSION'') options of
                None \<Rightarrow> s | Some v \<Rightarrow> s\<lparr>su_compression := v\<rparr>);
         s = (case map_find (str ''CQL_VERSION'') options of
                None \<Rightarrow> s | Some v \<Rightarrow> s\<lparr>su_cql_version := v\<rparr>)
     in Inr (s, True))"

definition body_startup_prepare :: "allocator \<Rightarrow> nat \<Rightarrow> nat \<Rightarrow> body_startup \<Rightarrow> prepared result" where
  "body_startup_prepare alloc reserved sz s =
     (let sz = reserved + 2;
          options = [];
          (sz, options) =
            (if su_compression s \<noteq> []
             then (let key = str ''COMPRESSION'';
                       sz = sz + (2 + length key);
                       sz = sz + (2 + length (su_compression s))
                   in (sz, map_assign key (su_compression s) options))
             else (sz, options));
          (sz, options) =
            (if su_cql_version s \<noteq> []
             then (let key = str ''CQL_VERSION'';
                       sz = sz + (2 + length key);
                       sz = sz + (2 + length (su_cql_version s))
                   in (sz, map_assign key (su_cql_version s) options))
             else (sz, options));
          out = new_char alloc sz
      in bind_result (encode_string_map out reserved options) (\<lambda>(out, _).
         Inr (Some out, sz, True)))"

subsection \<open>BodySupported\<close>

record body_supported =
  sp_compression :: "bytes list"
  sp_cql_versions :: "bytes list"

definition body_supported_new :: body_supported where
  "body_supported_new = \<lparr>sp_compression = [], sp_cql_versions = []\<rparr>"

definition body_supported_consume ::
  "char_ptr \<Rightarrow> nat \<Rightarrow> body_supported \<Rightarrow> (body_supported \<times> bool) result" where
  "body_supported_consume buffer sz s =
     bind_result (decode_string_multimap buffer) (\<lambda>(supported, _).
     let s = (case map_find (str ''COMPRESSION'') supported of
                None \<Rightarrow> s | Some v \<Rightarrow> s\<lparr>sp_compression := v\<rparr>);
         s = (case map_find (str ''CQL_VERSION'') supported of
                None \<Rightarrow> s | Some v \<Rightarrow> s\<lparr>sp_cql_versions := v\<rparr>)
     in Inr (s, True))"

definition body_supported_prepare :: "allocator \<Rightarrow> nat \<Rightarrow> nat \<Rightarrow> body_supported \<Rightarrow> prepared result" where
  "body_supported_prepare alloc reserved sz s = Inr (None, sz, False)"

subsection \<open>The options a start-up body sends\<close>

definition startup_options :: "body_startup \<Rightarrow> string_map" where
  "startup_options s =
     (if su_compression s \<noteq> [] then [(str ''COMPRESSION'', su_compression s)] else []) @
     (if su_cql_version s \<noteq> [] then [(str ''CQL_VERSION'', su_cql_version s)] else [])"

definition startup_ok :: "body_startup \<Rightarrow> bool" where
  "startup_ok s \<longleftrightarrow> short_string (su_compression s) \<and> short_string (su_cql_version s)"

lemma key_order: "str ''COMPRESSION'' < str ''CQL_VERSION''"
  by (simp add: str_def)

lemma startup_options_ok: "map_ok (startup_options s)"
  by (simp add: startup_options_def key_order)

lemma startup_entries_ok: "startup_ok s \<Longrightarrow> list_all entry_ok (startup_options s)"
  by (auto simp: startup_options_def startup_ok_def entry_ok_def short_string_def)

lemma length_startup_options: "length (startup_options s) \<le> 2"
  by (simp add: startup_options_def)

lemma map_find_startup_options:
  "map_find (str ''COMPRESSION'') (startup_options s) =
     (if su_compression s = [] then None else Some (su_compression s))"
  "map_find (str ''CQL_VERSION'') (startup_options s) =
     (if su_cql_version s = [] then None else Some (su_cql_version s))"
  using key_order by (auto simp: startup_options_def map_find_def)

interpretation startup_payload: payload_body body_startup_prepare
  "\<lambda>s. wire_string_map (startup_options s)" "\<lambda>s. True"
proof
  fix s r sz and alloc :: allocator
  assume alloc: "\<And>n. n \<le> alloc n"
  let ?w = "wire_string_map (startup_options s)"
  have "body_startup_prepare alloc r sz s =
      bind_result (put (new_char alloc (r + length ?w)) r ?w) (\<lambda>(out, _).
        Inr (Some out, r + length ?w, True))"
    using key_order
    by (simp add: body_startup_prepare_def Let_def wire startup_options_def add.assoc
        order_less_not_sym [OF key_order] less_imp_neq [OF key_order, symmetric])
  with alloc [of "r + length ?w"]
  show "body_startup_prepare alloc r sz s =
      Inr (Some (framed alloc (r + length ?w) r ?w), r + length ?w, True)"
    by (simp add: wire)
qed

lemma body_startup_consume_reads:
  assumes "points_to P (wire_string_map (startup_options s))" and "startup_ok s"
  shows "body_startup_consume P sz t =
     Inr (t\<lparr>su_cql_version := (if su_cql_version s = [] then su_cql_version t else su_cql_version s),
           su_compression := (if su_compression s = [] then su_compression t else su_compression s)\<rparr>,
          True)"
proof -
  have "decode_string_map P =
      Inr (startup_options s, ptr_add P (length (wire_string_map (startup_options s))))"
    using decode_string_map_reads [OF assms(1) startup_entries_ok [OF assms(2)]]
      length_startup_options [of s] fold_map_insert [OF startup_options_ok]
    by simp
  then show ?thesis
    by (simp add: body_startup_consume_def Let_def map_find_startup_options)
qed

lemma body_supported_consume_reads:
  assumes "points_to P (wire_string_multimap m)" and "map_ok m"
    and "list_all multimap_entry_ok m" and "length m < 32768"
  shows "body_supported_consume P sz t =
     Inr (t\<lparr>sp_compression := (case map_find (str ''COMPRESSION'') m of
                None \<Rightarrow> sp_compression t | Some v \<Rightarrow> v),
           sp_cql_versions := (case map_find (str ''CQL_VERSION'') m of
                None \<Rightarrow> sp_cql_versions t | Some v \<Rightarrow> v)\<rparr>, True)"
  using decode_string_multimap_reads [OF assms(1,3,4)] fold_map_insert [OF assms(2)]
  by (simp add: body_supported_consume_def Let_def split: option.split)

end
