(* ===== verification/Body_Query.thy ===== *)
theory Body_Query
  imports Body_Simple
begin

text \<open>
  \<^verbatim>\<open>include/cql_body_query.hpp\<close>: the QUERY body. A bound value is a pointer into memory of
  the caller and a size, as in the source; \<open>prepare\<close> reads it.
\<close>

definition CQL_QUERY_FLAG_VALUES :: byte where "CQL_QUERY_FLAG_VALUES = 0x01"
definition CQL_QUERY_FLAG_PAGE_SIZE :: byte where "CQL_QUERY_FLAG_PAGE_SIZE = 0x04"
definition CQL_QUERY_FLAG_PAGING_STATE :: byte where "CQL_QUERY_FLAG_PAGING_STATE = 0x08"
definition CQL_QUERY_FLAG_SERIAL_CONSISTENCY :: byte where "CQL_QUERY_FLAG_SERIAL_CONSISTENCY = 0x10"

lemmas query_flag_defs = CQL_QUERY_FLAG_VALUES_def CQL_QUERY_FLAG_PAGE_SIZE_def
  CQL_QUERY_FLAG_PAGING_STATE_def CQL_QUERY_FLAG_SERIAL_CONSISTENCY_def

record body_query =
  q_query :: bytes
  q_consistency :: int16
  q_page_size :: size_t
  q_page_size_set :: bool
  q_paging_state :: bytes
  q_serial_consistent :: bool
  q_serial_consistency :: int16
  q_values :: "(char_ptr \<times> nat) list"

definition body_query_new :: body_query where
  "body_query_new =
     \<lparr>q_query = [], q_consistency = CQL_CONSISTENCY_ANY, q_page_size = 0, q_page_size_set = False,
      q_paging_state = [], q_serial_consistent = False,
      q_serial_consistency = CQL_CONSISTENCY_SERIAL, q_values = []\<rparr>"

subsection \<open>Setters\<close>

definition query_string_cstr :: "char_ptr \<Rightarrow> body_query \<Rightarrow> body_query result" where
  "query_string_cstr input q = bind_result (c_string input) (\<lambda>s. Inr (q\<lparr>q_query := s\<rparr>))"

definition query_string_ptr :: "char_ptr \<Rightarrow> nat \<Rightarrow> body_query \<Rightarrow> body_query result" where
  "query_string_ptr input sz q = bind_result (load_bytes input sz) (\<lambda>s. Inr (q\<lparr>q_query := s\<rparr>))"

definition query_string :: "bytes \<Rightarrow> body_query \<Rightarrow> body_query" where
  "query_string input q = q\<lparr>q_query := input\<rparr>"

definition page_size :: "size_t \<Rightarrow> body_query \<Rightarrow> body_query" where
  "page_size sz q = q\<lparr>q_page_size_set := True, q_page_size := sz\<rparr>"

definition paging_state :: "char_ptr \<Rightarrow> nat \<Rightarrow> body_query \<Rightarrow> body_query result" where
  "paging_state state sz q =
     bind_result (load_bytes state sz) (\<lambda>s. Inr (q\<lparr>q_paging_state := s\<rparr>))"

definition add_value :: "char_ptr \<Rightarrow> nat \<Rightarrow> body_query \<Rightarrow> body_query" where
  "add_value val sz q = q\<lparr>q_values := q_values q @ [(val, sz)]\<rparr>"

definition consistency :: "int16 \<Rightarrow> body_query \<Rightarrow> body_query" where
  "consistency c q = q\<lparr>q_consistency := c\<rparr>"

definition serial_consistency :: "int16 \<Rightarrow> body_query \<Rightarrow> body_query" where
  "serial_consistency c q = q\<lparr>q_serial_consistent := True, q_serial_consistency := c\<rparr>"

definition body_query_consume :: "char_ptr \<Rightarrow> nat \<Rightarrow> body_query \<Rightarrow> (body_query \<times> bool) result" where
  "body_query_consume buffer sz q = Inr (q, True)"

subsection \<open>prepare\<close>

fun encode_values :: "block \<Rightarrow> nat \<Rightarrow> (char_ptr \<times> nat) list \<Rightarrow> (block \<times> nat) result" where
  "encode_values out buffer [] = Inr (out, buffer)"
| "encode_values out buffer ((p, n) # vs) =
     bind_result (encode_long_string out buffer p n) (\<lambda>(out, buffer). encode_values out buffer vs)"

definition body_query_prepare :: "allocator \<Rightarrow> nat \<Rightarrow> nat \<Rightarrow> body_query \<Rightarrow> prepared result" where
  "body_query_prepare alloc reserved sz q =
     (let flags = 0x00;
          sz = reserved + 4 + length (q_query q);
          sz = sz + 2;
          sz = sz + 1;
          (flags, sz) = (if q_serial_consistent q
             then (flags OR CQL_QUERY_FLAG_SERIAL_CONSISTENCY, sz + 2) else (flags, sz));
          (flags, sz) = (if q_paging_state q \<noteq> []
             then (flags OR CQL_QUERY_FLAG_PAGING_STATE, sz + (2 + length (q_paging_state q)))
             else (flags, sz));
          (flags, sz) = (if q_values q \<noteq> []
             then (flags OR CQL_QUERY_FLAG_VALUES,
                   fold (\<lambda>(p, n) sz. sz + (4 + n)) (q_values q) (sz + 2))
             else (flags, sz));
          (flags, sz) = (if q_page_size_set q
             then (flags OR CQL_QUERY_FLAG_PAGE_SIZE, sz + 4) else (flags, sz));
          (flags, sz) = (if q_serial_consistent q
             then (flags OR CQL_QUERY_FLAG_SERIAL_CONSISTENCY, sz + 2) else (flags, sz));
          out = new_char alloc sz
      in bind_result (encode_long_string out reserved (c_str (q_query q)) (length (q_query q)))
           (\<lambda>(out, buffer).
         bind_result (encode_short out buffer (q_consistency q)) (\<lambda>(out, buffer).
         bind_result (encode_byte out buffer flags) (\<lambda>(out, buffer).
         bind_result
           (if q_values q \<noteq> []
            then bind_result (encode_short out buffer (of_nat (length (q_values q))))
                   (\<lambda>(out, buffer). encode_values out buffer (q_values q))
            else Inr (out, buffer)) (\<lambda>(out, buffer).
         bind_result
           (if q_page_size_set q then encode_int out buffer (ucast (q_page_size q))
            else Inr (out, buffer)) (\<lambda>(out, buffer).
         bind_result
           (if q_paging_state q \<noteq> []
            then encode_string out buffer (Ptr (map Some (q_paging_state q)) 0)
                   (length (q_paging_state q))
            else Inr (out, buffer)) (\<lambda>(out, buffer).
         bind_result
           (if q_serial_consistent q then encode_short out buffer (q_serial_consistency q)
            else Inr (out, buffer)) (\<lambda>(out, buffer).
         Inr (Some out, sz, True)))))))))"

subsection \<open>The reference format\<close>

definition value_bytes :: "char_ptr \<times> nat \<Rightarrow> bytes" where
  "value_bytes v = (case load_bytes (fst v) (snd v) of Inl _ \<Rightarrow> [] | Inr s \<Rightarrow> s)"

definition value_ok :: "char_ptr \<times> nat \<Rightarrow> bool" where
  "value_ok v \<longleftrightarrow> (case load_bytes (fst v) (snd v) of Inl _ \<Rightarrow> False | Inr _ \<Rightarrow> True)"

definition query_flags :: "body_query \<Rightarrow> byte" where
  "query_flags q =
     (if q_values q \<noteq> [] then 0x01 else 0) OR (if q_page_size_set q then 0x04 else 0) OR
     (if q_paging_state q \<noteq> [] then 0x08 else 0) OR (if q_serial_consistent q then 0x10 else 0)"

definition wire_query :: "body_query \<Rightarrow> bytes" where
  "wire_query q =
     wire_long_string (q_query q) @ be16 (q_consistency q) @ [query_flags q] @
     (if q_values q \<noteq> []
      then be16 (of_nat (length (q_values q))) @
           concat (map (\<lambda>v. wire_long_string (value_bytes v)) (q_values q))
      else []) @
     (if q_page_size_set q then be32 (ucast (q_page_size q)) else []) @
     (if q_paging_state q \<noteq> [] then wire_string (q_paging_state q) else []) @
     (if q_serial_consistent q then be16 (q_serial_consistency q) else [])"

lemma value_okD:
  assumes "value_ok (p, n)"
  shows "points_to p (value_bytes (p, n))" and "length (value_bytes (p, n)) = n"
proof -
  from assms obtain s where s: "load_bytes p n = Inr s"
    by (auto simp: value_ok_def split: sum.splits)
  then have "value_bytes (p, n) = s" by (simp add: value_bytes_def)
  with s show "points_to p (value_bytes (p, n))" and "length (value_bytes (p, n)) = n"
    by (simp_all add: load_bytes_iff)
qed

lemma encode_value_put:
  "value_ok (p, n) \<Longrightarrow> encode_long_string b q p n = put b q (wire_long_string (value_bytes (p, n)))"
  using encode_long_string_put [of p "value_bytes (p, n)" b q] value_okD [of p n] by simp

lemma encode_values_put:
  "list_all value_ok vs \<Longrightarrow> p \<le> length b \<Longrightarrow>
     encode_values b p vs = put b p (concat (map (\<lambda>v. wire_long_string (value_bytes v)) vs))"
proof (induction vs arbitrary: b p)
  case Nil
  then show ?case by (simp add: put_Nil)
next
  case (Cons v vs)
  obtain a n where v: "v = (a, n)" by (cases v)
  have "bind_result (put b p (wire_long_string (value_bytes v))) (\<lambda>(b, q). encode_values b q vs)
      = put b p (wire_long_string (value_bytes v) @
          concat (map (\<lambda>v. wire_long_string (value_bytes v)) vs))"
    using Cons by (intro put_then_eq) auto
  with Cons.prems show ?case by (simp add: v encode_value_put)
qed

lemma fold_value_sizes:
  "list_all value_ok vs \<Longrightarrow> fold (\<lambda>(p, n) sz. sz + (4 + n)) vs m =
     m + length (concat (map (\<lambda>v. wire_long_string (value_bytes v)) vs))"
  by (induction vs arbitrary: m) (auto simp: value_okD)

text \<open>The values section as one write.\<close>

lemma encode_values_section_put:
  "list_all value_ok vs \<Longrightarrow>
     bind_result (put b p (be16 (of_nat (length vs)))) (\<lambda>(out, buffer). encode_values out buffer vs)
     = put b p (be16 (of_nat (length vs)) @ concat (map (\<lambda>v. wire_long_string (value_bytes v)) vs))"
  by (rule put_then_eq) (rule encode_values_put)

text \<open>
  \<open>prepare\<close> writes the reference format. It counts the serial consistency twice, so with a
  serial consistency two allocated bytes behind the payload stay unwritten.
\<close>

lemma body_query_prepare_eq:
  assumes vals: "list_all value_ok (q_values q)" and alloc: "\<And>n. n \<le> alloc n"
    and n: "n = r + length (wire_query q) + (if q_serial_consistent q then 2 else 0)"
  shows "body_query_prepare alloc r sz q =
     Inr (Some (framed alloc n r (wire_query q)), n, True)"
proof -
  note sec = encode_values_section_put [OF vals] fold_value_sizes [OF vals]
  have pg: "encode_string b p (Ptr (map Some xs) 0) (length xs) = put b p (wire_string xs)" for b p xs
    by (rule encode_string_put) simp
  have "body_query_prepare alloc r sz q =
      bind_result (put (new_char alloc n) r (wire_query q)) (\<lambda>(out, _). Inr (Some out, n, True))"
    unfolding body_query_prepare_def wire_query_def n query_flags_def
    by (cases "q_values q = []"; cases "q_page_size_set q"; cases "q_paging_state q = []";
        cases "q_serial_consistent q")
      (simp_all add: Let_def sec pg wire encode_long_string_put [OF points_to_c_str]
        query_flag_defs, simp_all add: add_ac)
  moreover have "r + length (wire_query q) \<le> alloc n"
    using alloc [of n] by (simp add: n)
  ultimately show ?thesis by (simp add: wire)
qed

text \<open>A value whose memory cannot be read makes \<open>prepare\<close> fail.\<close>

lemma encode_values_unreadable:
  "\<not> list_all value_ok vs \<Longrightarrow> \<exists>e. encode_values b p vs = Inl e"
proof (induction vs arbitrary: b p)
  case Nil
  then show ?case by simp
next
  case (Cons v vs)
  obtain a n where v: "v = (a, n)" by (cases v)
  show ?case
  proof (cases "value_ok v")
    case True
    then have "\<not> list_all value_ok vs" using Cons.prems by simp
    with Cons.IH show ?thesis
      by (cases "encode_long_string b p a n") (auto simp: v)
  next
    case False
    then obtain e where "load_bytes a n = Inl e"
      by (auto simp: v value_ok_def split: sum.splits)
    then have "\<exists>e. encode_long_string b p a n = Inl e"
      by (cases "encode_int b p (of_nat n)") (auto simp: encode_long_string_def)
    then show ?thesis by (auto simp: v)
  qed
qed

definition fails :: "'a result \<Rightarrow> bool" where
  "fails r \<longleftrightarrow> (\<exists>e. r = Inl e)"

lemma fails_bind: "fails m \<Longrightarrow> fails (bind_result m f)" "(\<And>x. fails (f x)) \<Longrightarrow> fails (bind_result m f)"
  by (cases m; auto simp: fails_def)+

lemma body_query_prepare_unreadable:
  assumes "\<not> list_all value_ok (q_values q)"
  shows "fails (body_query_prepare alloc r sz q)"
proof -
  have ne: "q_values q \<noteq> []" using assms by auto
  have vals: "fails (encode_values b p (q_values q))" for b p
    using encode_values_unreadable [OF assms] by (simp add: fails_def)
  show ?thesis
    unfolding body_query_prepare_def Let_def case_prod_unfold
    by (rule fails_bind(2), rule fails_bind(2), rule fails_bind(2), rule fails_bind(1))
      (simp add: ne vals fails_bind)
qed

definition query_ok :: "body_query \<Rightarrow> bool" where
  "query_ok q \<longleftrightarrow> list_all value_ok (q_values q) \<and> \<not> q_serial_consistent q"

interpretation query_payload: payload_body body_query_prepare wire_query query_ok
  by standard (auto simp: query_ok_def body_query_prepare_eq)

subsection \<open>Properties\<close>

text \<open>
  C19: \<open>BodyQuery::prepare\<close> writes the query, consistency, flags and the optional sections in the
  order of the protocol, whatever was set, and never outside its buffer. The size it reports is
  the reserved bytes plus the payload, except that a serial consistency is counted twice: then
  two bytes behind the payload are reported and sent although nothing was written there.
\<close>

theorem query_prepare_exact:
  assumes "list_all value_ok (q_values q)" and "\<And>n. n \<le> alloc n"
  shows "\<exists>out n. body_query_prepare alloc r sz q = Inr (Some out, n, True) \<and>
     n = r + length (wire_query q) + (if q_serial_consistent q then 2 else 0) \<and>
     points_to (Ptr out r) (wire_query q) \<and>
     (q_serial_consistent q \<longrightarrow> take 2 (drop (r + length (wire_query q)) out) = [None, None])"
proof -
  let ?n = "r + length (wire_query q) + (if q_serial_consistent q then 2 else 0)"
  let ?out = "framed alloc ?n r (wire_query q)"
  have "body_query_prepare alloc r sz q = Inr (Some ?out, ?n, True)"
    using body_query_prepare_eq [OF assms(1), of alloc ?n r sz] assms(2) by simp
  moreover have "points_to (Ptr ?out r) (wire_query q)"
    by (simp add: framed_def)
  moreover have "q_serial_consistent q \<Longrightarrow> take 2 (drop (r + length (wire_query q)) ?out) = [None, None]"
    using assms(2) [of ?n]
    by (simp add: framed_def min_def numeral_2_eq_2)
  ultimately show ?thesis by blast
qed

theorem query_prepare_exact_witness:
  "\<exists>out n. body_query_prepare (\<lambda>n. n) 8 0 (serial_consistency 8 (query_string (str ''x'') body_query_new)) =
       Inr (Some out, n, True) \<and> n = 20 \<and>
     points_to (Ptr out 8) [0, 0, 0, 1, 120, 0, 0, 0x10, 0, 8] \<and> take 2 (drop 18 out) = [None, None]"
  using query_prepare_exact [of "serial_consistency 8 (query_string (str ''x'') body_query_new)" "\<lambda>n. n" 8 0]
  by (simp add: serial_consistency_def query_string_def body_query_new_def wire_query_def
      wire_long_string_def be32_def be16_def byte_of_def str_def query_flags_def
      CQL_CONSISTENCY_ANY_def CQL_CONSISTENCY_SERIAL_def)

end
