(* ===== verification/Body_Result.thy ===== *)
theory Body_Result
  imports Body_Simple
begin

text \<open>
  \<^verbatim>\<open>include/cql_body_result.hpp\<close>: the RESULT body with its column metadata, and the iterator
  over its rows. Text fields are pointers into the received body with a size, as in the source.
  \<open>column_index\<close> is an \<open>unordered_map\<close> of which only insertion and lookup are used; it is kept
  as a sorted association list.
\<close>

definition CQL_RESULT_KIND_VOID :: int32 where "CQL_RESULT_KIND_VOID = 1"
definition CQL_RESULT_KIND_ROWS :: int32 where "CQL_RESULT_KIND_ROWS = 2"
definition CQL_RESULT_KIND_SET_KEYSPACE :: int32 where "CQL_RESULT_KIND_SET_KEYSPACE = 3"
definition CQL_RESULT_KIND_PREPARED :: int32 where "CQL_RESULT_KIND_PREPARED = 4"
definition CQL_RESULT_KIND_SCHEMA_CHANGE :: int32 where "CQL_RESULT_KIND_SCHEMA_CHANGE = 5"

lemmas result_kind_defs = CQL_RESULT_KIND_VOID_def CQL_RESULT_KIND_ROWS_def
  CQL_RESULT_KIND_SET_KEYSPACE_def CQL_RESULT_KIND_PREPARED_def CQL_RESULT_KIND_SCHEMA_CHANGE_def

definition CQL_RESULT_FLAG_GLOBAL_TABLESPEC :: int32 where "CQL_RESULT_FLAG_GLOBAL_TABLESPEC = 1"
definition CQL_RESULT_FLAG_HAS_MORE_PAGES :: int32 where "CQL_RESULT_FLAG_HAS_MORE_PAGES = 2"
definition CQL_RESULT_FLAG_NO_METADATA :: int32 where "CQL_RESULT_FLAG_NO_METADATA = 4"

subsection \<open>State\<close>

record column_meta_data =
  cm_type :: int16
  cm_keyspace :: char_ptr
  cm_keyspace_size :: size_t
  cm_table :: char_ptr
  cm_table_size :: size_t
  cm_name :: char_ptr
  cm_name_size :: size_t
  cm_class_name :: char_ptr
  cm_class_name_size :: size_t
  cm_collection_primary_type :: int16
  cm_collection_primary_class :: char_ptr
  cm_collection_primary_class_size :: size_t
  cm_collection_secondary_type :: int16
  cm_collection_secondary_class :: char_ptr
  cm_collection_secondary_class_size :: size_t

definition column_meta_data_new :: column_meta_data where
  "column_meta_data_new =
     \<lparr>cm_type = CQL_COLUMN_TYPE_UNKNOWN,
      cm_keyspace = Null, cm_keyspace_size = 0, cm_table = Null, cm_table_size = 0,
      cm_name = Null, cm_name_size = 0, cm_class_name = Null, cm_class_name_size = 0,
      cm_collection_primary_type = CQL_COLUMN_TYPE_UNKNOWN,
      cm_collection_primary_class = Null, cm_collection_primary_class_size = 0,
      cm_collection_secondary_type = CQL_COLUMN_TYPE_UNKNOWN,
      cm_collection_secondary_class = Null, cm_collection_secondary_class_size = 0\<rparr>"

record body_result =
  r_kind :: int32
  r_more_pages :: bool
  r_no_metadata :: bool
  r_global_table_spec :: bool
  r_column_count :: int32
  r_column_metadata :: "column_meta_data list"
  r_column_index :: "(bytes, nat) std_map"
  r_page_state :: char_ptr
  r_page_state_size :: size_t
  r_prepared :: char_ptr
  r_prepared_size :: size_t
  r_change :: char_ptr
  r_change_size :: size_t
  r_keyspace :: char_ptr
  r_keyspace_size :: size_t
  r_table :: char_ptr
  r_table_size :: size_t
  r_row_count :: int32
  r_rows :: char_ptr

definition body_result_new :: body_result where
  "body_result_new =
     \<lparr>r_kind = 0, r_more_pages = False, r_no_metadata = False, r_global_table_spec = True,
      r_column_count = 0, r_column_metadata = [], r_column_index = [],
      r_page_state = Null, r_page_state_size = 0, r_prepared = Null, r_prepared_size = 0,
      r_change = Null, r_change_size = 0, r_keyspace = Null, r_keyspace_size = 0,
      r_table = Null, r_table_size = 0, r_row_count = 0, r_rows = Null\<rparr>"

subsection \<open>parse_metadata\<close>

definition is_collection :: "int16 \<Rightarrow> bool" where
  "is_collection t \<longleftrightarrow>
     t = CQL_COLUMN_TYPE_SET \<or> t = CQL_COLUMN_TYPE_LIST \<or> t = CQL_COLUMN_TYPE_MAP"

text \<open>One turn of the loop over the columns, with its three conditional parts named.\<close>

definition parse_column_table ::
  "bool \<Rightarrow> column_meta_data \<times> char_ptr \<Rightarrow> (column_meta_data \<times> char_ptr) result" where
  "parse_column_table global_table_spec = (\<lambda>(meta, buffer).
     if \<not> global_table_spec
     then bind_result (decode_string buffer (cm_keyspace_size meta)) (\<lambda>(p, n, buffer).
          let meta = meta\<lparr>cm_keyspace := p, cm_keyspace_size := n\<rparr> in
          bind_result (decode_string buffer (cm_table_size meta)) (\<lambda>(p, n, buffer).
          Inr (meta\<lparr>cm_table := p, cm_table_size := n\<rparr>, buffer)))
     else Inr (meta, buffer))"

definition parse_column_primary ::
  "column_meta_data \<times> char_ptr \<Rightarrow> (column_meta_data \<times> char_ptr) result" where
  "parse_column_primary = (\<lambda>(meta, buffer).
     if is_collection (cm_type meta)
     then bind_result (decode_option buffer (cm_collection_primary_class meta)
            (cm_collection_primary_class_size meta)) (\<lambda>(t, p, n, buffer).
          Inr (meta\<lparr>cm_collection_primary_type := t, cm_collection_primary_class := p,
                    cm_collection_primary_class_size := n\<rparr>, buffer))
     else Inr (meta, buffer))"

definition parse_column_secondary ::
  "column_meta_data \<times> char_ptr \<Rightarrow> (column_meta_data \<times> char_ptr) result" where
  "parse_column_secondary = (\<lambda>(meta, buffer).
     if cm_type meta = CQL_COLUMN_TYPE_MAP
     then bind_result (decode_option buffer (cm_collection_secondary_class meta)
            (cm_collection_secondary_class_size meta)) (\<lambda>(t, p, n, buffer).
          Inr (meta\<lparr>cm_collection_secondary_type := t, cm_collection_secondary_class := p,
                    cm_collection_secondary_class_size := n\<rparr>, buffer))
     else Inr (meta, buffer))"

definition parse_column :: "nat \<Rightarrow> body_result \<times> char_ptr \<Rightarrow> (body_result \<times> char_ptr) result" where
  "parse_column i = (\<lambda>(r, buffer).
     let meta = column_meta_data_new in
     bind_result (parse_column_table (r_global_table_spec r) (meta, buffer)) (\<lambda>(meta, buffer).
     bind_result (decode_string buffer (cm_name_size meta)) (\<lambda>(p, n, buffer).
     let meta = meta\<lparr>cm_name := p, cm_name_size := n\<rparr> in
     bind_result (decode_option buffer (cm_class_name meta) (cm_class_name_size meta))
       (\<lambda>(t, p, n, buffer).
     let meta = meta\<lparr>cm_type := t, cm_class_name := p, cm_class_name_size := n\<rparr> in
     bind_result (parse_column_primary (meta, buffer)) (\<lambda>(meta, buffer).
     bind_result (parse_column_secondary (meta, buffer)) (\<lambda>(meta, buffer).
     bind_result (load_bytes (cm_name meta) (unat (cm_name_size meta))) (\<lambda>name.
     Inr (r\<lparr>r_column_metadata := r_column_metadata r @ [meta],
            r_column_index := map_insert name i (r_column_index r)\<rparr>, buffer))))))))"

text \<open>\<open>resize\<close> of the metadata vector; a negative count converts to a huge size and throws.\<close>

definition resize_metadata :: "int32 \<Rightarrow> body_result \<Rightarrow> body_result result" where
  "resize_metadata count r =
     (if sint count < 0 then Inl BadAlloc
      else let n = nat (sint count); old = r_column_metadata r in
        Inr (r\<lparr>r_column_metadata :=
               take n old @ replicate (n - length old) column_meta_data_new\<rparr>))"

definition parse_page_state ::
  "int32 \<Rightarrow> body_result \<times> char_ptr \<Rightarrow> (body_result \<times> char_ptr) result" where
  "parse_page_state flags = (\<lambda>(r, buffer).
     if flags AND CQL_RESULT_FLAG_HAS_MORE_PAGES \<noteq> 0
     then let r = r\<lparr>r_more_pages := True\<rparr> in
          bind_result (decode_long_string buffer (r_page_state_size r)) (\<lambda>(p, n, buffer).
          Inr (r\<lparr>r_page_state := p, r_page_state_size := n\<rparr>, buffer))
     else Inr (r\<lparr>r_more_pages := False\<rparr>, buffer))"

definition parse_table_spec ::
  "int32 \<Rightarrow> body_result \<times> char_ptr \<Rightarrow> (body_result \<times> char_ptr) result" where
  "parse_table_spec flags = (\<lambda>(r, buffer).
     if flags AND CQL_RESULT_FLAG_GLOBAL_TABLESPEC \<noteq> 0
     then let r = r\<lparr>r_global_table_spec := True\<rparr> in
          bind_result (decode_string buffer (r_keyspace_size r)) (\<lambda>(p, n, buffer).
          let r = r\<lparr>r_keyspace := p, r_keyspace_size := n\<rparr> in
          bind_result (decode_string buffer (r_table_size r)) (\<lambda>(p, n, buffer).
          Inr (r\<lparr>r_table := p, r_table_size := n\<rparr>, buffer)))
     else Inr (r\<lparr>r_global_table_spec := False\<rparr>, buffer))"

definition parse_columns ::
  "int32 \<Rightarrow> body_result \<times> char_ptr \<Rightarrow> (body_result \<times> char_ptr) result" where
  "parse_columns flags = (\<lambda>(r, buffer).
     if flags AND CQL_RESULT_FLAG_NO_METADATA \<noteq> 0
     then Inr (r\<lparr>r_no_metadata := True\<rparr>, buffer)
     else bind_result (resize_metadata (r_column_count r) (r\<lparr>r_no_metadata := False\<rparr>)) (\<lambda>r.
          for_loop 0 (nat (sint (r_column_count r))) parse_column (r, buffer)))"

definition parse_metadata :: "char_ptr \<Rightarrow> body_result \<Rightarrow> (body_result \<times> char_ptr) result" where
  "parse_metadata input r =
     bind_result (decode_int input) (\<lambda>(flags, buffer).
     bind_result (decode_int buffer) (\<lambda>(column_count, buffer).
     let r = r\<lparr>r_column_count := column_count\<rparr> in
     bind_result (parse_page_state flags (r, buffer)) (\<lambda>(r, buffer).
     bind_result (parse_table_spec flags (r, buffer)) (\<lambda>(r, buffer).
     parse_columns flags (r, buffer)))))"

subsection \<open>The result kinds\<close>

definition parse_rows :: "char_ptr \<Rightarrow> body_result \<Rightarrow> (body_result \<times> bool) result" where
  "parse_rows input r =
     bind_result (parse_metadata input r) (\<lambda>(r, buffer).
     bind_result (decode_int buffer) (\<lambda>(row_count, rows).
     Inr (r\<lparr>r_row_count := row_count, r_rows := rows\<rparr>, True)))"

definition parse_set_keyspace :: "char_ptr \<Rightarrow> body_result \<Rightarrow> (body_result \<times> bool) result" where
  "parse_set_keyspace input r =
     bind_result (decode_string input (r_keyspace_size r)) (\<lambda>(p, n, _).
     Inr (r\<lparr>r_keyspace := p, r_keyspace_size := n\<rparr>, True))"

definition parse_prepared :: "char_ptr \<Rightarrow> body_result \<Rightarrow> (body_result \<times> bool) result" where
  "parse_prepared input r =
     bind_result (decode_string input (r_prepared_size r)) (\<lambda>(p, n, buffer).
     bind_result (parse_metadata buffer (r\<lparr>r_prepared := p, r_prepared_size := n\<rparr>)) (\<lambda>(r, _).
     Inr (r, True)))"

definition parse_schema_change :: "char_ptr \<Rightarrow> body_result \<Rightarrow> (body_result \<times> bool) result" where
  "parse_schema_change input r =
     bind_result (decode_string input (r_change_size r)) (\<lambda>(p, n, buffer).
     let r = r\<lparr>r_change := p, r_change_size := n\<rparr> in
     bind_result (decode_string buffer (r_keyspace_size r)) (\<lambda>(p, n, buffer).
     let r = r\<lparr>r_keyspace := p, r_keyspace_size := n\<rparr> in
     bind_result (decode_string buffer (r_table_size r)) (\<lambda>(p, n, buffer).
     Inr (r\<lparr>r_table := p, r_table_size := n\<rparr>, True))))"

definition body_result_consume :: "char_ptr \<Rightarrow> nat \<Rightarrow> body_result \<Rightarrow> (body_result \<times> bool) result" where
  "body_result_consume input sz r =
     bind_result (decode_int input) (\<lambda>(kind, buffer).
     let r = r\<lparr>r_kind := kind\<rparr> in
     if kind = CQL_RESULT_KIND_VOID then Inr (r, True)
     else if kind = CQL_RESULT_KIND_ROWS then parse_rows buffer r
     else if kind = CQL_RESULT_KIND_SET_KEYSPACE then parse_set_keyspace buffer r
     else if kind = CQL_RESULT_KIND_PREPARED then parse_prepared buffer r
     else if kind = CQL_RESULT_KIND_SCHEMA_CHANGE then parse_schema_change buffer r
     else Inl AssertionFailed)"

definition body_result_prepare :: "allocator \<Rightarrow> nat \<Rightarrow> nat \<Rightarrow> body_result \<Rightarrow> prepared result" where
  "body_result_prepare alloc reserved sz r = Inr (None, sz, False)"

subsection \<open>ResultIterator\<close>

record result_iterator =
  it_result :: body_result
  it_row_position :: int32
  it_position :: char_ptr
  it_position_next :: char_ptr
  it_row :: "(char_ptr \<times> size_t) list"

text \<open>\<open>buffer += size\<close> with a signed size; a pointer in front of its block is out of bounds.\<close>

fun ptr_add_int :: "char_ptr \<Rightarrow> int \<Rightarrow> char_ptr result" where
  "ptr_add_int Null k = (if k = 0 then Inr Null else Inl NullDeref)"
| "ptr_add_int (Ptr b p) k = (if int p + k < 0 then Inl OutOfBounds else Inr (Ptr b (nat (int p + k))))"

text \<open>The \<open>int32_t\<close> size becomes a \<open>size_t\<close> in the stored pair: it is sign-extended.\<close>

definition parse_cell ::
  "nat \<Rightarrow> (char_ptr \<times> size_t) list \<times> char_ptr \<Rightarrow> ((char_ptr \<times> size_t) list \<times> char_ptr) result" where
  "parse_cell i = (\<lambda>(out, buffer).
     bind_result (decode_int buffer) (\<lambda>(sz, buffer).
     bind_result (ptr_add_int buffer (sint sz)) (\<lambda>next.
     Inr (out @ [(buffer, scast sz)], next))))"

definition parse_row ::
  "body_result \<Rightarrow> char_ptr \<Rightarrow> ((char_ptr \<times> size_t) list \<times> char_ptr) result" where
  "parse_row r row = for_loop 0 (nat (sint (r_column_count r))) parse_cell ([], row)"

definition result_iterator_new :: "body_result \<Rightarrow> result_iterator result" where
  "result_iterator_new r =
     (if sint (r_column_count r) < 0 then Inl BadAlloc
      else bind_result (parse_row r (r_rows r)) (\<lambda>(row, next).
        Inr \<lparr>it_result = r, it_row_position = 0, it_position = r_rows r,
             it_position_next = next, it_row = row\<rparr>))"

definition result_iterator_next :: "result_iterator \<Rightarrow> (result_iterator \<times> bool) result" where
  "result_iterator_next it =
     (let it = it\<lparr>it_row_position := it_row_position it + 1\<rparr> in
      if sint (it_row_position it) \<ge> sint (r_row_count (it_result it)) then Inr (it, False)
      else bind_result (parse_row (it_result it) (it_position_next it)) (\<lambda>(row, next).
        Inr (it\<lparr>it_position_next := next, it_row := row\<rparr>, True)))"

subsection \<open>The reference format of column metadata\<close>

record column_spec =
  cs_keyspace :: bytes
  cs_table :: bytes
  cs_name :: bytes
  cs_type :: int16
  cs_class :: bytes
  cs_primary :: int16
  cs_primary_class :: bytes
  cs_secondary :: int16
  cs_secondary_class :: bytes

definition wire_option :: "int16 \<Rightarrow> bytes \<Rightarrow> bytes" where
  "wire_option t c = be16 t @ (if t = CQL_COLUMN_TYPE_CUSTOM then wire_string c else [])"

definition wire_table_spec :: "bool \<Rightarrow> column_spec \<Rightarrow> bytes" where
  "wire_table_spec g c = (if g then [] else wire_string (cs_keyspace c) @ wire_string (cs_table c))"

definition wire_primary :: "column_spec \<Rightarrow> bytes" where
  "wire_primary c = (if is_collection (cs_type c) then wire_option (cs_primary c) (cs_primary_class
      c) else [])"

definition wire_secondary :: "column_spec \<Rightarrow> bytes" where
  "wire_secondary c = (if cs_type c = CQL_COLUMN_TYPE_MAP
     then wire_option (cs_secondary c) (cs_secondary_class c) else [])"

definition wire_column :: "bool \<Rightarrow> column_spec \<Rightarrow> bytes" where
  "wire_column g c =
     wire_table_spec g c @ wire_string (cs_name c) @ wire_option (cs_type c) (cs_class c) @
     wire_primary c @ wire_secondary c"

definition column_ok :: "column_spec \<Rightarrow> bool" where
  "column_ok c \<longleftrightarrow> short_string (cs_keyspace c) \<and> short_string (cs_table c) \<and>
     short_string (cs_name c) \<and> short_string (cs_class c) \<and> short_string (cs_primary_class c) \<and>
     short_string (cs_secondary_class c)"

text \<open>The metadata entry that points into the encoding of \<open>c\<close> at \<open>P\<close>.\<close>

definition option_at :: "char_ptr \<Rightarrow> int16 \<Rightarrow> bytes \<Rightarrow> char_ptr \<times> size_t" where
  "option_at P t c = (if t = CQL_COLUMN_TYPE_CUSTOM then (ptr_add P 4, of_nat (length c)) else (Null, 0))"

definition name_ptr :: "bool \<Rightarrow> char_ptr \<Rightarrow> column_spec \<Rightarrow> char_ptr" where
  "name_ptr g P c = ptr_add P (length (wire_table_spec g c))"

definition type_ptr :: "bool \<Rightarrow> char_ptr \<Rightarrow> column_spec \<Rightarrow> char_ptr" where
  "type_ptr g P c = ptr_add (name_ptr g P c) (2 + length (cs_name c))"

definition primary_ptr :: "bool \<Rightarrow> char_ptr \<Rightarrow> column_spec \<Rightarrow> char_ptr" where
  "primary_ptr g P c = ptr_add (type_ptr g P c) (length (wire_option (cs_type c) (cs_class c)))"

definition secondary_ptr :: "bool \<Rightarrow> char_ptr \<Rightarrow> column_spec \<Rightarrow> char_ptr" where
  "secondary_ptr g P c = ptr_add (primary_ptr g P c) (length (wire_primary c))"

definition table_at :: "bool \<Rightarrow> char_ptr \<Rightarrow> column_spec \<Rightarrow> column_meta_data \<Rightarrow> column_meta_data" where
  "table_at g P c m =
     (if g then m
      else m\<lparr>cm_keyspace := ptr_add P 2, cm_keyspace_size := of_nat (length (cs_keyspace c)),
             cm_table := ptr_add P (2 + length (cs_keyspace c) + 2),
             cm_table_size := of_nat (length (cs_table c))\<rparr>)"

definition primary_at :: "char_ptr \<Rightarrow> column_spec \<Rightarrow> column_meta_data \<Rightarrow> column_meta_data" where
  "primary_at P c m =
     (if is_collection (cs_type c)
      then m\<lparr>cm_collection_primary_type := cs_primary c,
             cm_collection_primary_class := fst (option_at P (cs_primary c) (cs_primary_class c)),
             cm_collection_primary_class_size := snd (option_at P (cs_primary c) (cs_primary_class c))\<rparr>
      else m)"

definition secondary_at :: "char_ptr \<Rightarrow> column_spec \<Rightarrow> column_meta_data \<Rightarrow> column_meta_data" where
  "secondary_at P c m =
     (if cs_type c = CQL_COLUMN_TYPE_MAP
      then m\<lparr>cm_collection_secondary_type := cs_secondary c,
             cm_collection_secondary_class := fst (option_at P (cs_secondary c) (cs_secondary_class c)),
             cm_collection_secondary_class_size :=
               snd (option_at P (cs_secondary c) (cs_secondary_class c))\<rparr>
      else m)"

definition meta_at :: "bool \<Rightarrow> char_ptr \<Rightarrow> column_spec \<Rightarrow> column_meta_data" where
  "meta_at g P c = secondary_at (secondary_ptr g P c) c (primary_at (primary_ptr g P c) c
     ((table_at g P c column_meta_data_new)
        \<lparr>cm_name := ptr_add (name_ptr g P c) 2, cm_name_size := of_nat (length (cs_name c)),
         cm_type := cs_type c,
         cm_class_name := fst (option_at (type_ptr g P c) (cs_type c) (cs_class c)),
         cm_class_name_size := snd (option_at (type_ptr g P c) (cs_type c) (cs_class c))\<rparr>))"

lemma decode_option_then:
  assumes "points_to P (wire_option t c)" and "short_string c"
  shows "bind_result (decode_option P Null 0) f =
     f (t, fst (option_at P t c), snd (option_at P t c), ptr_add P (length (wire_option t c)))"
proof -
  have "decode_short P = Inr (t, ptr_add P 2)"
    using assms by (intro decode_short_wire) (simp add: wire_option_def)
  moreover have "t = CQL_COLUMN_TYPE_CUSTOM \<Longrightarrow> decode_string (ptr_add P 2) 0
      = Inr (ptr_add P 4, of_nat (length c), ptr_add P (4 + length c))"
    using assms decode_string_wire [of "ptr_add P 2" c 0] by (simp add: wire_option_def add.assoc)
  ultimately show ?thesis
    by (simp add: decode_option_def wire_option_def option_at_def)
qed

definition add_column :: "bool \<Rightarrow> nat \<Rightarrow> column_spec \<Rightarrow> char_ptr \<Rightarrow> body_result \<Rightarrow> body_result" where
  "add_column g i c P r =
     r\<lparr>r_column_metadata := r_column_metadata r @ [meta_at g P c],
       r_column_index := map_insert (cs_name c) i (r_column_index r)\<rparr>"

lemma parse_column_table_reads:
  assumes "points_to P (wire_table_spec g c)" and "column_ok c"
    and "cm_keyspace_size m = 0" and "cm_table_size m = 0"
  shows "parse_column_table g (m, P) = Inr (table_at g P c m, name_ptr g P c)"
proof (cases g)
  case True
  then show ?thesis
    by (simp add: parse_column_table_def table_at_def name_ptr_def wire_table_spec_def)
next
  case False
  with assms have "points_to P (wire_string (cs_keyspace c))" "short_string (cs_keyspace c)"
    "points_to (ptr_add P (2 + length (cs_keyspace c))) (wire_string (cs_table c))"
    "short_string (cs_table c)"
    by (simp_all add: wire_table_spec_def column_ok_def)
  with False assms(3,4) show ?thesis
    by (simp add: parse_column_table_def table_at_def name_ptr_def wire_table_spec_def
        read_string_then [of P "cs_keyspace c"]
        read_string_then [of "ptr_add P (2 + length (cs_keyspace c))" "cs_table c"])
qed

lemma parse_column_primary_reads:
  assumes "points_to P (wire_primary c)" and "column_ok c" and "cm_type m = cs_type c"
    and "cm_collection_primary_class m = Null" and "cm_collection_primary_class_size m = 0"
  shows "parse_column_primary (m, P) = Inr (primary_at P c m, ptr_add P (length (wire_primary c)))"
  using assms
  by (auto simp: parse_column_primary_def primary_at_def wire_primary_def column_ok_def
      decode_option_then [of P "cs_primary c" "cs_primary_class c"])

lemma parse_column_secondary_reads:
  assumes "points_to P (wire_secondary c)" and "column_ok c" and "cm_type m = cs_type c"
    and "cm_collection_secondary_class m = Null" and "cm_collection_secondary_class_size m = 0"
  shows "parse_column_secondary (m, P) = Inr (secondary_at P c m, ptr_add P (length (wire_secondary c)))"
  using assms
  by (auto simp: parse_column_secondary_def secondary_at_def wire_secondary_def column_ok_def
      decode_option_then [of P "cs_secondary c" "cs_secondary_class c"])

lemma at_frame [simp]:
  "cm_name_size (table_at g P c m) = cm_name_size m"
  "cm_class_name (table_at g P c m) = cm_class_name m"
  "cm_class_name_size (table_at g P c m) = cm_class_name_size m"
  "cm_collection_primary_class (table_at g P c m) = cm_collection_primary_class m"
  "cm_collection_primary_class_size (table_at g P c m) = cm_collection_primary_class_size m"
  "cm_collection_secondary_class (table_at g P c m) = cm_collection_secondary_class m"
  "cm_collection_secondary_class_size (table_at g P c m) = cm_collection_secondary_class_size m"
  "cm_name (primary_at P c m) = cm_name m"
  "cm_name_size (primary_at P c m) = cm_name_size m"
  "cm_type (primary_at P c m) = cm_type m"
  "cm_collection_secondary_class (primary_at P c m) = cm_collection_secondary_class m"
  "cm_collection_secondary_class_size (primary_at P c m) = cm_collection_secondary_class_size m"
  "cm_name (secondary_at P c m) = cm_name m"
  "cm_name_size (secondary_at P c m) = cm_name_size m"
  "cm_type (secondary_at P c m) = cm_type m"
  by (simp_all add: table_at_def primary_at_def secondary_at_def)

lemma new_fields [simp]:
  "cm_keyspace_size column_meta_data_new = 0" "cm_table_size column_meta_data_new = 0"
  "cm_name_size column_meta_data_new = 0" "cm_class_name column_meta_data_new = Null"
  "cm_class_name_size column_meta_data_new = 0"
  "cm_collection_primary_class column_meta_data_new = Null"
  "cm_collection_primary_class_size column_meta_data_new = 0"
  "cm_collection_secondary_class column_meta_data_new = Null"
  "cm_collection_secondary_class_size column_meta_data_new = 0"
  by (simp_all add: column_meta_data_new_def)

lemma parse_column_reads:
  assumes ok: "column_ok c" and g: "r_global_table_spec r = g" and P: "points_to P (wire_column g c)"
  shows "parse_column i (r, P) = Inr (add_column g i c P r, ptr_add P (length (wire_column g c)))"
proof -
  have table: "points_to P (wire_table_spec g c)"
    and name: "points_to (name_ptr g P c) (wire_string (cs_name c))"
    and type: "points_to (type_ptr g P c) (wire_option (cs_type c) (cs_class c))"
    and prim: "points_to (primary_ptr g P c) (wire_primary c)"
    and sec: "points_to (secondary_ptr g P c) (wire_secondary c)"
    using P by (simp_all add: wire_column_def name_ptr_def type_ptr_def
        primary_ptr_def secondary_ptr_def add.assoc)
  have short: "short_string (cs_name c)" "short_string (cs_class c)"
    using ok by (simp_all add: column_ok_def)
  have ptrs: "ptr_add (name_ptr g P c) (2 + length (cs_name c)) = type_ptr g P c"
    "ptr_add (type_ptr g P c) (length (wire_option (cs_type c) (cs_class c))) = primary_ptr g P c"
    "ptr_add (primary_ptr g P c) (length (wire_primary c)) = secondary_ptr g P c"
    "ptr_add (secondary_ptr g P c) (length (wire_secondary c)) = ptr_add P (length (wire_column g c))"
    by (simp_all add: type_ptr_def name_ptr_def primary_ptr_def secondary_ptr_def wire_column_def
        add.assoc)
  show ?thesis
    by (simp add: parse_column_def Let_def g parse_column_table_reads [OF table ok]
        read_string_then [OF name short(1)] decode_option_then [OF type short(2)]
        parse_column_primary_reads [OF prim ok] parse_column_secondary_reads [OF sec ok]
        load_wire_string [OF name short(1)] ptrs add_column_def meta_at_def)
qed

interpretation column_loop: entry_reader parse_column "wire_column g" "add_column g" column_ok
  "\<lambda>r. r_global_table_spec r = g" for g
  by standard (auto simp: parse_column_reads add_column_def)

fun metas_at :: "bool \<Rightarrow> char_ptr \<Rightarrow> column_spec list \<Rightarrow> column_meta_data list" where
  "metas_at g P [] = []"
| "metas_at g P (c # cs) = meta_at g P c # metas_at g (ptr_add P (length (wire_column g c))) cs"

fun index_columns :: "nat \<Rightarrow> column_spec list \<Rightarrow> (bytes, nat) std_map \<Rightarrow> (bytes, nat) std_map" where
  "index_columns i [] idx = idx"
| "index_columns i (c # cs) idx = index_columns (Suc i) cs (map_insert (cs_name c) i idx)"

lemma column_loop_upd_all:
  "column_loop.upd_all g i cs P r =
     r\<lparr>r_column_metadata := r_column_metadata r @ metas_at g P cs,
       r_column_index := index_columns i cs (r_column_index r)\<rparr>"
  by (induction cs arbitrary: i P r) (simp_all add: add_column_def)

lemma length_metas_at [simp]: "length (metas_at g P cs) = length cs"
  by (induction cs arbitrary: P) simp_all

subsection \<open>The reference format of a metadata section\<close>

record metadata_spec =
  ms_flags :: int32
  ms_page_state :: bytes
  ms_keyspace :: bytes
  ms_table :: bytes
  ms_columns :: "column_spec list"

definition has_pages :: "metadata_spec \<Rightarrow> bool" where
  "has_pages m \<longleftrightarrow> ms_flags m AND CQL_RESULT_FLAG_HAS_MORE_PAGES \<noteq> 0"

definition is_global :: "metadata_spec \<Rightarrow> bool" where
  "is_global m \<longleftrightarrow> ms_flags m AND CQL_RESULT_FLAG_GLOBAL_TABLESPEC \<noteq> 0"

definition has_columns :: "metadata_spec \<Rightarrow> bool" where
  "has_columns m \<longleftrightarrow> ms_flags m AND CQL_RESULT_FLAG_NO_METADATA = 0"

definition wire_pages :: "metadata_spec \<Rightarrow> bytes" where
  "wire_pages m = (if has_pages m then wire_long_string (ms_page_state m) else [])"

definition wire_global :: "metadata_spec \<Rightarrow> bytes" where
  "wire_global m = (if is_global m then wire_string (ms_keyspace m) @ wire_string (ms_table m) else [])"

definition wire_columns :: "metadata_spec \<Rightarrow> bytes" where
  "wire_columns m = (if has_columns m then concat (map (wire_column (is_global m)) (ms_columns m)) else [])"

definition wire_metadata :: "metadata_spec \<Rightarrow> bytes" where
  "wire_metadata m = be32 (ms_flags m) @ be32 (of_nat (length (ms_columns m))) @
     wire_pages m @ wire_global m @ wire_columns m"

definition metadata_ok :: "metadata_spec \<Rightarrow> bool" where
  "metadata_ok m \<longleftrightarrow> length (ms_page_state m) < 4294967296 \<and> short_string (ms_keyspace m) \<and>
     short_string (ms_table m) \<and> list_all column_ok (ms_columns m) \<and>
     length (ms_columns m) < 2147483648"

definition pages_at :: "char_ptr \<Rightarrow> metadata_spec \<Rightarrow> body_result \<Rightarrow> body_result" where
  "pages_at P m r =
     (if has_pages m
      then r\<lparr>r_more_pages := True, r_page_state := ptr_add P 4,
             r_page_state_size := of_nat (length (ms_page_state m))\<rparr>
      else r\<lparr>r_more_pages := False\<rparr>)"

definition global_at :: "char_ptr \<Rightarrow> metadata_spec \<Rightarrow> body_result \<Rightarrow> body_result" where
  "global_at P m r =
     (if is_global m
      then r\<lparr>r_global_table_spec := True, r_keyspace := ptr_add P 2,
             r_keyspace_size := of_nat (length (ms_keyspace m)),
             r_table := ptr_add P (2 + length (ms_keyspace m) + 2),
             r_table_size := of_nat (length (ms_table m))\<rparr>
      else r\<lparr>r_global_table_spec := False\<rparr>)"

text \<open>
  The vector is resized to the number of columns and the entries are then appended: the entries
  read stand behind as many default ones.
\<close>

definition columns_at :: "char_ptr \<Rightarrow> metadata_spec \<Rightarrow> body_result \<Rightarrow> body_result" where
  "columns_at P m r =
     (if has_columns m
      then r\<lparr>r_no_metadata := False,
             r_column_metadata := replicate (length (ms_columns m)) column_meta_data_new
               @ metas_at (is_global m) P (ms_columns m),
             r_column_index := index_columns 0 (ms_columns m) (r_column_index r)\<rparr>
      else r\<lparr>r_no_metadata := True\<rparr>)"

definition metadata_at :: "char_ptr \<Rightarrow> metadata_spec \<Rightarrow> body_result \<Rightarrow> body_result" where
  "metadata_at P m r =
     columns_at (ptr_add P (8 + length (wire_pages m) + length (wire_global m))) m
       (global_at (ptr_add P (8 + length (wire_pages m))) m
         (pages_at (ptr_add P 8) m (r\<lparr>r_column_count := of_nat (length (ms_columns m))\<rparr>)))"

text \<open>A body whose size fields have no stale high bytes and that holds no columns yet.\<close>

definition result_fresh :: "body_result \<Rightarrow> bool" where
  "result_fresh r \<longleftrightarrow> unat (r_page_state_size r) < 4294967296 \<and> unat (r_keyspace_size r) < 65536 \<and>
     unat (r_table_size r) < 65536 \<and> r_column_metadata r = []"

lemma result_fresh_new [simp]: "result_fresh body_result_new"
  by (simp add: result_fresh_def body_result_new_def)

lemma parse_page_state_reads:
  assumes "points_to P (wire_pages m)" and "metadata_ok m" and "unat (r_page_state_size r) < 4294967296"
  shows "parse_page_state (ms_flags m) (r, P) = Inr (pages_at P m r, ptr_add P (length (wire_pages m)))"
proof (cases "has_pages m")
  case True
  then have "decode_long_string P (r_page_state_size r) =
      Inr (ptr_add P 4, of_nat (length (ms_page_state m)), ptr_add P (4 + length (ms_page_state m)))"
    using assms by (intro decode_long_string_wire) (simp_all add: wire_pages_def metadata_ok_def)
  with True show ?thesis
    by (simp add: parse_page_state_def pages_at_def wire_pages_def has_pages_def Let_def)
next
  case False
  then show ?thesis by (simp add: parse_page_state_def pages_at_def wire_pages_def has_pages_def)
qed

lemma parse_table_spec_reads:
  assumes "points_to P (wire_global m)" and "metadata_ok m"
    and "unat (r_keyspace_size r) < 65536" and "unat (r_table_size r) < 65536"
  shows "parse_table_spec (ms_flags m) (r, P) = Inr (global_at P m r, ptr_add P (length (wire_global m)))"
proof (cases "is_global m")
  case True
  then have "decode_string P (r_keyspace_size r) =
      Inr (ptr_add P 2, of_nat (length (ms_keyspace m)), ptr_add P (2 + length (ms_keyspace m)))"
    "decode_string (ptr_add P (2 + length (ms_keyspace m))) (r_table_size r) =
      Inr (ptr_add (ptr_add P (2 + length (ms_keyspace m))) 2, of_nat (length (ms_table m)),
           ptr_add (ptr_add P (2 + length (ms_keyspace m))) (2 + length (ms_table m)))"
    using assms
    by (intro decode_string_wire; simp add: wire_global_def metadata_ok_def)+
  with True show ?thesis
    by (simp add: parse_table_spec_def global_at_def wire_global_def is_global_def Let_def)
next
  case False
  then show ?thesis by (simp add: parse_table_spec_def global_at_def wire_global_def is_global_def)
qed

lemma parse_columns_reads:
  assumes "points_to P (wire_columns m)" and "metadata_ok m"
    and "r_column_count r = of_nat (length (ms_columns m))" and "r_column_metadata r = []"
    and "r_global_table_spec r = is_global m"
  shows "parse_columns (ms_flags m) (r, P) = Inr (columns_at P m r, ptr_add P (length (wire_columns m)))"
proof (cases "has_columns m")
  case True
  let ?n = "length (ms_columns m)"
  let ?r = "r\<lparr>r_no_metadata := False, r_column_metadata := replicate ?n column_meta_data_new\<rparr>"
  have n: "sint (r_column_count r) = int ?n"
    using assms(2,3) by (simp add: metadata_ok_def sint_of_nat_32)
  have "for_loop 0 ?n parse_column (?r, P) =
      Inr (column_loop.upd_all (is_global m) 0 (ms_columns m) P ?r,
           ptr_add P (length (concat (map (wire_column (is_global m)) (ms_columns m)))))"
    using assms True
    by (intro column_loop.loop_reads) (simp_all add: metadata_ok_def wire_columns_def)
  with True n assms(4) show ?thesis
    by (simp add: parse_columns_def has_columns_def resize_metadata_def Let_def columns_at_def
        wire_columns_def column_loop_upd_all)
next
  case False
  then show ?thesis by (simp add: parse_columns_def columns_at_def wire_columns_def has_columns_def)
qed

lemma at_fields [simp]:
  "r_keyspace_size (pages_at P m r) = r_keyspace_size r"
  "r_table_size (pages_at P m r) = r_table_size r"
  "r_column_count (pages_at P m r) = r_column_count r"
  "r_column_metadata (pages_at P m r) = r_column_metadata r"
  "r_column_count (global_at P m r) = r_column_count r"
  "r_column_metadata (global_at P m r) = r_column_metadata r"
  "r_global_table_spec (global_at P m r) = is_global m"
  "r_column_count (columns_at P m r) = r_column_count r"
  by (simp_all add: pages_at_def global_at_def columns_at_def)

lemma parse_metadata_reads:
  assumes P: "points_to P (wire_metadata m)" and m: "metadata_ok m" and r: "result_fresh r"
  shows "parse_metadata P r = Inr (metadata_at P m r, ptr_add P (length (wire_metadata m)))"
proof -
  have "decode_int P = Inr (ms_flags m, ptr_add P 4)"
    "decode_int (ptr_add P 4) = Inr (of_nat (length (ms_columns m)), ptr_add (ptr_add P 4) 4)"
    using P by (intro decode_int_wire; simp add: wire_metadata_def)+
  moreover have "points_to (ptr_add P 8) (wire_pages m)"
    "points_to (ptr_add P (8 + length (wire_pages m))) (wire_global m)"
    "points_to (ptr_add P (8 + length (wire_pages m) + length (wire_global m))) (wire_columns m)"
    using P by (simp_all add: wire_metadata_def add.assoc)
  ultimately show ?thesis
    using r m
    by (simp add: parse_metadata_def Let_def parse_page_state_reads parse_table_spec_reads
        parse_columns_reads metadata_at_def wire_metadata_def result_fresh_def add.assoc)
qed

subsection \<open>Rows\<close>

text \<open>A cell of a row: null, or a value that is not longer than its length field can say.\<close>

fun wire_cell :: "bytes option \<Rightarrow> bytes" where
  "wire_cell None = be32 0xFFFFFFFF"
| "wire_cell (Some s) = wire_long_string s"

fun cell_ok :: "bytes option \<Rightarrow> bool" where
  "cell_ok None \<longleftrightarrow> True"
| "cell_ok (Some s) \<longleftrightarrow> length s < 2147483648"

definition value_cell :: "bytes option \<Rightarrow> bool" where
  "value_cell c \<longleftrightarrow> c \<noteq> None \<and> cell_ok c"

lemma ptr_add_int_nat: "P \<noteq> Null \<Longrightarrow> ptr_add_int P (int n) = Inr (ptr_add P n)"
  by (cases P) (simp_all add: nat_add_distrib)

lemma points_to_not_Null: "points_to P bs \<Longrightarrow> bs \<noteq> [] \<Longrightarrow> P \<noteq> Null"
  by auto

lemma scast_of_nat: "n < 2147483648 \<Longrightarrow> (scast (of_nat n :: int32) :: size_t) = of_nat n"
  by (simp add: signed_of_nat signed_take_bit_int_eq_self)

interpretation cell_loop: entry_reader parse_cell wire_cell
  "\<lambda>i c P out. out @ [(ptr_add P 4, of_nat (length (the c)))]" value_cell "\<lambda>_. True"
proof
  fix c P i and out :: "(char_ptr \<times> size_t) list"
  assume c: "value_cell c" and P: "points_to P (wire_cell c)"
  obtain s where s: "c = Some s" "length s < 2147483648" using c by (cases c) (auto simp: value_cell_def)
  then have d: "decode_int P = Inr (of_nat (length s), ptr_add P 4)"
    using P by (intro decode_int_wire) (simp add: wire_long_string_def)
  have "P \<noteq> Null" using P s by (auto simp: wire_long_string_def be32_def)
  then have "ptr_add P 4 \<noteq> Null" by (cases P) auto
  then have "ptr_add_int (ptr_add P 4) (int (length s)) = Inr (ptr_add P (4 + length s))"
    by (simp add: ptr_add_int_nat)
  with d s show "parse_cell i (out, P) =
      Inr (out @ [(ptr_add P 4, of_nat (length (the c)))], ptr_add P (length (wire_cell c)))"
    by (simp add: parse_cell_def sint_of_nat_32 scast_of_nat)
qed simp

definition wire_row :: "bytes option list \<Rightarrow> bytes" where
  "wire_row cells = concat (map wire_cell cells)"

definition wire_rows :: "bytes option list list \<Rightarrow> bytes" where
  "wire_rows rows = concat (map wire_row rows)"

text \<open>What a client sees of a row: the bytes behind each pair of pointer and size.\<close>

definition view_row :: "(char_ptr \<times> size_t) list \<Rightarrow> bytes result list" where
  "view_row row = map (\<lambda>(p, n). load_bytes p (unat n)) row"

lemma view_cells:
  assumes "list_all value_cell cells" and "points_to P (wire_row cells)"
  shows "view_row (cell_loop.upd_all i cells P out) = view_row out @ map (\<lambda>c. Inr (the c)) cells"
  using assms
proof (induction cells arbitrary: i P out)
  case Nil
  then show ?case by (simp add: view_row_def)
next
  case (Cons c cells)
  obtain s where s: "c = Some s" "length s < 2147483648"
    using Cons.prems(1) by (cases c) (auto simp: value_cell_def)
  with Cons.prems(2) have "load_bytes (ptr_add P 4) (unat (of_nat (length s) :: size_t)) = Inr s"
    by (simp add: wire_row_def wire_long_string_def load_points_to)
  with Cons s show ?case by (simp add: view_row_def wire_row_def)
qed

lemma parse_row_reads:
  assumes "list_all value_cell cells" and "points_to P (wire_row cells)"
    and "r_column_count r = of_nat (length cells)" and "length cells < 2147483648"
  shows "\<exists>row. parse_row r P = Inr (row, ptr_add P (length (wire_row cells)))
    \<and> view_row row = map (\<lambda>c. Inr (the c)) cells"
proof -
  have "for_loop 0 (length cells) parse_cell ([], P) =
      Inr (cell_loop.upd_all 0 cells P [], ptr_add P (length (wire_row cells)))"
    using assms unfolding wire_row_def by (intro cell_loop.loop_reads) simp_all
  with assms view_cells [OF assms(1,2), of 0 "[]"] show ?thesis
    by (simp add: parse_row_def sint_of_nat_32 view_row_def)
qed

lemma for_loop_append:
  "for_loop i (m + n) body s = bind_result (for_loop i m body s) (for_loop (i + m) n body)"
proof (induction m arbitrary: i s)
  case (Suc m)
  have "for_loop (Suc i) (m + n) body = (\<lambda>s. bind_result (for_loop (Suc i) m body s) (for_loop
      (Suc i + m) n body))"
    by (rule ext) (rule Suc.IH)
  then show ?case by (simp add: bind_result_assoc)
qed simp

lemma for_loop_one: "for_loop i (Suc 0) body = body i"
  by (rule ext) (simp add: bind_result_def split: sum.split)

text \<open>
  A null cell, whose length field is \<open>-1\<close>, is not recognised: its size becomes the largest
  \<open>size_t\<close>, and the reader steps one byte back, into the length field it has just read.
\<close>

lemma parse_cell_null:
  assumes "points_to P (be32 0xFFFFFFFF)"
  shows "parse_cell i (out, P) = Inr (out @ [(ptr_add P 4, 0xFFFFFFFFFFFFFFFF)], ptr_add P 3)"
  using decode_int_wire [OF assms] assms
  by (cases P) (simp_all add: parse_cell_def nat_diff_distrib be32_def)

text \<open>A row up to its first null cell, and from there on.\<close>

lemma parse_row_null:
  assumes "list_all value_cell cells" and "points_to P (wire_row (cells @ None # rest))"
    and "r_column_count r = of_nat (length cells + Suc n)" and "length cells + Suc n < 2147483648"
  shows "\<exists>row. view_row row = map (\<lambda>c. Inr (the c)) cells \<and>
     parse_row r P = for_loop (Suc (length cells)) n parse_cell
       (row @ [(ptr_add P (length (wire_row cells) + 4), 0xFFFFFFFFFFFFFFFF)],
        ptr_add P (length (wire_row cells) + 3))"
proof -
  have P: "points_to P (wire_row cells)" "points_to (ptr_add P (length (wire_row cells))) (be32 0xFFFFFFFF)"
    using assms(2) by (simp_all add: wire_row_def)
  have "for_loop 0 (length cells) parse_cell ([], P) =
      Inr (cell_loop.upd_all 0 cells P [], ptr_add P (length (wire_row cells)))"
    using assms(1) P(1) unfolding wire_row_def by (intro cell_loop.loop_reads) simp_all
  moreover have cols: "sint (r_column_count r) = int (length cells + Suc n)"
    using assms(3,4) by (simp add: sint_of_nat_32 del: of_nat_add of_nat_Suc)
  moreover have "view_row (cell_loop.upd_all 0 cells P []) = map (\<lambda>c. Inr (the c)) cells"
    using view_cells [OF assms(1) P(1), of 0 "[]"] by (simp add: view_row_def)
  moreover have "parse_row r P =
      bind_result (for_loop 0 (length cells) parse_cell ([], P)) (for_loop (0 + length cells)
        (Suc n) parse_cell)"
    unfolding parse_row_def for_loop_append [symmetric] cols by (simp only: nat_int)
  ultimately show ?thesis
    using parse_cell_null [OF P(2)]
    by (intro exI [of _ "cell_loop.upd_all 0 cells P []"]) simp
qed

text \<open>A body positioned on \<open>rows\<close>.\<close>

definition holds_rows :: "body_result \<Rightarrow> bytes option list list \<Rightarrow> bool" where
  "holds_rows r rows \<longleftrightarrow>
     points_to (r_rows r) (wire_rows rows) \<and> length rows < 2147483648 \<and>
     r_row_count r = of_nat (length rows) \<and> 0 \<le> sint (r_column_count r) \<and>
     list_all (\<lambda>cells. list_all cell_ok cells \<and> length cells = nat (sint (r_column_count r))) rows"

text \<open>Where row \<open>k\<close> starts.\<close>

definition row_start :: "body_result \<Rightarrow> bytes option list list \<Rightarrow> nat \<Rightarrow> char_ptr" where
  "row_start r rows k = ptr_add (r_rows r) (length (wire_rows (take k rows)))"

text \<open>The iterator stands on row \<open>k\<close>.\<close>

definition on_row :: "body_result \<Rightarrow> bytes option list list \<Rightarrow> nat \<Rightarrow> result_iterator \<Rightarrow> bool" where
  "on_row r rows k it \<longleftrightarrow>
     it_result it = r \<and> it_row_position it = of_nat k \<and> k < length rows \<and>
     view_row (it_row it) = map (\<lambda>c. Inr (the c)) (rows ! k) \<and>
     it_position_next it = row_start r rows (Suc k)"

lemma holds_rows_row:
  assumes "holds_rows r rows" and "k < length rows"
  shows "points_to (row_start r rows k) (wire_row (rows ! k))"
    and "list_all cell_ok (rows ! k)" and "r_column_count r = of_nat (length (rows ! k))"
    and "length (rows ! k) < 2147483648"
    and "row_start r rows (Suc k) = ptr_add (row_start r rows k) (length (wire_row (rows ! k)))"
proof -
  have split: "rows = take k rows @ rows ! k # drop (Suc k) rows"
    using assms(2) by (rule id_take_nth_drop)
  have row: "length (rows ! k) = nat (sint (r_column_count r))"
    using assms by (auto simp: holds_rows_def list_all_iff)
  show "list_all cell_ok (rows ! k)" using assms by (auto simp: holds_rows_def list_all_iff)
  show "r_column_count r = of_nat (length (rows ! k))"
    using assms(1) row by (simp add: holds_rows_def)
  have "sint (r_column_count r) < 2147483648"
    using sint_lt [of "r_column_count r"] by simp
  then show "length (rows ! k) < 2147483648" using row by simp
  have "points_to (r_rows r) (wire_rows (take k rows @ rows ! k # drop (Suc k) rows))"
    using assms(1) split by (simp add: holds_rows_def)
  then show "points_to (row_start r rows k) (wire_row (rows ! k))"
    by (simp add: wire_rows_def row_start_def)
  show "row_start r rows (Suc k) = ptr_add (row_start r rows k) (length (wire_row (rows ! k)))"
    using assms(2) by (simp add: row_start_def take_Suc_conv_app_nth wire_rows_def)
qed

lemma holds_rows_parse:
  assumes "holds_rows r rows" and "k < length rows" and "None \<notin> set (rows ! k)"
  shows "\<exists>row. parse_row r (row_start r rows k) = Inr (row, row_start r rows (Suc k))
     \<and> view_row row = map (\<lambda>c. Inr (the c)) (rows ! k)"
proof -
  note row = holds_rows_row [OF assms(1,2)]
  have "list_all value_cell (rows ! k)"
    using row(2) assms(3) unfolding list_all_iff value_cell_def by metis
  from parse_row_reads [OF this row(1,3,4)] row(5) show ?thesis by simp
qed

lemma result_iterator_new_on_row:
  assumes "holds_rows r rows" and "rows \<noteq> []" and "None \<notin> set (rows ! 0)"
  shows "\<exists>it. result_iterator_new r = Inr it \<and> on_row r rows 0 it"
proof -
  have "row_start r rows 0 = r_rows r" by (simp add: row_start_def wire_rows_def)
  with holds_rows_parse [OF assms(1) _ assms(3)] assms(2)
  obtain row where "parse_row r (r_rows r) = Inr (row, row_start r rows (Suc 0))"
    "view_row row = map (\<lambda>c. Inr (the c)) (rows ! 0)"
    by auto
  with assms show ?thesis
    by (simp add: result_iterator_new_def on_row_def holds_rows_def)
qed

lemma result_iterator_next_on_row:
  assumes "holds_rows r rows" and "on_row r rows k it"
  shows "Suc k < length rows \<Longrightarrow> result_iterator_next it =
       bind_result (parse_row r (row_start r rows (Suc k))) (\<lambda>(row, next).
         Inr (it\<lparr>it_row_position := of_nat (Suc k), it_position_next := next, it_row := row\<rparr>, True))"
    and "Suc k < length rows \<Longrightarrow> None \<notin> set (rows ! Suc k) \<Longrightarrow>
       \<exists>it'. result_iterator_next it = Inr (it', True) \<and> on_row r rows (Suc k) it'"
    and "\<not> Suc k < length rows \<Longrightarrow> \<exists>it'. result_iterator_next it = Inr (it', False)"
proof -
  have pos: "it_row_position it + 1 = of_nat (Suc k)" and res: "it_result it = r"
    and k: "k < length rows" and "length rows < 2147483648"
    and cnt: "r_row_count r = of_nat (length rows)" and nxt: "it_position_next it =
      row_start r rows (Suc k)"
    using assms by (simp_all add: on_row_def holds_rows_def add.commute)
  then have s: "sint (it_row_position it + 1) = int (Suc k)" "sint (r_row_count r) = int (length rows)"
    by (simp_all only: pos cnt, simp_all add: sint_of_nat_32 del: of_nat_Suc)
  show step: "result_iterator_next it =
       bind_result (parse_row r (row_start r rows (Suc k))) (\<lambda>(row, next).
         Inr (it\<lparr>it_row_position := of_nat (Suc k), it_position_next := next, it_row := row\<rparr>, True))"
    if "Suc k < length rows"
    using that s pos by (simp add: result_iterator_next_def Let_def res nxt del: of_nat_Suc)
  show "\<exists>it'. result_iterator_next it = Inr (it', True) \<and> on_row r rows (Suc k) it'"
    if "Suc k < length rows" "None \<notin> set (rows ! Suc k)"
    using holds_rows_parse [OF assms(1) that] step [OF that(1)] that(1) res
    by (auto simp: on_row_def)
  show "\<exists>it'. result_iterator_next it = Inr (it', False)" if "\<not> Suc k < length rows"
    using that s res k by (simp add: result_iterator_next_def Let_def)
qed

text \<open>\<open>k\<close> calls of \<open>next\<close>.\<close>

definition skip_rows :: "nat \<Rightarrow> result_iterator \<Rightarrow> result_iterator result" where
  "skip_rows k = for_loop 0 k (\<lambda>_ it. bind_result (result_iterator_next it) (\<lambda>(it, _). Inr it))"

lemma skip_rows_Suc:
  "skip_rows (Suc k) = (\<lambda>it. bind_result (skip_rows k it)
     (\<lambda>it. bind_result (result_iterator_next it) (\<lambda>(it, _). Inr it)))"
proof
  fix it
  show "skip_rows (Suc k) it = bind_result (skip_rows k it)
     (\<lambda>it. bind_result (result_iterator_next it) (\<lambda>(it, _). Inr it))"
    using for_loop_append [of 0 k 1 "\<lambda>_ it. bind_result (result_iterator_next it) (\<lambda>(it, _). Inr it)" it]
      for_loop_one [of k "\<lambda>_ it. bind_result (result_iterator_next it) (\<lambda>(it, _). Inr it)"]
    by (simp add: skip_rows_def)
qed

text \<open>The iterator behind the constructor and \<open>k\<close> calls of \<open>next\<close>.\<close>

definition iterate_to :: "nat \<Rightarrow> body_result \<Rightarrow> result_iterator result" where
  "iterate_to k r = bind_result (result_iterator_new r) (skip_rows k)"

lemma iterate_to_Suc:
  "iterate_to (Suc k) r = bind_result (iterate_to k r) (\<lambda>it. bind_result (result_iterator_next it)
      (\<lambda>(it, _). Inr it))"
  by (simp add: iterate_to_def skip_rows_Suc bind_result_assoc)

lemma iterate_to_on_row:
  assumes "holds_rows r rows" and "k < length rows" and "None \<notin> set (concat (take (Suc k) rows))"
  shows "\<exists>it. iterate_to k r = Inr it \<and> on_row r rows k it"
  using assms(2,3)
proof (induction k)
  case 0
  then show ?case
    using result_iterator_new_on_row [OF assms(1)]
    by (cases rows) (auto simp: iterate_to_def skip_rows_def)
next
  case (Suc k)
  then have "None \<notin> set (rows ! Suc k)" "None \<notin> set (concat (take (Suc k) rows))"
    by (auto simp: take_Suc_conv_app_nth [of "Suc k"])
  with Suc result_iterator_next_on_row(2) [OF assms(1)] show ?case
    by (fastforce simp: iterate_to_Suc)
qed

text \<open>The iterator on a row whose predecessors have no null cell: it parses this row at its start.\<close>

lemma iterate_to_parses:
  assumes "holds_rows r rows" and "k < length rows" and "None \<notin> set (concat (take k rows))"
  shows "\<exists>it. iterate_to k r = bind_result (parse_row r (row_start r rows k)) (\<lambda>(row, next).
     Inr (it\<lparr>it_row_position := of_nat k, it_position_next := next, it_row := row\<rparr>))"
proof (cases k)
  case 0
  have "\<not> sint (r_column_count r) < 0" "row_start r rows 0 = r_rows r"
    using assms(1) by (simp_all add: holds_rows_def row_start_def wire_rows_def)
  then show ?thesis
    by (intro exI [of _ "\<lparr>it_result = r, it_row_position = 0, it_position = r_rows r,
        it_position_next = Null, it_row = []\<rparr>"])
      (simp add: 0 iterate_to_def skip_rows_def result_iterator_new_def case_prod_unfold
        bind_result_def split: sum.split)
next
  case (Suc j)
  then obtain it where "iterate_to j r = Inr it" "on_row r rows j it"
    using iterate_to_on_row [OF assms(1), of j] assms(2,3) by auto
  then show ?thesis
    using result_iterator_next_on_row(1) [OF assms(1), of j it] assms(2)
    by (intro exI [of _ it]) (simp add: Suc iterate_to_Suc bind_result_assoc case_prod_unfold del:
      of_nat_Suc)
qed

subsection \<open>The index of the columns\<close>

lemma map_find_index_columns_other:
  assumes "map_ok idx" and "n \<notin> cs_name ` set cs"
  shows "map_find n (index_columns i cs idx) = map_find n idx"
  using assms
  by (induction cs arbitrary: i idx) (auto simp: map_find_insert map_insert_ok)

lemma map_find_index_columns:
  assumes "map_ok idx" and "distinct (map cs_name cs)" and "k < length cs"
    and "\<forall>c \<in> set cs. map_find (cs_name c) idx = None"
  shows "map_find (cs_name (cs ! k)) (index_columns i cs idx) = Some (i + k)"
  using assms
proof (induction cs arbitrary: i idx k)
  case Nil
  then show ?case by simp
next
  case (Cons c cs)
  show ?case
  proof (cases k)
    case 0
    then show ?thesis
      using Cons.prems map_find_index_columns_other [of "map_insert (cs_name c) i idx" "cs_name c"
        cs "Suc i"]
      by (simp add: map_find_insert map_insert_ok)
  next
    case (Suc j)
    have "map_find (cs_name (cs ! j)) (index_columns (Suc i) cs (map_insert (cs_name c) i idx)) =
      Some (Suc i + j)"
    proof (rule Cons.IH)
      show "\<forall>c'\<in>set cs. map_find (cs_name c') (map_insert (cs_name c) i idx) = None"
        using Cons.prems(2,4) map_find_insert [OF Cons.prems(1)] by (simp add: image_iff) metis
    qed (use Cons.prems Suc in \<open>auto simp: map_insert_ok\<close>)
    then show ?thesis by (simp add: Suc)
  qed
qed

lemma nth_metas_at:
  "k < length cs \<Longrightarrow> metas_at g P cs ! k =
     meta_at g (ptr_add P (length (concat (map (wire_column g) (take k cs))))) (cs ! k)"
proof (induction cs arbitrary: P k)
  case Nil
  then show ?case by simp
next
  case (Cons c cs)
  then show ?case by (cases k) simp_all
qed

subsection \<open>The ROWS result\<close>

definition wire_rows_result :: "metadata_spec \<Rightarrow> bytes option list list \<Rightarrow> bytes" where
  "wire_rows_result m rows =
     be32 CQL_RESULT_KIND_ROWS @ wire_metadata m @ be32 (of_nat (length rows)) @ wire_rows rows"

definition rows_ok :: "metadata_spec \<Rightarrow> bytes option list list \<Rightarrow> bool" where
  "rows_ok m rows \<longleftrightarrow> metadata_ok m \<and> length rows < 2147483648 \<and>
     list_all (\<lambda>cells. list_all cell_ok cells \<and> length cells = length (ms_columns m)) rows"

definition rows_at :: "char_ptr \<Rightarrow> metadata_spec \<Rightarrow> bytes option list list \<Rightarrow> body_result \<Rightarrow> body_result" where
  "rows_at P m rows r =
     (metadata_at (ptr_add P 4) m (r\<lparr>r_kind := CQL_RESULT_KIND_ROWS\<rparr>))
       \<lparr>r_row_count := of_nat (length rows), r_rows := ptr_add P (8 + length (wire_metadata m))\<rparr>"

lemma body_result_consume_rows:
  assumes P: "points_to P (wire_rows_result m rows)" and ok: "rows_ok m rows" and r: "result_fresh r"
  shows "body_result_consume P sz r = Inr (rows_at P m rows r, True)"
    and "holds_rows (rows_at P m rows r) rows"
proof -
  have m: "metadata_ok m" using ok by (simp add: rows_ok_def)
  have "decode_int P = Inr (CQL_RESULT_KIND_ROWS, ptr_add P 4)"
    using P by (intro decode_int_wire) (simp add: wire_rows_result_def)
  moreover have "points_to (ptr_add P 4) (wire_metadata m)"
    using P by (simp add: wire_rows_result_def)
  moreover have "result_fresh (r\<lparr>r_kind := CQL_RESULT_KIND_ROWS\<rparr>)"
    using r by (simp add: result_fresh_def)
  moreover have "decode_int (ptr_add P (4 + length (wire_metadata m))) =
      Inr (of_nat (length rows), ptr_add (ptr_add P (4 + length (wire_metadata m))) 4)"
    using P by (intro decode_int_wire) (simp add: wire_rows_result_def)
  ultimately show "body_result_consume P sz r = Inr (rows_at P m rows r, True)"
    using parse_metadata_reads [of "ptr_add P 4" m "r\<lparr>r_kind := CQL_RESULT_KIND_ROWS\<rparr>"] m
    by (simp add: body_result_consume_def parse_rows_def rows_at_def CQL_RESULT_KIND_ROWS_def
        CQL_RESULT_KIND_VOID_def add.commute)
  show "holds_rows (rows_at P m rows r) rows"
    using P ok
    by (simp add: holds_rows_def rows_at_def rows_ok_def metadata_ok_def metadata_at_def
        wire_rows_result_def sint_of_nat_32 add.assoc add.commute [of _ 8])
qed

text \<open>
  The iterator parses the first row in its constructor without looking at the row count: for
  a result without rows it reads behind the row count, the last bytes of the body.
\<close>

lemma rows_at_no_rows:
  assumes "rows_ok m []" and "ms_columns m \<noteq> []" and "\<And>n. n \<le> alloc n" and w: "w = wire_rows_result m []"
  shows "\<exists>e. iterate_to 0 (rows_at (Ptr (framed alloc (length w) 0 w) 0) m [] r) = Inl e"
proof -
  let ?b = "framed alloc (length w) 0 w"
  let ?r = "rows_at (Ptr ?b 0) m [] r"
  have rows: "r_rows ?r = Ptr ?b (length w)"
    by (simp add: w rows_at_def wire_rows_result_def wire_rows_def)
  have cols: "sint (r_column_count ?r) = int (length (ms_columns m))"
    using assms(1) by (simp add: rows_at_def metadata_at_def rows_ok_def metadata_ok_def sint_of_nat_32)
  then obtain n where n: "nat (sint (r_column_count ?r)) = Suc n"
    using assms(2) by (cases "nat (sint (r_column_count ?r))") auto
  have "drop (length w) ?b = replicate (alloc (length w) - length w) None"
    by (simp add: framed_def)
  then have "\<exists>e. load_bytes (Ptr ?b (length w)) 4 = Inl e"
    by (auto simp: min_def)
  then have "\<exists>e. parse_row ?r (r_rows ?r) = Inl e"
    unfolding rows by (auto simp: parse_row_def n parse_cell_def decode_int_def simp del: load_bytes.simps)
  then show ?thesis
    using cols by (auto simp: iterate_to_def result_iterator_new_def)
qed

subsection \<open>Properties\<close>

definition sample_metadata :: metadata_spec where
  "sample_metadata = \<lparr>ms_flags = 1, ms_page_state = [], ms_keyspace = str ''ks'', ms_table = str ''t'',
     ms_columns = [\<lparr>cs_keyspace = [], cs_table = [], cs_name = str ''a'', cs_type = 9, cs_class = [],
       cs_primary = 0, cs_primary_class = [], cs_secondary = 0, cs_secondary_class = []\<rparr>]\<rparr>"

lemma sample_fields [simp]:
  "has_columns sample_metadata" "length (ms_columns sample_metadata) = 1"
  "map cs_name (ms_columns sample_metadata) = [str ''a'']"
  "cs_name (ms_columns sample_metadata ! 0) = str ''a''"
  "cs_type (ms_columns sample_metadata ! 0) = 9"
  by (simp_all add: sample_metadata_def has_columns_def CQL_RESULT_FLAG_NO_METADATA_def)

lemma new_index [simp]: "r_column_index body_result_new = []"
  by (simp add: body_result_new_def)

lemma sample_rows_ok: "rows_ok sample_metadata [[Some (str ''x'')], [None]]" "rows_ok sample_metadata []"
  by (simp_all add: rows_ok_def sample_metadata_def metadata_ok_def column_ok_def short_string_def
      str_def)

text \<open>
  C16: The iterator over a ROWS result, for every list of rows whose cells are values or null, behind
  well-formed metadata, in a body buffer as the connection makes it. The result is parsed
  completely. With columns but no row, the constructor of the iterator reads behind the result and
  fails. Otherwise, as long as no earlier row has a null cell, the iterator behaves as follows at row
  \<open>k\<close>. If the row has no null cell, then after \<open>k\<close> calls of \<open>next\<close> the current row shows
  exactly its cells, and if it is the last row, the following \<open>next\<close> returns false. If cell \<open>j\<close> is
  its first null cell, the cells before it are read right, the null cell is read as a cell of
  the largest \<open>size_t\<close>, and the reader goes on with the next cell, or the next row, one byte in
  front of its length field; the call fails if this fails.
\<close>

theorem result_rows_iteration:
  assumes "rows_ok m rows" and "result_fresh r" and "\<And>n. n \<le> alloc n"
    and "w = wire_rows_result m rows"
  shows "\<exists>r'. body_result_consume (Ptr (framed alloc (length w) 0 w) 0) (length w) r = Inr (r', True) \<and>
     (rows = [] \<and> ms_columns m \<noteq> [] \<longrightarrow> (\<exists>e. iterate_to 0 r' = Inl e)) \<and>
     (\<forall>k < length rows. None \<notin> set (concat (take k rows)) \<longrightarrow>
        (None \<notin> set (rows ! k) \<longrightarrow>
           (\<exists>it. iterate_to k r' = Inr it \<and> view_row (it_row it) = map (\<lambda>c. Inr (the c)) (rows ! k) \<and>
              (Suc k = length rows \<longrightarrow> (\<exists>it'. result_iterator_next it = Inr (it', False))))) \<and>
        (\<forall>j before rest. rows ! k = before @ None # rest \<and> None \<notin> set before \<and> j = length before \<longrightarrow>
           (\<exists>row it P. view_row row = map (\<lambda>c. Inr (the c)) before \<and>
              P = ptr_add (row_start r' rows k) (length (wire_row before)) \<and>
              iterate_to k r' = bind_result
                (for_loop (Suc j) (length rest) parse_cell
                   (row @ [(ptr_add P 4, 0xFFFFFFFFFFFFFFFF)], ptr_add P 3))
                (\<lambda>(row, next). Inr (it\<lparr>it_row_position := of_nat k, it_position_next := next,
                   it_row := row\<rparr>)))))"
proof -
  let ?P = "Ptr (framed alloc (length w) 0 w) 0"
  let ?r = "rows_at ?P m rows r"
  have P: "points_to ?P (wire_rows_result m rows)" using assms(4)
      by (simp add: points_to_framed del: points_to.simps)
  note holds = body_result_consume_rows(2) [OF P assms(1,2)]
  have empty: "\<exists>e. iterate_to 0 ?r = Inl e" if "rows = []" "ms_columns m \<noteq> []"
    using rows_at_no_rows [where m = m and r = r and alloc = alloc and w = w] assms that by simp
  have good: "\<exists>it. iterate_to k ?r = Inr it \<and> view_row (it_row it) = map (\<lambda>c. Inr (the c)) (rows ! k) \<and>
      (Suc k = length rows \<longrightarrow> (\<exists>it'. result_iterator_next it = Inr (it', False)))"
    if "k < length rows" "None \<notin> set (concat (take k rows))" "None \<notin> set (rows ! k)" for k
  proof -
    have "None \<notin> set (concat (take (Suc k) rows))"
      using that by (simp add: take_Suc_conv_app_nth)
    from iterate_to_on_row [OF holds that(1) this] obtain it where
      it: "iterate_to k ?r = Inr it" "on_row ?r rows k it" by blast
    with result_iterator_next_on_row(3) [OF holds it(2)] show ?thesis by (auto simp: on_row_def)
  qed
  have null: "\<exists>row it. view_row row = map (\<lambda>c. Inr (the c)) before \<and>
      iterate_to k ?r = bind_result
        (for_loop (Suc (length before)) (length rest) parse_cell
           (row @ [(ptr_add (row_start ?r rows k) (length (wire_row before) + 4), 0xFFFFFFFFFFFFFFFF)],
            ptr_add (row_start ?r rows k) (length (wire_row before) + 3)))
        (\<lambda>(row, next). Inr (it\<lparr>it_row_position := of_nat k, it_position_next := next, it_row := row\<rparr>))"
    if "k < length rows" "None \<notin> set (concat (take k rows))" "rows ! k = before @ None # rest"
      "None \<notin> set before" for k before rest
  proof -
    note row = holds_rows_row [OF holds that(1)]
    have "list_all value_cell before"
      using row(2) that(3,4) unfolding list_all_iff value_cell_def by (metis Un_iff set_append)
    moreover have "points_to (row_start ?r rows k) (wire_row (before @ None # rest))"
      using row(1) by (simp only: that(3))
    moreover have "r_column_count ?r = of_nat (length before + Suc (length rest))"
      "length before + Suc (length rest) < 2147483648"
      using row(3,4) by (simp_all add: that(3))
    ultimately obtain row where "view_row row = map (\<lambda>c. Inr (the c)) before"
      "parse_row ?r (row_start ?r rows k) = for_loop (Suc (length before)) (length rest) parse_cell
       (row @ [(ptr_add (row_start ?r rows k) (length (wire_row before) + 4), 0xFFFFFFFFFFFFFFFF)],
        ptr_add (row_start ?r rows k) (length (wire_row before) + 3))"
      using parse_row_null by blast
    with iterate_to_parses [OF holds that(1,2)] show ?thesis by auto
  qed
  show ?thesis
    using body_result_consume_rows(1) [OF P assms(1,2)] empty good null
    by (intro exI [of _ ?r]) (auto simp: ptr_add_add)
qed

theorem result_rows_iteration_witness:
  "\<exists>r' it0 it1. body_result_consume (Ptr (framed (\<lambda>n. n)
       (length (wire_rows_result sample_metadata [[Some (str ''x'')], [None]])) 0
       (wire_rows_result sample_metadata [[Some (str ''x'')], [None]])) 0)
       (length (wire_rows_result sample_metadata [[Some (str ''x'')], [None]])) body_result_new = Inr (r', True) \<and>
     iterate_to 0 r' = Inr it0 \<and> view_row (it_row it0) = [Inr (str ''x'')] \<and>
     iterate_to 1 r' = Inr it1 \<and> map snd (it_row it1) = [0xFFFFFFFFFFFFFFFF]"
proof -
  let ?rows = "[[Some (str ''x'')], [None]]"
  let ?w = "wire_rows_result sample_metadata ?rows"
  have "n \<le> n" for n :: nat by simp
  from result_rows_iteration [OF sample_rows_ok(1) result_fresh_new this refl] obtain r' where
    r': "body_result_consume (Ptr (framed (\<lambda>n. n) (length ?w) 0 ?w) 0) (length ?w) body_result_new =
      Inr (r', True)"
    and rows: "\<forall>k < length ?rows. None \<notin> set (concat (take k ?rows)) \<longrightarrow>
        (None \<notin> set (?rows ! k) \<longrightarrow>
           (\<exists>it. iterate_to k r' = Inr it \<and> view_row (it_row it) = map (\<lambda>c. Inr (the c)) (?rows ! k) \<and>
              (Suc k = length ?rows \<longrightarrow> (\<exists>it'. result_iterator_next it = Inr (it', False))))) \<and>
        (\<forall>j before rest. ?rows ! k = before @ None # rest \<and> None \<notin> set before \<and> j = length before \<longrightarrow>
           (\<exists>row it P. view_row row = map (\<lambda>c. Inr (the c)) before \<and>
              P = ptr_add (row_start r' ?rows k) (length (wire_row before)) \<and>
              iterate_to k r' = bind_result
                (for_loop (Suc j) (length rest) parse_cell
                   (row @ [(ptr_add P 4, 0xFFFFFFFFFFFFFFFF)], ptr_add P 3))
                (\<lambda>(row, next). Inr (it\<lparr>it_row_position := of_nat k, it_position_next := next,
                   it_row := row\<rparr>))))"
    by (elim exE conjE) (rule that)
  have "None \<notin> set (concat (take 0 ?rows))" "None \<notin> set (?rows ! 0)"
    "None \<notin> set (concat (take 1 ?rows))" "0 < length ?rows" "1 < length ?rows" "?rows ! 1 = [] @ None # []"
    by simp_all
  note k = this
  from rows [rule_format, OF k(4,1), THEN conjunct1, rule_format, OF k(2)] obtain it0 where
    it0: "iterate_to 0 r' = Inr it0" "view_row (it_row it0) = [Inr (str ''x'')]" by auto
  have "?rows ! 1 = [] @ None # [] \<and> None \<notin> set [] \<and> 0 = length ([] :: bytes option list)" by simp
  from rows [rule_format, OF k(5,3), THEN conjunct2, rule_format, OF this] obtain it1 where
    "iterate_to 1 r' = Inr it1" "map snd (it_row it1) = [0xFFFFFFFFFFFFFFFF]"
    by (auto simp: view_row_def)
  then show ?thesis
    using r' it0 by (intro exI [of _ r'] exI [of _ it0] exI [of _ it1] conjI)
qed

text \<open>
  Looking a column up by its name. The vector of metadata is resized to the number of columns
  before the entries are appended, so the entry that was read for column \<open>k\<close> stands at
  \<open>column_count + k\<close>, while the index maps its name to \<open>k\<close>, where a default entry stands.
\<close>

lemma result_column_index_default:
  assumes "points_to P (wire_rows_result m rows)" and "rows_ok m rows" and "result_fresh r"
    and "has_columns m" and "r_column_index r = []" and "distinct (map cs_name (ms_columns m))"
    and "k < length (ms_columns m)"
  shows "\<exists>r'. body_result_consume P sz r = Inr (r', True) \<and>
     length (r_column_metadata r') = 2 * length (ms_columns m) \<and>
     map_find (cs_name (ms_columns m ! k)) (r_column_index r') = Some k \<and>
     r_column_metadata r' ! k = column_meta_data_new \<and>
     cm_type (r_column_metadata r' ! (length (ms_columns m) + k)) = cs_type (ms_columns m ! k)"
proof -
  let ?cs = "ms_columns m" and ?r = "rows_at P m rows r"
  have idx: "r_column_index (global_at Q m (pages_at Q' m r1)) = r_column_index r1" for Q Q' r1
    by (simp add: global_at_def pages_at_def)
  have "map_find (cs_name (?cs ! k)) (index_columns 0 ?cs []) = Some (0 + k)"
    using assms(6,7) by (intro map_find_index_columns) (simp_all add: map_find_def)
  then have "map_find (cs_name (?cs ! k)) (r_column_index ?r) = Some k"
    using assms(4,5) by (simp add: rows_at_def metadata_at_def columns_at_def idx)
  moreover obtain Q where md: "r_column_metadata ?r =
      replicate (length ?cs) column_meta_data_new @ metas_at (is_global m) Q ?cs"
    using assms(4) by (simp add: rows_at_def metadata_at_def columns_at_def)
  moreover have "cm_type (r_column_metadata ?r ! (length ?cs + k)) = cs_type (?cs ! k)"
    using assms(7) by (simp add: md nth_append nth_metas_at meta_at_def)
  ultimately show ?thesis
    using body_result_consume_rows(1) [OF assms(1-3)] assms(7) by (auto simp: nth_append)
qed

text \<open>
  A schema-change result shows the change, keyspace and table it carries, as pointers into
  the message body.
\<close>

lemma result_schema_change_reads:
  assumes "points_to P (be32 CQL_RESULT_KIND_SCHEMA_CHANGE @ wire_string c @ wire_string k @ wire_string t)"
    and "list_all short_string [c, k, t]"
  shows "\<exists>r. body_result_consume P sz body_result_new = Inr (r, True) \<and>
     load_bytes (r_change r) (unat (r_change_size r)) = Inr c \<and>
     load_bytes (r_keyspace r) (unat (r_keyspace_size r)) = Inr k \<and>
     load_bytes (r_table r) (unat (r_table_size r)) = Inr t"
proof -
  have short: "short_string c" "short_string k" "short_string t" using assms(2) by simp_all
  let ?Q = "ptr_add P (6 + length c)" and ?T = "ptr_add P (8 + length c + length k)"
  have c: "points_to (ptr_add P 4) (wire_string c)" and k: "points_to ?Q (wire_string k)"
    and t: "points_to ?T (wire_string t)"
    using assms(1) by (simp_all add: add.assoc)
  have "decode_int P = Inr (CQL_RESULT_KIND_SCHEMA_CHANGE, ptr_add P 4)"
    using assms(1) by (intro decode_int_wire) simp
  then show ?thesis
    using load_wire_string [OF c short(1)] load_wire_string [OF k short(2)]
      load_wire_string [OF t short(3)] decode_string_wire [OF c short(1), of 0]
      decode_string_wire [OF k short(2), of 0] decode_string_wire [OF t short(3), of 0]
    by (simp add: body_result_consume_def parse_schema_change_def result_kind_defs body_result_new_def
        Let_def add.assoc)
qed

end
