(* ===== verification/Message.thy ===== *)
theory Message
  imports Body_Startup Body_Query Body_Result
begin

text \<open>
  \<^verbatim>\<open>include/cql_message.hpp\<close>: the protocol frame. \<open>message_prepare\<close> builds the bytes to
  send, \<open>message_consume\<close> assembles a frame from the chunks the socket delivers. The dynamic
  dispatch over \<open>Body\<close> is a datatype with one constructor per subclass.
\<close>

datatype body =
    BodyError body_error
  | BodyOptions
  | BodyPrepare body_prepare
  | BodyQuery body_query
  | BodyReady
  | BodyResult body_result
  | BodyStartup body_startup
  | BodySupported body_supported

fun body_opcode :: "body \<Rightarrow> byte" where
  "body_opcode (BodyError _) = CQL_OPCODE_ERROR"
| "body_opcode BodyOptions = CQL_OPCODE_OPTIONS"
| "body_opcode (BodyPrepare _) = CQL_OPCODE_PREPARE"
| "body_opcode (BodyQuery _) = CQL_OPCODE_QUERY"
| "body_opcode BodyReady = CQL_OPCODE_READY"
| "body_opcode (BodyResult _) = CQL_OPCODE_RESULT"
| "body_opcode (BodyStartup _) = CQL_OPCODE_STARTUP"
| "body_opcode (BodySupported _) = CQL_OPCODE_SUPPORTED"

definition with_body :: "('x \<Rightarrow> body) \<Rightarrow> ('x \<times> bool) result \<Rightarrow> (body \<times> bool) result" where
  "with_body con m = bind_result m (\<lambda>(x, ok). Inr (con x, ok))"

fun body_consume :: "char_ptr \<Rightarrow> nat \<Rightarrow> body \<Rightarrow> (body \<times> bool) result" where
  "body_consume buffer sz (BodyError e) = with_body BodyError (body_error_consume buffer sz e)"
| "body_consume buffer sz BodyOptions =
     bind_result (body_options_consume buffer sz) (\<lambda>ok. Inr (BodyOptions, ok))"
| "body_consume buffer sz (BodyPrepare p) = with_body BodyPrepare (body_prepare_consume buffer sz p)"
| "body_consume buffer sz (BodyQuery q) = with_body BodyQuery (body_query_consume buffer sz q)"
| "body_consume buffer sz BodyReady =
     bind_result (body_ready_consume buffer sz) (\<lambda>ok. Inr (BodyReady, ok))"
| "body_consume buffer sz (BodyResult r) = with_body BodyResult (body_result_consume buffer sz r)"
| "body_consume buffer sz (BodyStartup s) = with_body BodyStartup (body_startup_consume buffer sz s)"
| "body_consume buffer sz (BodySupported s) =
     with_body BodySupported (body_supported_consume buffer sz s)"

fun body_prepare_out :: "allocator \<Rightarrow> nat \<Rightarrow> nat \<Rightarrow> body \<Rightarrow> prepared result" where
  "body_prepare_out alloc reserved sz (BodyError e) = body_error_prepare alloc reserved sz e"
| "body_prepare_out alloc reserved sz BodyOptions = body_options_prepare alloc reserved sz"
| "body_prepare_out alloc reserved sz (BodyPrepare p) = body_prepare_prepare alloc reserved sz p"
| "body_prepare_out alloc reserved sz (BodyQuery q) = body_query_prepare alloc reserved sz q"
| "body_prepare_out alloc reserved sz BodyReady = body_ready_prepare alloc reserved sz"
| "body_prepare_out alloc reserved sz (BodyResult r) = body_result_prepare alloc reserved sz r"
| "body_prepare_out alloc reserved sz (BodyStartup s) = body_startup_prepare alloc reserved sz s"
| "body_prepare_out alloc reserved sz (BodySupported s) = body_supported_prepare alloc reserved sz s"

definition CQL_HEADER_SIZE :: nat where
  "CQL_HEADER_SIZE = 8"

text \<open>
  \<open>body_error\<close> is not initialised by the constructors (\<open>None\<close>). \<open>body_buffer_pos\<close> is not
  either, but it is never read before \<open>body_buffer\<close> is set, and starts at 0 here.
\<close>

record message =
  m_version :: byte
  m_flags :: int8
  m_stream :: int8
  m_opcode :: byte
  m_length :: int32
  m_received :: int32
  m_header_received :: bool
  m_header_buffer :: block
  m_header_buffer_pos :: nat
  m_body :: "body option"
  m_body_buffer :: "block option"
  m_body_buffer_pos :: nat
  m_body_ready :: bool
  m_body_error :: "bool option"

definition message_new :: message where
  "message_new =
     \<lparr>m_version = 0x02, m_flags = 0, m_stream = 0, m_opcode = 0, m_length = 0, m_received = 0,
      m_header_received = False, m_header_buffer = replicate CQL_HEADER_SIZE None,
      m_header_buffer_pos = 0, m_body = None, m_body_buffer = None, m_body_buffer_pos = 0,
      m_body_ready = False, m_body_error = None\<rparr>"

definition allocate_body :: "byte \<Rightarrow> body result" where
  "allocate_body opcode =
     (if opcode = CQL_OPCODE_RESULT then Inr (BodyResult body_result_new)
      else if opcode = CQL_OPCODE_PREPARE then Inr (BodyPrepare body_prepare_new)
      else if opcode = CQL_OPCODE_ERROR then Inr (BodyError body_error_new)
      else if opcode = CQL_OPCODE_OPTIONS then Inr BodyOptions
      else if opcode = CQL_OPCODE_STARTUP then Inr (BodyStartup body_startup_new)
      else if opcode = CQL_OPCODE_SUPPORTED then Inr (BodySupported body_supported_new)
      else if opcode = CQL_OPCODE_QUERY then Inr (BodyQuery body_query_new)
      else if opcode = CQL_OPCODE_READY then Inr BodyReady
      else Inl AssertionFailed)"

definition message_make :: "byte \<Rightarrow> message result" where
  "message_make opcode =
     bind_result (allocate_body opcode) (\<lambda>b.
     Inr (message_new\<lparr>m_opcode := opcode, m_body := Some b\<rparr>))"

subsection \<open>prepare\<close>

text \<open>What \<open>prepare\<close> does after \<open>body->prepare\<close> returned its buffer and size.\<close>

definition finish_prepare :: "allocator \<Rightarrow> message \<Rightarrow> prepared \<Rightarrow> (message \<times> block option \<times> nat \<times> bool)
    result" where
  "finish_prepare alloc m = (\<lambda>(out, sz, _).
     let (m, out, sz) =
       (if sz = 0 then (m, Some (new_char alloc CQL_HEADER_SIZE), CQL_HEADER_SIZE)
        else (m\<lparr>m_length := of_nat sz - of_nat CQL_HEADER_SIZE\<rparr>, out, sz)) in
     (case out of
        None \<Rightarrow> Inl Indeterminate
      | Some out \<Rightarrow>
          bind_result (put out 0 [m_version m, m_flags m, m_stream m, m_opcode m]) (\<lambda>(out, pos).
          bind_result (encode_int out pos (m_length m)) (\<lambda>(out, _).
          Inr (m, Some out, sz, True)))))"

definition message_prepare :: "allocator \<Rightarrow> message \<Rightarrow> (message \<times> block option \<times> nat \<times> bool) result" where
  "message_prepare alloc m =
     (case m_body m of
        None \<Rightarrow> Inr (m, None, 0, False)
      | Some b \<Rightarrow> bind_result (body_prepare_out alloc CQL_HEADER_SIZE 0 b) (finish_prepare alloc m))"

subsection \<open>consume\<close>

text \<open>The header is complete: decode it and set up the body. Returns how far the input was read.\<close>

definition consume_header :: "allocator \<Rightarrow> message \<Rightarrow> char_ptr \<Rightarrow> nat \<Rightarrow> (message \<times> nat) result" where
  "consume_header alloc m input sz =
     (let overage = scast (m_received m - of_nat CQL_HEADER_SIZE) :: size_t;
          needed = of_nat sz - overage :: size_t in
      bind_result (load_bytes input (unat needed)) (\<lambda>bs.
      bind_result (put (m_header_buffer m) (m_header_buffer_pos m) bs) (\<lambda>(hb, _).
      bind_result (load_bytes (Ptr hb 0) CQL_HEADER_SIZE) (\<lambda>h.
      let m = m\<lparr>m_header_buffer := hb,
                m_version := h ! 0, m_flags := h ! 1, m_stream := h ! 2, m_opcode := h ! 3,
                m_length := htonl (val32 (take 4 (drop 4 h))),
                m_header_buffer_pos := CQL_HEADER_SIZE, m_header_received := True\<rparr> in
      if sint (m_length m) < 0 then Inl BadAlloc
      else bind_result (allocate_body (m_opcode m)) (\<lambda>b.
        Inr (m\<lparr>m_body_buffer := Some (new_char alloc (nat (sint (m_length m)))),
               m_body_buffer_pos := 0, m_body := Some b\<rparr>, unat needed))))))"

text \<open>The part behind the header, from offset \<open>off\<close> of the input.\<close>

definition consume_body :: "message \<Rightarrow> char_ptr \<Rightarrow> nat \<Rightarrow> nat \<Rightarrow> (int32 \<times> message) result" where
  "consume_body m input sz off =
     (case (m_body_buffer m, m_body m) of
        (Some bb, Some b) \<Rightarrow>
          (if sint (m_received m - of_nat CQL_HEADER_SIZE) \<ge> sint (m_length m)
           then
             (let overage = scast (m_received m - m_length m - of_nat CQL_HEADER_SIZE) :: size_t;
                  needed = (of_nat sz - of_nat off) - overage :: size_t in
              bind_result (load_bytes (ptr_add input off) (unat needed)) (\<lambda>bs.
              bind_result (put bb (m_body_buffer_pos m) bs) (\<lambda>(bb, pos).
              bind_result (body_consume (Ptr bb 0) (nat (sint (m_length m))) b) (\<lambda>(b, ok).
              Inr (of_nat (off + unat needed),
                   m\<lparr>m_body_buffer := Some bb, m_body_buffer_pos := pos, m_body := Some b,
                     m_body_error := (if \<not> ok then Some True else m_body_error m),
                     m_body_ready := True\<rparr>)))))
           else
             bind_result (load_bytes (ptr_add input off) (sz - off)) (\<lambda>bs.
             bind_result (put bb (m_body_buffer_pos m) bs) (\<lambda>(bb, _).
             Inr (of_nat sz,
                  m\<lparr>m_body_buffer := Some bb,
                    m_body_buffer_pos := m_body_buffer_pos m + sz\<rparr>))))
      | _ \<Rightarrow> Inl NullDeref)"

definition message_consume :: "allocator \<Rightarrow> message \<Rightarrow> char_ptr \<Rightarrow> nat \<Rightarrow> (int32 \<times> message) result" where
  "message_consume alloc m input sz =
     (let m = m\<lparr>m_received := m_received m + of_nat sz\<rparr> in
      if \<not> m_header_received m
      then if sint (m_received m) \<ge> int CQL_HEADER_SIZE
           then bind_result (consume_header alloc m input sz) (\<lambda>(m, off). consume_body m input sz off)
           else bind_result (load_bytes input sz) (\<lambda>bs.
                bind_result (put (m_header_buffer m) (m_header_buffer_pos m) bs) (\<lambda>(hb, pos).
                Inr (of_nat sz, m\<lparr>m_header_buffer := hb, m_header_buffer_pos := pos\<rparr>)))
      else consume_body m input sz 0)"

subsection \<open>Frames\<close>

definition wire_header :: "byte \<Rightarrow> int8 \<Rightarrow> int8 \<Rightarrow> byte \<Rightarrow> int32 \<Rightarrow> bytes" where
  "wire_header version flags stream opcode len = [version, flags, stream, opcode] @ be32 len"

definition message_header :: "message \<Rightarrow> int32 \<Rightarrow> bytes" where
  "message_header m len = wire_header (m_version m) (m_flags m) (m_stream m) (m_opcode m) len"

lemma length_header [simp]: "length (wire_header v f s c len) = 8"
  "length (message_header m len) = 8"
  by (simp_all add: wire_header_def message_header_def)

text \<open>The payload of the bodies that can be sent.\<close>

fun body_payload :: "body \<Rightarrow> bytes" where
  "body_payload (BodyError e) = wire_error (err_code e) (error_text e)"
| "body_payload (BodyPrepare p) = wire_long_string (prep_prepare p)"
| "body_payload (BodyQuery q) = wire_query q"
| "body_payload (BodyStartup s) = wire_string_map (startup_options s)"
| "body_payload _ = []"

text \<open>
  A side condition of lemmas: the bodies whose \<open>prepare\<close> keeps the payload contract
  \<open>payload_body\<close>. The property of \<open>prepare\<close> below covers all bodies.
\<close>

fun body_ok :: "body \<Rightarrow> bool" where
  "body_ok (BodyError e) = error_ok e"
| "body_ok (BodyPrepare p) = True"
| "body_ok (BodyQuery q) = query_ok q"
| "body_ok (BodyStartup s) = True"
| "body_ok _ = False"

lemma finish_prepare_put:
  "finish_prepare alloc m (Some out, 8 + k, ok) =
     bind_result (put out 0 (message_header m (of_nat k))) (\<lambda>(out, _).
       Inr (m\<lparr>m_length := of_nat k\<rparr>, Some out, 8 + k, True))"
  by (simp add: finish_prepare_def CQL_HEADER_SIZE_def wire message_header_def wire_header_def)

lemma finish_prepare_framed:
  "finish_prepare alloc m (Some (framed alloc n 8 bs), 8 + k, True) =
     Inr (m\<lparr>m_length := of_nat k\<rparr>,
          Some (framed alloc n 0 (message_header m (of_nat k) @ bs)), 8 + k, True)"
  using put_framed_head [of "message_header m (of_nat k)" 8 alloc n bs]
  by (simp add: finish_prepare_put)

context payload_body
begin

lemma prepare_frame:
  assumes "ok x" and "\<And>n. n \<le> alloc n"
  shows "bind_result (prep alloc CQL_HEADER_SIZE 0 x) (finish_prepare alloc m) =
     Inr (m\<lparr>m_length := of_nat (length (payload x))\<rparr>,
          Some (framed alloc (8 + length (payload x)) 0
            (message_header m (of_nat (length (payload x))) @ payload x)),
          8 + length (payload x), True)"
  using prep_payload [OF assms, of 8 0] by (simp add: CQL_HEADER_SIZE_def finish_prepare_framed)

end

lemma message_prepare_sends:
  assumes "m_body m = Some b" and "body_ok b" and "\<And>n. n \<le> alloc n"
  shows "message_prepare alloc m =
     Inr (m\<lparr>m_length := of_nat (length (body_payload b))\<rparr>,
          Some (framed alloc (8 + length (body_payload b)) 0
            (message_header m (of_nat (length (body_payload b))) @ body_payload b)),
          8 + length (body_payload b), True)"
  using assms
  by (cases b)
    (simp_all add: message_prepare_def error_payload.prepare_frame prepare_payload.prepare_frame
      query_payload.prepare_frame startup_payload.prepare_frame)

subsection \<open>Assembling a frame\<close>

text \<open>The part \<open>h\<close> of a header has arrived.\<close>

definition header_partial :: "message \<Rightarrow> bytes \<Rightarrow> bool" where
  "header_partial m h \<longleftrightarrow>
     length h < 8 \<and> \<not> m_header_received m \<and> m_received m = of_nat (length h) \<and>
     m_header_buffer m = map Some h @ replicate (8 - length h) None \<and>
     m_header_buffer_pos m = length h"

lemma header_partial_new: "header_partial message_new []"
  by (simp add: header_partial_def message_new_def CQL_HEADER_SIZE_def)

text \<open>A chunk that ends inside the header is stored and consumed completely.\<close>

lemma message_consume_header_part:
  assumes m: "header_partial m h" and P: "points_to P c" and len: "length h + length c < 8"
  shows "\<exists>m'. message_consume alloc m P (length c) = Inr (of_nat (length c), m') \<and> header_partial m' (h @ c)
     \<and> m_body_error m' = m_body_error m \<and> m_body_ready m' = m_body_ready m"
proof -
  have "put (m_header_buffer m) (m_header_buffer_pos m) c =
      Inr (map Some (h @ c) @ replicate (8 - length (h @ c)) None, length (h @ c))"
    using m len by (simp add: header_partial_def put_def)
  moreover have "sint (m_received m + of_nat (length c)) = int (length h + length c)"
    using m len sint_of_nat_32 [of "length h + length c"] by (simp add: header_partial_def)
  ultimately show ?thesis
    using m len load_points_to [OF P]
    by (simp add: message_consume_def Let_def header_partial_def CQL_HEADER_SIZE_def)
qed

text \<open>The message behind its header.\<close>

definition header_done :: "allocator \<Rightarrow> message \<Rightarrow> bytes \<Rightarrow> nat \<Rightarrow> body \<Rightarrow> message" where
  "header_done alloc m h n b =
     m\<lparr>m_header_buffer := map Some h, m_version := h ! 0, m_flags := h ! 1, m_stream := h ! 2,
       m_opcode := h ! 3, m_length := of_nat n, m_header_buffer_pos := 8, m_header_received := True,
       m_body_buffer := Some (new_char alloc n), m_body_buffer_pos := 0, m_body := Some b\<rparr>"

lemma received_split:
  assumes "length h + length c = 8"
  shows "of_nat (length h) + of_nat (length c + k) - of_nat CQL_HEADER_SIZE = (of_nat k :: int32)"
proof -
  have "of_nat (length h) + of_nat (length c + k) = (of_nat (8 + k) :: int32)"
    using assms by (simp only: of_nat_add [symmetric] add.assoc [symmetric])
  then show ?thesis unfolding CQL_HEADER_SIZE_def by (simp only:) simp
qed

lemma consume_header_eq:
  assumes m: "header_partial m h" and hc: "h @ c = wire_header v f s op len"
    and P: "points_to P c" and sz: "sz = length c + k" and k: "k < 2147483648"
  shows "consume_header alloc (m\<lparr>m_received := m_received m + of_nat sz\<rparr>) P sz =
     (if sint len < 0 then Inl BadAlloc
      else bind_result (allocate_body op) (\<lambda>b.
        Inr (header_done alloc (m\<lparr>m_received := m_received m + of_nat sz\<rparr>) (h @ c) (nat (sint len)) b,
             length c)))"
proof -
  have len: "length h + length c = 8"
    using arg_cong [OF hc, of length] by simp
  let ?needed = "of_nat sz - scast (m_received m + of_nat sz - of_nat CQL_HEADER_SIZE) :: size_t"
  have rec: "m_received m + of_nat sz - of_nat CQL_HEADER_SIZE = of_nat k"
    using m received_split [OF len, of k] unfolding header_partial_def sz by simp
  have "?needed = of_nat (length c)"
    unfolding rec scast_of_nat [OF k] by (simp add: sz)
  then have needed: "unat ?needed = length c"
    using len by simp
  obtain H where H: "h @ c = H" by simp
  have put: "put (m_header_buffer m) (m_header_buffer_pos m) c = Inr (map Some H, 8)"
    using m len by (simp add: header_partial_def put_def flip: H)
  have "load_bytes (Ptr (map Some H) 0) CQL_HEADER_SIZE = Inr H"
    using len by (simp add: load_bytes_iff CQL_HEADER_SIZE_def flip: H)
  moreover have "htonl (val32 (take 4 (drop 4 H))) = len" and "H ! 3 = op"
    using hc by (simp_all add: H wire_header_def ntoh_be)
  ultimately show ?thesis
    using load_points_to [OF P]
    by (simp add: consume_header_def Let_def needed put header_done_def H
        del: load_bytes.simps) (simp add: CQL_HEADER_SIZE_def)
qed

lemma consume_header_reads:
  assumes "header_partial m h" and "h @ c = wire_header v f s op (of_nat n)"
    and "points_to P c" and "n < 2147483648" and "allocate_body op = Inr b"
    and "sz = length c + k" and "k < 2147483648"
  shows "consume_header alloc (m\<lparr>m_received := m_received m + of_nat sz\<rparr>) P sz =
     Inr (header_done alloc (m\<lparr>m_received := m_received m + of_nat sz\<rparr>) (h @ c) n b, length c)"
  using consume_header_eq [OF assms(1-3,6,7)] assms(4,5) by (simp add: sint_of_nat_32)

text \<open>
  The chunk that completes the header and brings the whole body: the body is parsed from its
  bytes, and exactly the bytes of this frame are taken from the chunk.
\<close>

definition frame_done :: "message \<Rightarrow> block \<Rightarrow> nat \<Rightarrow> body \<Rightarrow> bool \<Rightarrow> message" where
  "frame_done m bb n b ok =
     m\<lparr>m_body_buffer := Some bb, m_body_buffer_pos := n, m_body := Some b,
       m_body_error := (if \<not> ok then Some True else m_body_error m), m_body_ready := True\<rparr>"

lemma message_consume_frame:
  assumes m: "header_partial m h" and hc: "h @ c = wire_header v f s op (of_nat (length bs))"
    and P: "points_to P (c @ bs @ rest)" and op: "allocate_body op = Inr b"
    and len: "8 + length bs + length rest < 2147483648" and alloc: "\<And>n. n \<le> alloc n"
    and sz: "sz = length (c @ bs @ rest)"
  shows "message_consume alloc m P sz =
     bind_result (body_consume (Ptr (framed alloc (length bs) 0 bs) 0) (length bs) b) (\<lambda>(b', ok).
     Inr (of_nat (length (c @ bs)),
       frame_done (header_done alloc (m\<lparr>m_received := m_received m + of_nat sz\<rparr>) (h @ c) (length bs) b)
         (framed alloc (length bs) 0 bs) (length bs) b' ok))"
proof -
  have lhc: "length h + length c = 8"
    using arg_cong [OF hc, of length] by simp
  let ?k = "length bs + length rest"
  let ?m = "m\<lparr>m_received := m_received m + of_nat sz\<rparr>"
  have sz': "sz = length c + ?k" by (simp add: sz)
  have c: "points_to P c" and bs: "points_to (ptr_add P (length c)) bs"
    using P by simp_all
  have hdr: "consume_header alloc ?m P sz = Inr (header_done alloc ?m (h @ c) (length bs) b, length c)"
    using consume_header_reads [OF m hc c _ op sz'] len by simp
  have rec: "m_received m + of_nat sz - of_nat CQL_HEADER_SIZE = of_nat ?k"
    using m received_split [OF lhc, of ?k] by (simp add: header_partial_def sz')
  have rec8: "m_received m + of_nat sz = of_nat (8 + ?k)"
    using rec by (simp add: CQL_HEADER_SIZE_def algebra_simps)
  have ge: "sint (m_received m + of_nat sz) \<ge> int CQL_HEADER_SIZE"
    using len unfolding rec8 by (subst sint_of_nat_32) (simp_all add: CQL_HEADER_SIZE_def)
  have ge2: "sint (of_nat (length bs) :: int32) \<le> sint (m_received m + of_nat sz - of_nat CQL_HEADER_SIZE)"
    using len unfolding rec by (subst (1 2) sint_of_nat_32) simp_all
  have "m_received m + of_nat sz - of_nat (length bs) - of_nat CQL_HEADER_SIZE = of_nat (length rest)"
    using rec by (simp add: algebra_simps)
  then have needed: "(of_nat sz - of_nat (length c)) -
       scast (m_received m + of_nat sz - of_nat (length bs) - of_nat CQL_HEADER_SIZE) =
         (of_nat (length bs) :: size_t)"
    using len by (simp only:) (simp add: scast_of_nat sz')
  have cast: "ucast (of_nat (length bs) :: size_t) = (of_nat (length bs) :: int32)"
    using len by (simp add: unsigned_of_nat take_bit_nat_eq_self)
  have "\<not> m_header_received m" using m by (simp add: header_partial_def)
  then show ?thesis
    using hdr ge ge2 len load_points_to [OF bs] alloc [of "length bs"]
    by (simp add: message_consume_def Let_def consume_body_def header_done_def
        needed cast put_new_char sint_of_nat_32 frame_done_def case_prod_unfold cong: if_cong)
qed

subsection \<open>Chunks\<close>

text \<open>
  The chunks of one frame, each in a block of its own, given to \<open>consume\<close> one after the other;
  the result is the count of the last call and the message.
\<close>

fun feed :: "allocator \<Rightarrow> message \<Rightarrow> bytes list \<Rightarrow> (int32 \<times> message) result" where
  "feed alloc m [] = Inr (0, m)"
| "feed alloc m [c] = message_consume alloc m (Ptr (map Some c) 0) (length c)"
| "feed alloc m (c # cs) =
     bind_result (message_consume alloc m (Ptr (map Some c) 0) (length c)) (\<lambda>(_, m). feed alloc m cs)"

lemma feed_Cons:
  "cs \<noteq> [] \<Longrightarrow> feed alloc m (c # cs) =
     bind_result (message_consume alloc m (Ptr (map Some c) 0) (length c)) (\<lambda>(_, m). feed alloc m cs)"
  by (cases cs) simp_all

text \<open>Chunks that end inside the header only extend the header buffer.\<close>

lemma feed_header_parts:
  assumes "header_partial m h" and "length h + length (concat hs) < 8" and "cs \<noteq> []"
  shows "\<exists>m'. header_partial m' (h @ concat hs) \<and> m_body_error m' = m_body_error m
     \<and> feed alloc m (hs @ cs) = feed alloc m' cs"
  using assms(1,2)
proof (induction hs arbitrary: m h)
  case Nil
  then show ?case by auto
next
  case (Cons c hs)
  obtain m1 where "message_consume alloc m (Ptr (map Some c) 0) (length c) = Inr (of_nat (length c), m1)"
    "header_partial m1 (h @ c)" "m_body_error m1 = m_body_error m"
    using message_consume_header_part [OF Cons.prems(1), of "Ptr (map Some c) 0" c alloc] Cons.prems(2)
    by auto
  with Cons.IH [of m1 "h @ c"] Cons.prems(2) show ?case
    using assms(3) by (auto simp: feed_Cons)
qed

text \<open>A frame in pieces of its header and one chunk with the rest.\<close>

lemma feed_frame:
  assumes "concat hs @ c = wire_header v f s op (of_nat (length bs))" and "c \<noteq> []"
    and "allocate_body op = Inr b" and "8 + length bs + length rest < 2147483648"
    and "\<And>n. n \<le> alloc n"
    and "body_consume (Ptr (framed alloc (length bs) 0 bs) 0) (length bs) b = Inr (b', True)"
  shows "\<exists>m. feed alloc message_new (hs @ [c @ bs @ rest]) = Inr (of_nat (length (c @ bs)), m)
     \<and> m_version m = v \<and> m_flags m = f \<and> m_stream m = s \<and> m_opcode m = op
     \<and> m_length m = of_nat (length bs) \<and> m_body m = Some b' \<and> m_body_ready m \<and> m_body_error m = None"
proof -
  have "length (concat hs) < 8"
    using arg_cong [OF assms(1), of length] assms(2) by (cases c) simp_all
  with feed_header_parts [OF header_partial_new, of hs "[c @ bs @ rest]" alloc]
  obtain m where m: "header_partial m (concat hs)" "m_body_error m = None"
    and feed: "feed alloc message_new (hs @ [c @ bs @ rest]) = feed alloc m [c @ bs @ rest]"
    by (auto simp: message_new_def)
  have P: "points_to (Ptr (map Some (c @ bs @ rest)) 0) (c @ bs @ rest)" by simp
  show ?thesis
    unfolding feed feed.simps
      message_consume_frame [OF m(1) assms(1) P assms(3,4) assms(5) refl] assms(6)
    using m(2) by (simp add: frame_done_def header_done_def assms(1)) (simp add: wire_header_def)
qed

subsection \<open>A body in more than one chunk\<close>

text \<open>
  After the chunk that completes the header without the whole body, the write position is ahead
  of the \<open>k\<close> bytes received by the \<open>d\<close> header bytes of that chunk.
\<close>

definition body_ahead :: "message \<Rightarrow> nat \<Rightarrow> nat \<Rightarrow> nat \<Rightarrow> bool" where
  "body_ahead m n d k \<longleftrightarrow>
     m_header_received m \<and> n < 2147483640 \<and> k < n \<and> m_received m = of_nat (8 + k) \<and>
     m_length m = of_nat n \<and> m_body m \<noteq> None \<and>
     (\<exists>bb. m_body_buffer m = Some bb \<and> length bb = n) \<and> m_body_buffer_pos m = d + k"

lemma message_consume_header_end:
  assumes m: "header_partial m h" and hc: "h @ c = wire_header v f s op (of_nat n)"
    and P: "points_to P (c @ bs)" and op: "allocate_body op = Inr b"
    and n: "n < 2147483648" and bs: "length bs < n" "length bs < 2147483640" and alloc: "n \<le> alloc n"
    and sz: "sz = length (c @ bs)"
  shows "message_consume alloc m P sz =
     Inr (of_nat sz,
       (header_done alloc (m\<lparr>m_received := of_nat (8 + length bs)\<rparr>) (h @ c) n b)
         \<lparr>m_body_buffer := Some (framed alloc n 0 bs), m_body_buffer_pos := sz\<rparr>)"
proof -
  have lhc: "length h + length c = 8"
    using arg_cong [OF hc, of length] by simp
  let ?m = "m\<lparr>m_received := m_received m + of_nat (length (c @ bs))\<rparr>"
  have hdr: "consume_header alloc ?m P (length (c @ bs)) =
      Inr (header_done alloc ?m (h @ c) n b, length c)"
    using P n bs by (intro consume_header_reads [OF m hc _ _ op, where k = "length bs"]) simp_all
  obtain R where R: "R = (of_nat (8 + length bs) :: int32)" by simp
  have rec: "m_received m + of_nat (length (c @ bs)) = R"
    using m lhc by (simp add: R header_partial_def flip: of_nat_add) (simp flip: add.assoc)
  have rec': "R - of_nat CQL_HEADER_SIZE = of_nat (length bs)"
    by (simp add: R CQL_HEADER_SIZE_def)
  have cmp: "int CQL_HEADER_SIZE \<le> sint R"
    using bs unfolding R by (subst sint_of_nat_32) (simp_all add: CQL_HEADER_SIZE_def)
  have load: "load_bytes (ptr_add P (length c)) (length bs) = Inr bs"
    using P by (simp add: load_points_to)
  have put: "put (new_char alloc n) 0 bs = Inr (framed alloc n 0 bs, length bs)"
    using bs alloc put_new_char [of 0 bs alloc n] by simp
  have "\<not> m_header_received m" using m by (simp add: header_partial_def)
  moreover have "sint (of_nat n :: int32) = int n" "sint (of_nat (length bs) :: int32) = int (length bs)"
    using n bs by (simp_all add: sint_of_nat_32)
  ultimately show ?thesis
    using hdr cmp load put n bs
    unfolding message_consume_def Let_def sz rec
    by (simp add: consume_body_def header_done_def Let_def rec'(1)) (simp add: R)
qed

lemma body_ahead_header_end:
  "length bs < n \<Longrightarrow> n < 2147483640 \<Longrightarrow>
     body_ahead ((header_done (\<lambda>n. n) (m\<lparr>m_received := of_nat (8 + length bs)\<rparr>) h n b)
       \<lparr>m_body_buffer := Some (framed (\<lambda>n. n) n 0 bs), m_body_buffer_pos := d + length bs\<rparr>) n d (length bs)"
  by (simp add: body_ahead_def header_done_def)

lemma message_consume_ahead:
  assumes m: "body_ahead m n d k" and P: "points_to P c" and d: "0 < d"
  shows "k + length c < n \<Longrightarrow> message_consume alloc m P (length c) = Inl OutOfBounds
      \<or> (\<exists>m'. message_consume alloc m P (length c) = Inr (of_nat (length c), m')
          \<and> body_ahead m' n d (k + length c))"
    and "k + length c = n \<Longrightarrow> message_consume alloc m P (length c) = Inl OutOfBounds"
proof -
  from m obtain bb b where bb: "m_body_buffer m = Some bb" "length bb = n" "m_body m = Some b"
    by (auto simp: body_ahead_def)
  have n: "n < 2147483640" "k < n" and pos: "m_body_buffer_pos m = d + k" "m_header_received m"
    "m_length m = of_nat n"
    using m by (simp_all add: body_ahead_def)
  obtain R where R: "R = (of_nat (8 + (k + length c)) :: int32)" by simp
  have rec: "m_received m + of_nat (length c) = R"
    using m by (simp add: R body_ahead_def)
  have rec': "R - of_nat CQL_HEADER_SIZE = of_nat (k + length c)"
    "R - of_nat (k + length c) - of_nat CQL_HEADER_SIZE = 0"
    by (simp_all only: R CQL_HEADER_SIZE_def) simp_all
  have s: "sint (of_nat n :: int32) = int n"
    "k + length c \<le> n \<Longrightarrow> sint (of_nat (k + length c) :: int32) = int (k + length c)"
    using n by (simp_all only: sint_of_nat_32)
  show "message_consume alloc m P (length c) = Inl OutOfBounds" if "k + length c = n"
    using bb pos load_points_to [OF P] rec' [unfolded that] s(1) n d that
    unfolding message_consume_def Let_def rec
    by (simp add: consume_body_def Let_def put_def)
  show "message_consume alloc m P (length c) = Inl OutOfBounds
      \<or> (\<exists>m'. message_consume alloc m P (length c) = Inr (of_nat (length c), m')
          \<and> body_ahead m' n d (k + length c))" if "k + length c < n"
    using bb pos load_points_to [OF P] rec'(1) s n that
    unfolding message_consume_def Let_def rec
    by (simp add: consume_body_def put_def) (simp add: R body_ahead_def)
qed

lemma feed_ahead:
  assumes "body_ahead m n d k" and "0 < d" and "k + length (concat cs) = n"
  shows "feed alloc m cs = Inl OutOfBounds"
  using assms(1,3)
proof (induction cs arbitrary: m k)
  case Nil
  then show ?case by (simp add: body_ahead_def)
next
  case (Cons c cs)
  note step = message_consume_ahead [OF Cons.prems(1) _ assms(2), of "Ptr (map Some c) 0" c alloc]
  show ?case
  proof (cases "k + length c = n")
    case True
    then show ?thesis using step(2) by (cases cs) simp_all
  next
    case False
    then have less: "k + length c < n" and ne: "cs \<noteq> []" using Cons.prems(2) by auto
    from step(1) [OF _ less] show ?thesis
      using Cons.IH [of _ "k + length c"] Cons.prems(2) by (auto simp: feed_Cons [OF ne])
  qed
qed

lemma feed_split_body:
  assumes hc: "concat hs @ c = wire_header v f s op (of_nat (length bs))" and "c \<noteq> []"
    and op: "allocate_body op = Inr b" and n: "length bs < 2147483640"
    and bs: "b1 @ concat bss = bs" "b1 \<noteq> bs"
  shows "feed (\<lambda>n. n) message_new (hs @ (c @ b1) # bss) = Inl OutOfBounds"
proof -
  have "length (concat hs) < 8"
    using arg_cong [OF hc, of length] assms(2) by (cases c) simp_all
  with feed_header_parts [OF header_partial_new, of hs "(c @ b1) # bss" "\<lambda>n. n"]
  obtain m where m: "header_partial m (concat hs)"
    and feed: "feed (\<lambda>n. n) message_new (hs @ (c @ b1) # bss) = feed (\<lambda>n. n) m ((c @ b1) # bss)"
    by auto
  have "bss \<noteq> []" and less: "length b1 < length bs"
    using bs by (cases "concat bss"; auto)+
  moreover obtain m' where
    "message_consume (\<lambda>n. n) m (Ptr (map Some (c @ b1)) 0) (length (c @ b1)) =
      Inr (of_nat (length (c @ b1)), m')"
    "body_ahead m' (length bs) (length c) (length b1)"
    using message_consume_header_end [OF m hc _ op _ less, of "Ptr (map Some (c @ b1)) 0"
        "\<lambda>n. n" "length (c @ b1)"] body_ahead_header_end [OF less n] n less
    by auto
  moreover have "length b1 + length (concat bss) = length bs"
    using bs(1) by (metis length_append)
  ultimately show ?thesis
    using feed feed_ahead [of m' "length bs" "length c" "length b1" bss "\<lambda>n. n"] assms(2)
    by (simp add: feed_Cons)
qed

subsection \<open>Sending and receiving\<close>

lemma framed_bytes: "map the (take (length bs) (framed alloc n 0 bs)) = bs"
  by (simp add: framed_def comp_def)

lemma prepare_then_feed:
  assumes b: "m_body m = Some b" "body_ok b" and alloc: "\<And>n. n \<le> alloc n"
    and n: "n = length (body_payload b)" "n < 1073741824"
    and op: "allocate_body (m_opcode m) = Inr b0"
    and dec: "body_consume (Ptr (framed alloc n 0 (body_payload b)) 0) n b0 = Inr (b', True)"
  shows "\<exists>m1 out. message_prepare alloc m = Inr (m1, Some out, 8 + n, True) \<and>
    (\<forall>hs last rest. concat hs @ last = map the (take (8 + n) out) \<longrightarrow> length (concat hs) < 8 \<longrightarrow>
       length rest < 1073741816 \<longrightarrow>
       (\<exists>m2. feed alloc message_new (hs @ [last @ rest]) = Inr (of_nat (length last), m2) \<and>
          m_version m2 = m_version m \<and> m_flags m2 = m_flags m \<and> m_stream m2 = m_stream m \<and>
          m_opcode m2 = m_opcode m \<and> m_body m2 = Some b' \<and> m_body_ready m2 \<and>
          m_body_error m2 = None))"
proof -
  let ?h = "message_header m (of_nat n)"
  let ?out = "framed alloc (8 + n) 0 (?h @ body_payload b)"
  have bytes: "map the (take (8 + n) ?out) = ?h @ body_payload b"
    using framed_bytes [of "?h @ body_payload b" alloc "8 + n"] n by simp
  have "\<exists>m2. feed alloc message_new (hs @ [last @ rest]) = Inr (of_nat (length last), m2) \<and>
      m_version m2 = m_version m \<and> m_flags m2 = m_flags m \<and> m_stream m2 = m_stream m \<and>
      m_opcode m2 = m_opcode m \<and> m_body m2 = Some b' \<and> m_body_ready m2 \<and> m_body_error m2 = None"
    if cut: "concat hs @ last = ?h @ body_payload b" "length (concat hs) < 8"
      and rest: "length rest < 1073741816" for hs last rest
  proof -
    from cut obtain c where c: "last = c @ body_payload b" "concat hs @ c = ?h"
      by (auto simp: append_eq_append_conv2)
    moreover have "c \<noteq> []" using c(2) cut(2) arg_cong [OF c(2), of length] by (cases c) simp_all
    ultimately show ?thesis
      using feed_frame [of hs c "m_version m" "m_flags m" "m_stream m" "m_opcode m"
          "body_payload b" b0 rest alloc b'] op alloc dec n rest
      by (auto simp: message_header_def)
  qed
  with message_prepare_sends [OF b alloc] n(1) bytes show ?thesis
    by auto
qed

lemma allocate_body_known:
  "allocate_body op = Inl AssertionFailed \<longleftrightarrow> op \<notin> {0, 1, 2, 5, 6, 7, 8, 9}"
  by (auto simp: allocate_body_def opcode_defs)

lemma message_consume_header_fault:
  assumes m: "header_partial m h" and hc: "h @ c = wire_header v f s op len"
    and P: "points_to P c" and sz: "sz = length c + k" and k: "k < 2147483640"
    and bad: "consume_header alloc (m\<lparr>m_received := m_received m + of_nat sz\<rparr>) P sz = Inl e"
  shows "message_consume alloc m P sz = Inl e"
proof -
  have len: "length h + length c = 8"
    using arg_cong [OF hc, of length] by simp
  have "m_received m + of_nat sz = of_nat (8 + k)"
    using m len by (simp add: header_partial_def sz flip: of_nat_add) (simp flip: add.assoc)
  then have "sint (m_received m + of_nat sz) = int (8 + k)"
    using k by (simp only:) (simp add: sint_of_nat_32 del: of_nat_add)
  with m bad show ?thesis
    by (simp add: message_consume_def Let_def header_partial_def CQL_HEADER_SIZE_def)
qed

subsection \<open>Properties\<close>

definition sample_startup :: message where
  "sample_startup = message_new\<lparr>m_opcode := CQL_OPCODE_STARTUP, m_body :=
      Some (BodyStartup body_startup_new)\<rparr>"

lemma sample_startup_fields [simp]:
  "m_opcode sample_startup = CQL_OPCODE_STARTUP"
  "m_body sample_startup = Some (BodyStartup body_startup_new)"
  by (simp_all add: sample_startup_def)

text \<open>
  \<open>BodyOptions\<close> and \<open>BodyReady\<close> allocate their buffer with the incoming size, which
  \<open>Message::prepare\<close> sets to 0. The eight header bytes therefore fit only when the allocator
  happens to return eight bytes for \<open>new char[0]\<close>; with an exact allocator the header is
  written out of bounds.
\<close>

lemma message_prepare_no_payload:
  "b \<in> {BodyOptions, BodyReady} \<Longrightarrow>
   message_prepare alloc (m\<lparr>m_body := Some b\<rparr>) =
     (if 8 \<le> alloc 0
      then Inr (m\<lparr>m_body := Some b, m_length := 0\<rparr>,
                Some (framed alloc 0 0 (message_header m 0)), 8, True)
      else Inl OutOfBounds)"
  using finish_prepare_put [of alloc "m\<lparr>m_body := Some b\<rparr>" "new_char alloc 0" 0]
    put_new_char [of 0 "message_header m 0" alloc 0]
  by (auto simp: message_prepare_def body_options_prepare_def body_ready_prepare_def
      CQL_HEADER_SIZE_def message_header_def put_def)

text \<open>
  What \<open>prepare\<close> makes of a message with a body, without the steps: the new length field, the size
  asked for the buffer, the reported size, and the bytes written at the start of the buffer.
  \<open>BodySupported\<close> and \<open>BodyResult\<close> cannot be sent and report no size, so the buffer
  gets a header with the length field the message had. A serial consistency is counted twice.
\<close>

record sent_frame =
  sf_length :: int32
  sf_room :: nat
  sf_size :: nat
  sf_bytes :: bytes

definition uncounted :: "body \<Rightarrow> nat" where
  "uncounted b = (case b of BodyQuery q \<Rightarrow> if q_serial_consistent q then 2 else 0 | _ \<Rightarrow> 0)"

definition payload_frame :: "message \<Rightarrow> body \<Rightarrow> sent_frame" where
  "payload_frame m b =
     (let n = length (body_payload b) + uncounted b in
      \<lparr>sf_length = of_nat n, sf_room = 8 + n, sf_size = 8 + n,
       sf_bytes = message_header m (of_nat n) @ body_payload b\<rparr>)"

fun frame_of :: "message \<Rightarrow> body \<Rightarrow> sent_frame" where
  "frame_of m BodyOptions = \<lparr>sf_length = 0, sf_room = 0, sf_size = 8, sf_bytes = message_header m 0\<rparr>"
| "frame_of m BodyReady = \<lparr>sf_length = 0, sf_room = 0, sf_size = 8, sf_bytes = message_header m 0\<rparr>"
| "frame_of m (BodySupported s) =
     \<lparr>sf_length = m_length m, sf_room = 8, sf_size = 8, sf_bytes = message_header m (m_length m)\<rparr>"
| "frame_of m (BodyResult r) =
     \<lparr>sf_length = m_length m, sf_room = 8, sf_size = 8, sf_bytes = message_header m (m_length m)\<rparr>"
| "frame_of m b = payload_frame m b"

text \<open>The memory that the text of an error, or the bound values of a query, point to can be read.\<close>

fun body_readable :: "body \<Rightarrow> bool" where
  "body_readable (BodyError e) \<longleftrightarrow> value_ok (err_message e, unat (err_message_size e))"
| "body_readable (BodyQuery q) \<longleftrightarrow> list_all value_ok (q_values q)"
| "body_readable _ \<longleftrightarrow> True"

lemma body_error_prepare_eq:
  assumes "value_ok (err_message e, unat (err_message_size e))" and "\<And>n. n \<le> alloc n"
  shows "body_error_prepare alloc r sz e =
     Inr (Some (framed alloc (r + length (wire_error (err_code e) (error_text e))) r
            (wire_error (err_code e) (error_text e))),
          r + length (wire_error (err_code e) (error_text e)), True)"
proof -
  obtain s where s: "load_bytes (err_message e) (unat (err_message_size e)) = Inr s"
    using assms(1) by (auto simp: value_ok_def split: sum.splits)
  then have etext: "error_text e = s" by (simp add: error_text_def)
  have len: "unat (err_message_size e) = length s" and P: "points_to (err_message e) s"
    using s by (simp_all add: load_bytes_iff)
  show ?thesis
    using assms(2) [of "r + (4 + (2 + length s))"] encode_string_put [OF P]
    by (simp add: body_error_prepare_def wire_error_def wire etext len add.assoc Let_def)
qed

lemma body_error_prepare_unreadable:
  assumes "\<not> value_ok (err_message e, unat (err_message_size e))"
  shows "fails (body_error_prepare alloc r sz e)"
proof -
  have load: "fails (load_bytes (err_message e) (unat (err_message_size e)))"
    using assms by (auto simp: fails_def value_ok_def split: sum.splits)
  show ?thesis
    unfolding body_error_prepare_def encode_string_def Let_def case_prod_unfold
    by (rule fails_bind(2), rule fails_bind(1), rule fails_bind(2), rule fails_bind(1)) (simp add: load)
qed

lemma body_prepare_out_unreadable:
  "\<not> body_readable b \<Longrightarrow> fails (body_prepare_out alloc r sz b)"
  by (cases b) (simp_all add: body_error_prepare_unreadable body_query_prepare_unreadable)

lemma finish_payload:
  assumes "body_prepare_out alloc 8 0 b = Inr (Some (framed alloc (8 + n) 8 (body_payload b)), 8 + n, True)"
    and "n = length (body_payload b) + uncounted b" and "m_body m = Some b"
  shows "message_prepare alloc m = Inr (m\<lparr>m_length := sf_length (payload_frame m b)\<rparr>,
     Some (framed alloc (sf_room (payload_frame m b)) 0 (sf_bytes (payload_frame m b))),
     sf_size (payload_frame m b), True)"
  using assms by (simp add: message_prepare_def CQL_HEADER_SIZE_def finish_prepare_framed
      payload_frame_def Let_def)

lemma message_prepare_frame_of:
  assumes b: "m_body m = Some b" and ok: "body_readable b" and alloc: "\<And>n. n \<le> alloc n"
  shows "message_prepare alloc m =
     (let f = frame_of m b in
      if length (sf_bytes f) \<le> alloc (sf_room f)
      then Inr (m\<lparr>m_length := sf_length f\<rparr>, Some (framed alloc (sf_room f) 0 (sf_bytes f)),
                sf_size f, True)
      else Inl OutOfBounds)"
proof -
  have m: "m\<lparr>m_body := Some b\<rparr> = m" using b by (cases m) simp
  have fits: "length (sf_bytes (payload_frame m b)) \<le> alloc (sf_room (payload_frame m b))"
    using alloc [of "8 + (length (body_payload b) + uncounted b)"] by (simp add: payload_frame_def Let_def)
  have header: "finish_prepare alloc m (None, 0, False) =
      Inr (m, Some (framed alloc 8 0 (message_header m (m_length m))), 8, True)"
    using put_new_char [of 0 "message_header m (m_length m)" alloc 8] alloc [of 8]
    by (simp add: finish_prepare_def CQL_HEADER_SIZE_def wire message_header_def wire_header_def
        del: put_new_char)
  show ?thesis
  proof (cases b)
    case (BodyError e)
    then show ?thesis
      using body_error_prepare_eq [of e alloc 8 0] ok fits
        finish_payload [OF _ refl b, of alloc] alloc by (simp add: uncounted_def Let_def)
  next
    case BodyOptions
    then show ?thesis using message_prepare_no_payload [of b alloc m] m by (simp add: Let_def)
  next
    case (BodyPrepare p)
    then show ?thesis
      using prepare_payload.prep_payload [OF _ alloc, where x = p and r = 8 and sz = 0] fits
        finish_payload [OF _ refl b, of alloc] by (simp add: uncounted_def Let_def)
  next
    case (BodyQuery q)
    then show ?thesis
      using body_query_prepare_eq [OF _ alloc refl, of q 8 0] ok fits
        finish_payload [OF _ refl b, of alloc] by (simp add: uncounted_def Let_def add.assoc)
  next
    case BodyReady
    then show ?thesis using message_prepare_no_payload [of b alloc m] m by (simp add: Let_def)
  next
    case (BodyResult r)
    then show ?thesis
      using header alloc [of 8] b
      by (simp add: message_prepare_def body_result_prepare_def CQL_HEADER_SIZE_def Let_def)
  next
    case (BodyStartup s)
    then show ?thesis
      using startup_payload.prep_payload [OF _ alloc, where x = s and r = 8 and sz = 0] fits
        finish_payload [OF _ refl b, of alloc] by (simp add: uncounted_def Let_def)
  next
    case (BodySupported s)
    then show ?thesis
      using header alloc [of 8] b
      by (simp add: message_prepare_def body_supported_prepare_def CQL_HEADER_SIZE_def Let_def)
  qed
qed

lemma message_prepare_unreadable:
  "m_body m = Some b \<Longrightarrow> \<not> body_readable b \<Longrightarrow> \<exists>e. message_prepare alloc m = Inl e"
  using body_prepare_out_unreadable [of b alloc CQL_HEADER_SIZE 0]
  by (auto simp: message_prepare_def fails_def)

text \<open>
  C5: What \<open>Message::prepare\<close> does for every message. Without a body it returns false and
  leaves its outputs alone. A body that points to memory that cannot be read (the text of an
  error, the values of a query) makes it fail. Otherwise the buffer starts with the eight header
  bytes and, for an error, prepare, query or start-up body, the payload in the wire format;
  length field and size count exactly these bytes, except for a query with a serial
  consistency, where both count two bytes that are not written. For OPTIONS and READY, no
  bytes are asked for the buffer: the header is written out of bounds unless the allocator returns
  at least eight bytes for \<open>new char[0]\<close>. For SUPPORTED and RESULT, whose bodies cannot be sent,
  a bare header with the unchanged length field is made. The allocator is any that returns at
  least what is asked for.
\<close>

theorem message_prepare_outcome:
  assumes "\<And>n. n \<le> alloc n"
  shows "case m_body m of
       None \<Rightarrow> message_prepare alloc m = Inr (m, None, 0, False)
     | Some b \<Rightarrow>
         if body_readable b
         then message_prepare alloc m =
           (let f = frame_of m b in
            if length (sf_bytes f) \<le> alloc (sf_room f)
            then Inr (m\<lparr>m_length := sf_length f\<rparr>, Some (framed alloc (sf_room f) 0 (sf_bytes f)),
                      sf_size f, True)
            else Inl OutOfBounds)
         else \<exists>e. message_prepare alloc m = Inl e"
proof (cases "m_body m")
  case None
  then show ?thesis by (simp add: message_prepare_def)
next
  case (Some b)
  then show ?thesis
    using message_prepare_frame_of [OF Some _ assms] message_prepare_unreadable [OF Some] by simp
qed

theorem message_prepare_outcome_witness:
  "message_prepare (\<lambda>n. n) (message_new\<lparr>m_opcode := CQL_OPCODE_PREPARE,
       m_body := Some (BodyPrepare (prepare_string (str ''x'') body_prepare_new))\<rparr>) =
     Inr (message_new\<lparr>m_opcode := CQL_OPCODE_PREPARE, m_length := 5,
         m_body := Some (BodyPrepare (prepare_string (str ''x'') body_prepare_new))\<rparr>,
       Some (map Some [2, 0, 0, 9, 0, 0, 0, 5, 0, 0, 0, 1, 120]), 13, True)"
  using message_prepare_outcome [of "\<lambda>n. n" "message_new\<lparr>m_opcode := CQL_OPCODE_PREPARE,
       m_body := Some (BodyPrepare (prepare_string (str ''x'') body_prepare_new))\<rparr>"]
  by (simp add: payload_frame_def uncounted_def Let_def prepare_string_def body_prepare_new_def
      wire_long_string_def be32_def byte_of_def str_def framed_def message_header_def wire_header_def
      message_new_def opcode_defs)

text \<open>
  C1: Reassembly. A frame may arrive in any number of pieces that end inside its header,
  followed by one chunk that holds the rest of the header, the body and bytes of later frames.
  The message then has the header fields of the frame and the body that the body parser makes of
  exactly the body bytes, it is ready, and the last call returns the number of bytes that belong
  to this frame.
\<close>

theorem message_reassembly:
  assumes "concat hs @ c = wire_header v f s op (of_nat (length bs))" and "c \<noteq> []"
    and "allocate_body op = Inr b" and "8 + length bs + length rest < 2147483648"
    and "\<And>n. n \<le> alloc n"
    and "body_consume (Ptr (framed alloc (length bs) 0 bs) 0) (length bs) b = Inr (b', True)"
  shows "\<exists>m. feed alloc message_new (hs @ [c @ bs @ rest]) = Inr (of_nat (length (c @ bs)), m)
     \<and> m_version m = v \<and> m_flags m = f \<and> m_stream m = s \<and> m_opcode m = op
     \<and> m_length m = of_nat (length bs) \<and> m_body m = Some b' \<and> m_body_ready m \<and> m_body_error m = None"
  using feed_frame [OF assms(1-4) assms(5) assms(6)] .

theorem message_reassembly_witness:
  "\<exists>m. feed (\<lambda>n. n) message_new ([[0x82], [0, 7, 2]] @ [[0, 0, 0, 0] @ [] @ [0x82, 0]]) =
       Inr (of_nat (length ([0, 0, 0, 0 :: byte] @ [])), m)
     \<and> m_version m = 0x82 \<and> m_flags m = 0 \<and> m_stream m = 7 \<and> m_opcode m = 2
     \<and> m_length m = of_nat (length ([] :: bytes)) \<and> m_body m = Some BodyReady \<and> m_body_ready m
     \<and> m_body_error m = None"
  by (rule message_reassembly [where b = BodyReady])
    (simp_all add: wire_header_def be32_def byte_of_def allocate_body_def opcode_defs
      body_ready_consume_def)

text \<open>
  C30: When the chunk that completes the header does not hold the whole body, the write position
  is advanced by the whole chunk instead of its body part. However the remaining body bytes are
  then cut into chunks, with an exact allocator the body is written out of bounds.
\<close>

theorem message_split_body_overflows:
  assumes "concat hs @ c = wire_header v f s op (of_nat (length bs))" and "c \<noteq> []"
    and "allocate_body op = Inr b" and "length bs < 2147483640"
    and "b1 @ concat bss = bs" and "b1 \<noteq> bs"
  shows "feed (\<lambda>n. n) message_new (hs @ (c @ b1) # bss) = Inl OutOfBounds"
  using feed_split_body [OF assms] .

theorem message_split_body_overflows_witness:
  "feed (\<lambda>n. n) message_new ([[0x82, 0]] @ ([1, 8, 0, 0, 0, 4] @ [0, 0]) # [[0], [1]]) = Inl OutOfBounds"
  by (rule message_split_body_overflows [where bs = "[0, 0, 0, 1]" and b = "BodyResult body_result_new"
        and op = 8])
    (simp_all add: wire_header_def be32_def byte_of_def allocate_body_def opcode_defs)

text \<open>
  C34: Bad headers. A header whose length field is negative makes \<open>new char[length]\<close> throw,
  whatever the opcode; with another length an opcode outside the eight known ones ends in the
  assertion of \<open>allocate_body\<close>.
\<close>

theorem message_bad_header:
  assumes "header_partial m h" and "h @ c = wire_header v f s op len"
    and "points_to P (c @ rest)" and "length rest < 2147483640"
    and "sint len < 0 \<or> op \<notin> {0, 1, 2, 5, 6, 7, 8, 9}"
  shows "message_consume alloc m P (length (c @ rest)) =
     Inl (if sint len < 0 then BadAlloc else AssertionFailed)"
  using assms message_consume_header_fault [OF assms(1,2), of P "length (c @ rest)" "length rest"]
    consume_header_eq [OF assms(1,2), of P "length (c @ rest)" "length rest" alloc]
    allocate_body_known [of op]
  by (auto split: if_splits)

theorem message_bad_header_witness:
  "message_consume (\<lambda>n. n) message_new (Ptr (map Some ([0x82, 0, 0, 3, 0, 0, 0, 1] @ [9])) 0)
     (length ([0x82, 0, 0, 3, 0, 0, 0, 1 :: byte] @ [9])) = Inl AssertionFailed"
  using message_bad_header [OF header_partial_new, of "[0x82, 0, 0, 3, 0, 0, 0, 1]" "0x82" 0 0 3 1
      "Ptr (map Some ([0x82, 0, 0, 3, 0, 0, 0, 1] @ [9])) 0" "[9]" "\<lambda>n. n"]
  by (simp add: wire_header_def be32_def byte_of_def)

text \<open>
  C4: Round trip of STARTUP frames. What \<open>prepare\<close> produces for a start-up message is received
  again, in pieces of the header and the rest with any following bytes, as a message with the
  same header fields and the same options, for all options of less than 65536 bytes; the last call
  returns just the bytes of the frame. An empty protocol version is not sent, and the receiver
  keeps its default version 3.0.0.
\<close>

theorem startup_frame_roundtrip:
  assumes "m_body m = Some (BodyStartup su)" and "m_opcode m = CQL_OPCODE_STARTUP"
    and "startup_ok su" and "\<And>n. n \<le> alloc n"
    and "su' = su\<lparr>su_cql_version :=
      (if su_cql_version su = [] then str ''3.0.0'' else su_cql_version su)\<rparr>"
  shows "\<exists>m1 out sz. message_prepare alloc m = Inr (m1, Some out, sz, True) \<and>
    (\<forall>hs last rest. concat hs @ last = map the (take sz out) \<longrightarrow> length (concat hs) < 8 \<longrightarrow>
       length rest < 1073741816 \<longrightarrow>
       (\<exists>m2. feed alloc message_new (hs @ [last @ rest]) = Inr (of_nat (length last), m2) \<and>
          m_version m2 = m_version m \<and> m_flags m2 = m_flags m \<and> m_stream m2 = m_stream m \<and>
          m_opcode m2 = m_opcode m \<and> m_body m2 = Some (BodyStartup su') \<and> m_body_ready m2 \<and>
          m_body_error m2 = None))"
proof -
  let ?w = "wire_string_map (startup_options su)"
  have dec: "body_consume (Ptr (framed alloc n 0 (body_payload (BodyStartup su))) 0) n
      (BodyStartup body_startup_new) = Inr (BodyStartup su', True)" for n
    using body_startup_consume_reads [OF _ assms(3), of "Ptr (framed alloc n 0 ?w) 0" n body_startup_new]
      points_to_framed [of alloc n ?w]
    by (simp add: with_body_def body_startup_new_def assms(5))
  have op: "allocate_body (m_opcode m) = Inr (BodyStartup body_startup_new)"
    by (simp add: assms(2) allocate_body_def opcode_defs)
  have len: "length (body_payload (BodyStartup su)) < 1073741824"
    using assms(3) by (simp add: startup_options_def startup_ok_def short_string_def)
  show ?thesis
    using prepare_then_feed [OF assms(1) _ _ refl len op dec] assms(4) by fastforce
qed

theorem startup_frame_roundtrip_witness:
  "\<exists>m1 out sz. message_prepare (\<lambda>n. n) sample_startup = Inr (m1, Some out, sz, True) \<and>
    (\<forall>hs last rest. concat hs @ last = map the (take sz out) \<longrightarrow> length (concat hs) < 8 \<longrightarrow>
       length rest < 1073741816 \<longrightarrow>
       (\<exists>m2. feed (\<lambda>n. n) message_new (hs @ [last @ rest]) = Inr (of_nat (length last), m2) \<and>
          m_version m2 = m_version sample_startup \<and> m_flags m2 = m_flags sample_startup \<and>
          m_stream m2 = m_stream sample_startup \<and> m_opcode m2 = m_opcode sample_startup \<and>
          m_body m2 = Some (BodyStartup body_startup_new) \<and> m_body_ready m2 \<and> m_body_error m2 = None))"
  by (rule startup_frame_roundtrip [where su = body_startup_new])
    (simp_all add: startup_ok_def body_startup_new_def short_string_def str_def)

text \<open>
  C18: Round trip of ERROR frames, in the same sense: the received body has the code and the text
  that were sent.
\<close>

theorem error_frame_roundtrip:
  assumes "m_body m = Some (BodyError e)" and "m_opcode m = CQL_OPCODE_ERROR"
    and "error_ok e" and "\<And>n. n \<le> alloc n"
  shows "\<exists>m1 out sz e'. message_prepare alloc m = Inr (m1, Some out, sz, True) \<and>
    err_code e' = err_code e \<and> error_ok e' \<and> error_text e' = error_text e \<and>
    (\<forall>hs last rest. concat hs @ last = map the (take sz out) \<longrightarrow> length (concat hs) < 8 \<longrightarrow>
       length rest < 1073741816 \<longrightarrow>
       (\<exists>m2. feed alloc message_new (hs @ [last @ rest]) = Inr (of_nat (length last), m2) \<and>
          m_stream m2 = m_stream m \<and> m_body m2 = Some (BodyError e') \<and> m_body_ready m2))"
proof -
  let ?s = "error_text e"
  let ?w = "wire_error (err_code e) ?s"
  let ?P = "Ptr (framed alloc (length ?w) 0 ?w) 0"
  let ?e = "body_error_new\<lparr>err_code := err_code e, err_message := ptr_add ?P 6,
    err_message_size := of_nat (length ?s)\<rparr>"
  have short: "short_string ?s" using error_okD(3) [OF assms(3)] .
  have P: "points_to ?P ?w" by (rule points_to_framed)
  then have "load_bytes (ptr_add ?P 6) (length ?s) = Inr ?s"
    by (simp add: wire_error_def wire_string_def load_points_to del: load_bytes.simps ptr_add.simps)
  with short have e: "error_ok ?e" "error_text ?e = ?s"
    by (simp_all add: error_ok_def error_text_def short_string_def del: load_bytes.simps ptr_add.simps)
  have dec: "body_consume (Ptr (framed alloc (length ?w) 0 (body_payload (BodyError e))) 0) (length ?w)
      (BodyError body_error_new) = Inr (BodyError ?e, True)"
    using body_error_consume_wire [OF P short, of body_error_new]
    by (simp add: with_body_def body_error_new_def)
  have op: "allocate_body (m_opcode m) = Inr (BodyError body_error_new)"
    by (simp add: assms(2) allocate_body_def opcode_defs)
  have len: "length ?w < 1073741824"
    using short by (simp add: wire_error_def short_string_def)
  have ok: "body_ok (BodyError e)" and n: "length ?w = length (body_payload (BodyError e))"
    using assms(3) by simp_all
  obtain m1 out where "message_prepare alloc m = Inr (m1, Some out, 8 + length ?w, True)"
    and "\<forall>hs last rest. concat hs @ last = map the (take (8 + length ?w) out) \<longrightarrow>
       length (concat hs) < 8 \<longrightarrow> length rest < 1073741816 \<longrightarrow>
       (\<exists>m2. feed alloc message_new (hs @ [last @ rest]) = Inr (of_nat (length last), m2) \<and>
          m_stream m2 = m_stream m \<and> m_body m2 = Some (BodyError ?e) \<and> m_body_ready m2)"
    using prepare_then_feed [OF assms(1) ok assms(4) n len op dec] by blast
  moreover have "err_code ?e = err_code e" by simp
  ultimately show ?thesis using e by blast
qed

theorem error_frame_roundtrip_witness:
  "\<exists>m1 out sz e'. message_prepare (\<lambda>n. n) (message_new\<lparr>m_body := Some (BodyError body_error_new)\<rparr>) =
      Inr (m1, Some out, sz, True) \<and>
    err_code e' = err_code body_error_new \<and> error_ok e' \<and> error_text e' = error_text body_error_new \<and>
    (\<forall>hs last rest. concat hs @ last = map the (take sz out) \<longrightarrow> length (concat hs) < 8 \<longrightarrow>
       length rest < 1073741816 \<longrightarrow>
       (\<exists>m2. feed (\<lambda>n. n) message_new (hs @ [last @ rest]) = Inr (of_nat (length last), m2) \<and>
          m_stream m2 = m_stream (message_new\<lparr>m_body := Some (BodyError body_error_new)\<rparr>) \<and>
          m_body m2 = Some (BodyError e') \<and> m_body_ready m2))"
  by (rule error_frame_roundtrip)
    (simp_all add: error_ok_def body_error_new_def message_new_def CQL_OPCODE_ERROR_def)

end
