(* ===== verification/Errors.thy ===== *)
theory Errors
  imports Protocol_Constants
begin

text \<open>
  \<^verbatim>\<open>include/cql_error.hpp\<close>: the error object the library hands to its callers, with the
  constants of \<^verbatim>\<open>include/cql.h\<close> it carries, and checked access to arrays.
\<close>

record cql_error =
  error_source :: int
  error_code :: int
  error_message :: bytes
  error_file :: bytes
  error_line :: int

definition error_make :: "int \<Rightarrow> int \<Rightarrow> bytes \<Rightarrow> bytes \<Rightarrow> int \<Rightarrow> cql_error" where
  "error_make source code message file line =
     \<lparr>error_source = source, error_code = code, error_message = message, error_file = file,
      error_line = line\<rparr>"

text \<open>An array of fixed length as a list; an index outside it is a fault.\<close>

definition array_get :: "'a list \<Rightarrow> int \<Rightarrow> 'a result" where
  "array_get xs i = (if 0 \<le> i \<and> i < int (length xs) then Inr (xs ! nat i) else Inl OutOfBounds)"

definition array_set :: "'a list \<Rightarrow> int \<Rightarrow> 'a \<Rightarrow> 'a list result" where
  "array_set xs i v =
     (if 0 \<le> i \<and> i < int (length xs) then Inr (xs[nat i := v]) else Inl OutOfBounds)"

lemma array_get_in: "0 \<le> i \<Longrightarrow> i < int (length xs) \<Longrightarrow> array_get xs i = Inr (xs ! nat i)"
  by (simp add: array_get_def)

lemma array_set_in: "0 \<le> i \<Longrightarrow> i < int (length xs) \<Longrightarrow> array_set xs i v = Inr (xs[nat i := v])"
  by (simp add: array_set_def)

end
