(* ===== verification/Request.thy ===== *)
theory Request
  imports Message Errors
begin

text \<open>
  \<^verbatim>\<open>include/cql_request.hpp\<close>, for the only instance in the sources,
  \<open>CallerRequest = Request<std::string, Error*, Message*>\<close> of \<^verbatim>\<open>include/cql_common.hpp\<close>.
  The first part is the object as a single thread sees it; the second part is the protocol
  between a thread that waits and the thread that notifies, as a step relation.
\<close>

subsection \<open>The object\<close>

text \<open>
  A callback is client code; the record keeps whether one is set. The mutex and the condition
  variable belong to the step relation below.
\<close>

record request =
  rq_flag :: bool
  rq_error :: "cql_error option"
  rq_data :: bytes
  rq_result :: "message option"
  rq_callback :: bool
  rq_use_local_loop :: bool

text \<open>The constructor initialises \<open>data\<close>, a \<open>std::string\<close>, with \<open>NULL\<close>.\<close>

definition request_new :: "request result" where
  "request_new =
     bind_result (c_string Null) (\<lambda>d.
     Inr \<lparr>rq_flag = False, rq_error = None, rq_data = d, rq_result = None, rq_callback = False,
          rq_use_local_loop = False\<rparr>)"

definition ready :: "request \<Rightarrow> bool" where
  "ready r = rq_flag r"

text \<open>
  \<open>notify\<close> sets the flag, wakes all waiting threads, and either calls the callback at once or
  queues \<open>callback_executor\<close> on the event loop. What is left to do with the callback is returned.
\<close>

datatype notify_action = NoCallback | CallCallback | QueueCallback

definition notify :: "request \<Rightarrow> request \<times> notify_action" where
  "notify r =
     (let r = r\<lparr>rq_flag := True\<rparr> in
      if rq_callback r
      then (if rq_use_local_loop r then (r, CallCallback) else (r, QueueCallback))
      else (r, NoCallback))"

text \<open>The queued work item: its data pointer is the request; true when the callback is called.\<close>

definition callback_executor :: "request option option \<Rightarrow> bool" where
  "callback_executor work =
     (case work of
        Some (Some r) \<Rightarrow> rq_callback r
      | _ \<Rightarrow> False)"

text \<open>
  What \<open>wait_for\<close> returns when called with the flag as given; \<open>timed\<close> is the value of
  \<open>condition.wait_for\<close>. There is no return statement behind the conditional.
\<close>

definition wait_for :: "bool \<Rightarrow> request \<Rightarrow> bool result" where
  "wait_for timed r = (if \<not> rq_flag r then Inr timed else Inl NoReturnValue)"

subsection \<open>Waiting and notifying\<close>

text \<open>
  The steps of the threads in \<open>wait\<close>, any number of them, and of the one in \<open>notify\<close>.
  \<open>condition.wait(lock, pred)\<close> is \<open>while (!pred()) wait(lock)\<close>; the inner \<open>wait\<close> releases the
  mutex and starts to wait atomically.

  \<^item> \<open>WStart\<close>: before the test of the flag without the mutex;
  \<^item> \<open>WLock\<close>: about to lock the mutex;
  \<^item> \<open>WTest\<close>: holds the mutex, about to test the predicate;
  \<^item> \<open>WBlock\<close>: holds the mutex, the predicate was false, about to wait;
  \<^item> \<open>WAsleep\<close>: waits on the condition, without the mutex;
  \<^item> \<open>WDone\<close>: has returned.

  The notifier: \<open>NStart\<close>, then \<open>NStored\<close> after the store of the flag, then \<open>NDone\<close> after
  \<open>notify_all\<close>. Spurious wake-ups are left out: nothing guarantees them. \<open>w_owner\<close> is the thread
  that holds the mutex.
\<close>

datatype waiter = WStart | WLock | WTest | WBlock | WAsleep | WDone
datatype notifier = NStart | NStored | NDone

record wait_state =
  w_flag :: bool
  w_owner :: "nat option"
  w_waiter :: "nat \<Rightarrow> waiter"
  w_notifier :: notifier

definition wait_init :: wait_state where
  "wait_init = \<lparr>w_flag = False, w_owner = None, w_waiter = (\<lambda>t. WStart), w_notifier = NStart\<rparr>"

definition move :: "nat \<Rightarrow> waiter \<Rightarrow> wait_state \<Rightarrow> wait_state" where
  "move t w s = s\<lparr>w_waiter := (w_waiter s)(t := w)\<rparr>"

inductive wait_step :: "wait_state \<Rightarrow> wait_state \<Rightarrow> bool" where
  fast: "w_waiter s t = WStart \<Longrightarrow> w_flag s \<Longrightarrow> wait_step s (move t WDone s)"
| slow: "w_waiter s t = WStart \<Longrightarrow> \<not> w_flag s \<Longrightarrow> wait_step s (move t WLock s)"
| lock: "w_waiter s t = WLock \<Longrightarrow> w_owner s = None \<Longrightarrow> wait_step s ((move t WTest s)\<lparr>w_owner := Some t\<rparr>)"
| pred_true: "w_waiter s t = WTest \<Longrightarrow> w_flag s \<Longrightarrow> wait_step s ((move t WDone s)\<lparr>w_owner := None\<rparr>)"
| pred_false: "w_waiter s t = WTest \<Longrightarrow> \<not> w_flag s \<Longrightarrow> wait_step s (move t WBlock s)"
| block: "w_waiter s t = WBlock \<Longrightarrow> wait_step s ((move t WAsleep s)\<lparr>w_owner := None\<rparr>)"
| store: "w_notifier s = NStart \<Longrightarrow> wait_step s (s\<lparr>w_notifier := NStored, w_flag := True\<rparr>)"
| notify_all: "w_notifier s = NStored \<Longrightarrow>
    wait_step s (s\<lparr>w_notifier := NDone,
      w_waiter := (\<lambda>t. if w_waiter s t = WAsleep then WLock else w_waiter s t)\<rparr>)"

inductive_cases wait_stepE: "wait_step s t"

abbreviation wait_reachable :: "wait_state \<Rightarrow> bool" where
  "wait_reachable s \<equiv> wait_step\<^sup>*\<^sup>* wait_init s"

lemma move_fields [simp]:
  "w_flag (move t w s) = w_flag s" "w_owner (move t w s) = w_owner s" "w_notifier (move t w s) =
      w_notifier s"
  "w_waiter (move t w s) = (w_waiter s)(t := w)"
  by (simp_all add: move_def)

text \<open>
  The mutex is held exactly between the lock and the wait, a thread has returned only after
  the flag was set, and once the notifier is done at most one thread is about to sleep or asleep.
\<close>

definition wait_ok :: "wait_state \<Rightarrow> bool" where
  "wait_ok s \<longleftrightarrow>
     (w_flag s \<longleftrightarrow> w_notifier s \<noteq> NStart) \<and>
     (\<forall>t. w_owner s = Some t \<longleftrightarrow> w_waiter s t \<in> {WTest, WBlock}) \<and>
     (\<forall>t. w_waiter s t = WDone \<longrightarrow> w_flag s) \<and>
     (w_notifier s = NDone \<longrightarrow>
        (\<forall>t u. w_waiter s t \<in> {WBlock, WAsleep} \<and> w_waiter s u \<in> {WBlock, WAsleep} \<longrightarrow> t = u))"

lemma wait_ok_owner:
  assumes "wait_ok s" and "w_waiter s t \<in> {WTest, WBlock}"
  shows "w_owner s = Some t"
  using assms unfolding wait_ok_def by blast

lemma wait_ok_step:
  assumes "wait_step s s'" and "wait_ok s"
  shows "wait_ok s'"
  using assms
proof (induction rule: wait_step.induct)
  case (notify_all s)
  have "t = u" if "w_waiter s t = WBlock" "w_waiter s u = WBlock" for t u
    using wait_ok_owner [OF notify_all(2), of t] wait_ok_owner [OF notify_all(2), of u] that by simp
  then show ?case using notify_all by (auto simp: wait_ok_def split: if_splits)
next
  case (block s t)
  then have "w_owner s = Some t" by (intro wait_ok_owner) auto
  then show ?case using block by (auto simp: wait_ok_def)
next
  case (pred_true s t)
  then have "w_owner s = Some t" by (intro wait_ok_owner) auto
  then show ?case using pred_true by (auto simp: wait_ok_def)
qed (auto simp: wait_ok_def)

lemma wait_reachable_ok:
  assumes "wait_reachable s"
  shows "wait_ok s"
  using assms
proof (induction rule: rtranclp_induct)
  case base
  then show ?case by (simp add: wait_init_def wait_ok_def)
next
  case (step y z)
  then show ?case by (blast intro: wait_ok_step)
qed

text \<open>Once the notifier is done, a sleeping thread sleeps on.\<close>

lemma asleep_step:
  assumes "wait_step s s'" and "w_notifier s = NDone" and "w_waiter s t = WAsleep"
  shows "w_notifier s' = NDone \<and> w_waiter s' t = WAsleep"
  using assms by (induction rule: wait_step.induct) auto

lemma asleep_forever:
  assumes "wait_step\<^sup>*\<^sup>* s s'" and "w_notifier s = NDone" and "w_waiter s t = WAsleep"
  shows "w_notifier s' = NDone \<and> w_waiter s' t = WAsleep"
  using assms by (induction rule: rtranclp_induct) (auto dest: asleep_step)

text \<open>The holder of the mutex can give it back, and a thread that wants it can then return.\<close>

lemma owner_leaves:
  assumes "wait_ok s" and "w_flag s"
  shows "\<exists>s'. wait_step\<^sup>*\<^sup>* s s' \<and> w_owner s' = None \<and> w_flag s' \<and>
     (\<forall>u. w_owner s \<noteq> Some u \<longrightarrow> w_waiter s' u = w_waiter s u) \<and>
     (\<forall>u. w_waiter s u = WTest \<longrightarrow> w_waiter s' u = WDone)"
proof (cases "w_owner s")
  case None
  then show ?thesis using assms by (auto simp: wait_ok_def intro!: exI [of _ s])
next
  case (Some u)
  then have "w_waiter s u = WTest \<or> w_waiter s u = WBlock" using assms(1) by (auto simp: wait_ok_def)
  then show ?thesis
  proof
    assume u: "w_waiter s u = WTest"
    with wait_step.pred_true [OF u assms(2)] Some assms show ?thesis
      by (intro exI [of _ "(move u WDone s)\<lparr>w_owner := None\<rparr>"]) (auto simp: wait_ok_def)
  next
    assume u: "w_waiter s u = WBlock"
    with wait_step.block [OF u] Some assms show ?thesis
      by (intro exI [of _ "(move u WAsleep s)\<lparr>w_owner := None\<rparr>"]) (auto simp: wait_ok_def)
  qed
qed

lemma waiter_can_return:
  assumes ok: "wait_ok s" and flag: "w_flag s" and t: "w_waiter s t \<notin> {WBlock, WAsleep}"
  shows "\<exists>s'. wait_step\<^sup>*\<^sup>* s s' \<and> w_waiter s' t = WDone"
proof (cases "w_waiter s t")
  case WStart
  then show ?thesis using wait_step.fast [OF WStart flag] by (intro exI [of _ "move t WDone s"]) auto
next
  case WLock
  then have "w_owner s \<noteq> Some t" using ok by (auto simp: wait_ok_def)
  with owner_leaves [OF ok flag] WLock obtain s1 where
    s1: "wait_step\<^sup>*\<^sup>* s s1" "w_owner s1 = None" "w_flag s1" "w_waiter s1 t = WLock" by auto
  let ?s2 = "(move t WTest s1)\<lparr>w_owner := Some t\<rparr>"
  have "wait_step s1 ?s2" "wait_step ?s2 ((move t WDone ?s2)\<lparr>w_owner := None\<rparr>)"
    using s1 by (auto intro: wait_step.lock wait_step.pred_true)
  then show ?thesis using s1(1)
    by (intro exI [of _ "(move t WDone ?s2)\<lparr>w_owner := None\<rparr>"]) auto
next
  case WTest
  then show ?thesis using owner_leaves [OF ok flag] by blast
qed (use t in auto)

subsection \<open>Properties\<close>

text \<open>
  Safety of waiting: in every reachable state the mutex has at most one holder, which is between
  the lock and the wait, and a thread has returned from \<open>wait\<close> only after the flag was set.
\<close>

lemma wait_safe:
  assumes "wait_reachable s"
  shows "(w_waiter s t = WDone \<longrightarrow> w_flag s) \<and> (w_owner s = Some t \<longleftrightarrow> w_waiter s t \<in> {WTest, WBlock}) \<and>
     (w_flag s \<longleftrightarrow> w_notifier s \<noteq> NStart)"
  using wait_reachable_ok [OF assms] unfolding wait_ok_def by blast

text \<open>
  C33: Lost wake-up, with any number of waiting threads. \<open>notify\<close> stores the flag and wakes the
  waiters without the mutex, so both can happen between a thread's test of the predicate and the
  start of its wait. There is a run after which the flag is set, the notifier is done, and such
  a thread sleeps in every continuation. No more than this can go wrong: once the notifier is done,
  all threads but at most one can return.
\<close>

theorem wait_lost_wakeup:
  "(\<exists>s t. wait_reachable s \<and> w_flag s \<and> w_notifier s = NDone \<and>
      (\<forall>s'. wait_step\<^sup>*\<^sup>* s s' \<longrightarrow> w_waiter s' t = WAsleep)) \<and>
   (\<forall>s. wait_reachable s \<and> w_notifier s = NDone \<longrightarrow>
      (\<exists>u. \<forall>t. t \<noteq> u \<longrightarrow> (\<exists>s'. wait_step\<^sup>*\<^sup>* s s' \<and> w_waiter s' t = WDone)))"
proof
  let ?s1 = "move 0 WLock wait_init"
  let ?s2 = "(move 0 WTest ?s1)\<lparr>w_owner := Some 0\<rparr>"
  let ?s3 = "move 0 WBlock ?s2"
  let ?s4 = "?s3\<lparr>w_notifier := NStored, w_flag := True\<rparr>"
  let ?s5 = "?s4\<lparr>w_notifier := NDone,
    w_waiter := (\<lambda>t. if w_waiter ?s4 t = WAsleep then WLock else w_waiter ?s4 t)\<rparr>"
  let ?s6 = "(move 0 WAsleep ?s5)\<lparr>w_owner := None\<rparr>"
  have "wait_step wait_init ?s1" by (rule wait_step.slow) (simp_all add: wait_init_def)
  moreover have "wait_step ?s1 ?s2" by (rule wait_step.lock) (simp_all add: wait_init_def)
  moreover have "wait_step ?s2 ?s3" by (rule wait_step.pred_false) (simp_all add: wait_init_def)
  moreover have "wait_step ?s3 ?s4" by (rule wait_step.store) (simp add: wait_init_def)
  moreover have "wait_step ?s4 ?s5" by (rule wait_step.notify_all) simp
  moreover have "wait_step ?s5 ?s6" by (rule wait_step.block) simp
  ultimately have reach: "wait_reachable ?s6"
    by (meson rtranclp.rtrancl_into_rtrancl rtranclp.rtrancl_refl)
  have "w_waiter s' 0 = WAsleep" if "wait_step\<^sup>*\<^sup>* ?s6 s'" for s'
    using asleep_forever [OF that, of 0] by simp
  with reach show "\<exists>s t. wait_reachable s \<and> w_flag s \<and> w_notifier s = NDone \<and>
      (\<forall>s'. wait_step\<^sup>*\<^sup>* s s' \<longrightarrow> w_waiter s' t = WAsleep)"
    by (intro exI [of _ ?s6] exI [of _ 0]) simp
  show "\<forall>s. wait_reachable s \<and> w_notifier s = NDone \<longrightarrow>
      (\<exists>u. \<forall>t. t \<noteq> u \<longrightarrow> (\<exists>s'. wait_step\<^sup>*\<^sup>* s s' \<and> w_waiter s' t = WDone))"
  proof (intro allI impI, elim conjE)
    fix s assume reach: "wait_reachable s" and fin: "w_notifier s = NDone"
    have ok: "wait_ok s" using wait_reachable_ok [OF reach] .
    with fin have "w_flag s" by (simp add: wait_ok_def)
    note returns = waiter_can_return [OF ok this]
    have "\<exists>u. \<forall>t. t \<noteq> u \<longrightarrow> w_waiter s t \<notin> {WBlock, WAsleep}"
      using ok fin unfolding wait_ok_def by meson
    then show "\<exists>u. \<forall>t. t \<noteq> u \<longrightarrow> (\<exists>s'. wait_step\<^sup>*\<^sup>* s s' \<and> w_waiter s' t = WDone)"
      using returns by meson
  qed
qed

theorem wait_lost_wakeup_witness:
  "\<exists>s t. wait_reachable s \<and> w_flag s \<and> w_notifier s = NDone \<and> w_waiter s t = WAsleep"
  using wait_lost_wakeup by blast

text \<open>
  \<open>wait_for\<close> has no return statement for a request that is ready: after \<open>notify\<close>, every
  call of \<open>wait_for\<close>, with any timeout, flows off the end of the function.
\<close>

lemma wait_for_after_notify:
  "wait_for timed (fst (notify r)) = Inl NoReturnValue"
  by (simp add: wait_for_def notify_def Let_def)

text \<open>
  \<open>notify\<close> makes the request ready and changes nothing else of it, and a callback that is set
  is run exactly once: directly with a local loop, and otherwise by the queued work item, which
  finds the callback still set.
\<close>

lemma notify_runs_callback:
  "\<exists>a. notify r = (r\<lparr>rq_flag := True\<rparr>, a) \<and> ready (fst (notify r)) \<and>
     (rq_callback r \<longleftrightarrow> a = CallCallback \<or> a = QueueCallback \<and>
       callback_executor (Some (Some (fst (notify r)))))"
  by (auto simp: notify_def Let_def ready_def callback_executor_def)

end
