(* ===== verification/Stream_Storage.thy ===== *)
theory Stream_Storage
  imports Errors
begin

text \<open>
  \<^verbatim>\<open>include/cql_stream_storage.hpp\<close>: the pool of stream ids of a connection. The template
  parameter \<open>Max\<close> is the argument \<open>mx\<close>; ids are integers, and \<open>mx\<close> is assumed to fit
  \<open>IdType\<close> (the sources use 127 with \<open>int8_t\<close> and with \<open>int\<close>). A storage element that was
  never assigned is \<open>None\<close>. An output parameter that a call leaves alone is \<open>None\<close> too.
\<close>

record 'x stream_storage =
  available_streams_index :: nat
  available_streams_arr :: "int list"
  allocated_streams_arr :: "bool list"
  storage_arr :: "'x option list"

definition stream_storage_new :: "nat \<Rightarrow> 'x stream_storage" where
  "stream_storage_new mx =
     \<lparr>available_streams_index = 0, available_streams_arr = map int [1..<Suc mx],
      allocated_streams_arr = replicate mx False, storage_arr = replicate mx None\<rparr>"

definition set_stream ::
  "nat \<Rightarrow> 'x \<Rightarrow> 'x stream_storage \<Rightarrow> (cql_error option \<times> 'x stream_storage \<times> int option) result" where
  "set_stream mx input s =
     (if available_streams_index s \<ge> mx
      then Inr (Some (error_make CQL_ERROR_SOURCE_LIBRARY CQL_ERROR_LIB_NO_STREAMS
             (str ''no available streams'') (str ''cql_stream_storage.hpp'') 45), s, None)
      else let index = available_streams_index s;
               s = s\<lparr>available_streams_index := index + 1\<rparr> in
        bind_result (array_get (available_streams_arr s) (int index)) (\<lambda>out.
        bind_result (array_set (storage_arr s) out (Some input)) (\<lambda>st.
        bind_result (array_set (allocated_streams_arr s) out True) (\<lambda>al.
        Inr (None, s\<lparr>storage_arr := st, allocated_streams_arr := al\<rparr>, Some out)))))"

definition get_stream ::
  "int \<Rightarrow> bool \<Rightarrow> 'x stream_storage \<Rightarrow> (cql_error option \<times> 'x stream_storage \<times> 'x option) result" where
  "get_stream input releaseStream s =
     bind_result (array_get (storage_arr s) input) (\<lambda>out.
     if releaseStream
     then bind_result (array_get (allocated_streams_arr s) input) (\<lambda>a.
       if a
       then let index = int (available_streams_index s) - 1 in
         bind_result (array_set (available_streams_arr s) index input) (\<lambda>av.
         bind_result (array_set (allocated_streams_arr s) input False) (\<lambda>al.
         Inr (None, s\<lparr>available_streams_index := nat index, available_streams_arr := av,
                allocated_streams_arr := al\<rparr>, out)))
       else Inr (Some (error_make CQL_ERROR_SOURCE_LIBRARY CQL_ERROR_LIB_NO_STREAMS
              (str ''this stream has already been released'') (str ''cql_stream_storage.hpp'') 71),
            s, out))
     else Inr (None, s, out))"

definition available_streams :: "nat \<Rightarrow> 'x stream_storage \<Rightarrow> nat" where
  "available_streams mx s = mx - available_streams_index s"

subsection \<open>The contract of a pool of ids\<close>

text \<open>A sequence of allocations, and of releases.\<close>

fun set_all :: "('x \<Rightarrow> 's \<Rightarrow> (cql_error option \<times> 's \<times> int option) result) \<Rightarrow>
    'x list \<Rightarrow> 's \<Rightarrow> ('s \<times> int list) result" where
  "set_all set_op [] s = Inr (s, [])"
| "set_all set_op (x # xs) s = bind_result (set_op x s) (\<lambda>(e, s, out). case out of
     None \<Rightarrow> Inl AssertionFailed
   | Some i \<Rightarrow> bind_result (set_all set_op xs s) (\<lambda>(s, is). Inr (s, i # is)))"

fun get_all :: "(int \<Rightarrow> bool \<Rightarrow> 's \<Rightarrow> (cql_error option \<times> 's \<times> 'x option) result) \<Rightarrow>
    int list \<Rightarrow> 's \<Rightarrow> ('s \<times> 'x option list) result" where
  "get_all get_op [] s = Inr (s, [])"
| "get_all get_op (i # is) s = bind_result (get_op i True s) (\<lambda>(e, s, out).
     bind_result (get_all get_op is s) (\<lambda>(s, outs). Inr (s, out # outs)))"

text \<open>
  A pool hands out the first free id and remembers what it was handed out for. \<open>free\<close> lists the
  free ids, \<open>held\<close> what the others stand for. The last free id is never handed out.
\<close>

locale stream_pool =
  fixes set_op :: "'x \<Rightarrow> 's \<Rightarrow> (cql_error option \<times> 's \<times> int option) result"
    and get_op :: "int \<Rightarrow> bool \<Rightarrow> 's \<Rightarrow> (cql_error option \<times> 's \<times> 'x option) result"
    and free :: "'s \<Rightarrow> int list"
    and held :: "'s \<Rightarrow> int \<Rightarrow> 'x option"
    and invar :: "'s \<Rightarrow> bool"
  assumes set_takes: "invar s \<Longrightarrow> free s = i # j # is \<Longrightarrow>
      \<exists>s'. set_op x s = Inr (None, s', Some i) \<and> invar s' \<and> free s' = j # is \<and> held s' = (held s)(i \<mapsto> x)"
    and get_peeks: "invar s \<Longrightarrow> held s i = Some x \<Longrightarrow> get_op i False s = Inr (None, s, Some x)"
    and get_releases: "invar s \<Longrightarrow> held s i = Some x \<Longrightarrow>
      \<exists>s'. get_op i True s = Inr (None, s', Some x) \<and> invar s' \<and> free s' = i # free s
        \<and> held s' = (held s)(i := None)"
    and free_not_held: "invar s \<Longrightarrow> i \<in> set (free s) \<Longrightarrow> held s i = None"
    and free_distinct: "invar s \<Longrightarrow> distinct (free s)"
begin

text \<open>Requests get the free ids in order, and every id then stands for its request.\<close>

lemma set_all_takes:
  assumes "invar s" and "length xs < length (free s)"
  shows "\<exists>s'. set_all set_op xs s = Inr (s', take (length xs) (free s)) \<and> invar s' \<and>
     free s' = drop (length xs) (free s) \<and>
     held s' = (held s)(take (length xs) (free s) [\<mapsto>] xs)"
  using assms
proof (induction xs arbitrary: s)
  case Nil
  then show ?case by simp
next
  case (Cons x xs)
  then obtain i j "is" where free: "free s = i # j # is"
    by (cases "free s"; cases "tl (free s)") auto
  from set_takes [OF Cons.prems(1) free] obtain s1 where
    s1: "set_op x s = Inr (None, s1, Some i)" "invar s1" "free s1 = j # is" "held s1 = (held s)(i \<mapsto> x)"
    by blast
  with Cons.IH [OF s1(2)] Cons.prems(2) free show ?case
    by (auto simp del: fun_upd_apply)
qed

lemma get_all_returns:
  assumes "invar s" and "distinct is" and "\<And>i. i \<in> set is \<Longrightarrow> held s i \<noteq> None"
  shows "\<exists>s'. get_all get_op is s = Inr (s', map (held s) is) \<and> invar s' \<and> free s' = rev is @ free s"
  using assms
proof (induction "is" arbitrary: s)
  case Nil
  then show ?case by simp
next
  case (Cons i "is")
  then obtain x where x: "held s i = Some x" by auto
  from get_releases [OF Cons.prems(1) x] obtain s1 where
    s1: "get_op i True s = Inr (None, s1, Some x)" "invar s1" "free s1 = i # free s"
      "held s1 = (held s)(i := None)"
    by blast
  have same: "map (held s1) is = map (held s) is"
    using Cons.prems(2) s1(4) by auto
  have "\<exists>s'. get_all get_op is s1 = Inr (s', map (held s1) is) \<and> invar s' \<and> free s' = rev is @ free s1"
    using Cons.prems s1(4) by (intro Cons.IH [OF s1(2)]) auto
  then obtain s' where "get_all get_op is s1 = Inr (s', map (held s) is)" "invar s'"
    "free s' = rev is @ i # free s"
    by (auto simp: same s1(3))
  with s1(1) x show ?case by simp
qed

text \<open>Answers may come in any order: each id gives back the request it was taken for.\<close>

lemma answers_match:
  assumes "invar s" and "length xs < length (free s)"
    and "distinct ks" and "\<forall>k \<in> set ks. k < length xs"
  shows "\<exists>s1 ids s2. set_all set_op xs s = Inr (s1, ids) \<and> distinct ids \<and> length ids = length xs \<and>
     get_all get_op (map ((!) ids) ks) s1 = Inr (s2, map (\<lambda>k. Some (xs ! k)) ks) \<and> invar s2"
proof -
  let ?ids = "take (length xs) (free s)"
  from set_all_takes [OF assms(1,2)] obtain s1 where
    s1: "set_all set_op xs s = Inr (s1, ?ids)" "invar s1" "held s1 = (held s)(?ids [\<mapsto>] xs)"
    by blast
  have dist: "distinct ?ids" using free_distinct [OF assms(1)] by simp
  have len: "length ?ids = length xs" using assms(2) by simp
  have held: "held s1 (?ids ! k) = Some (xs ! k)" if "k < length xs" for k
    using map_upds_at [OF len dist] that len s1(3) by simp
  have "distinct (map ((!) ids) ks)" if "distinct ids" "length ids = length xs" for ids :: "int list"
    using assms(3,4) that by (auto simp: distinct_map inj_on_def nth_eq_iff_index_eq)
  then have "distinct (map ((!) ?ids) ks)" using dist len by blast
  moreover have "held s1 i \<noteq> None" if "i \<in> set (map ((!) ?ids) ks)" for i
    using that assms(4) held by auto
  ultimately obtain s2 where
    "get_all get_op (map ((!) ?ids) ks) s1 = Inr (s2, map (held s1) (map ((!) ?ids) ks))" "invar s2"
    using get_all_returns [OF s1(2)] by blast
  moreover have "map (held s1) (map ((!) ?ids) ks) = map (\<lambda>k. Some (xs ! k)) ks"
    using assms(4) held by simp
  ultimately show ?thesis using s1(1) dist len by auto
qed

end

subsection \<open>The invariant\<close>

definition free_streams :: "'x stream_storage \<Rightarrow> int list" where
  "free_streams s = drop (available_streams_index s) (available_streams_arr s)"

text \<open>What a stream in use stands for; ids outside the arrays stand for nothing.\<close>

definition held_stream :: "'x stream_storage \<Rightarrow> int \<Rightarrow> 'x option" where
  "held_stream s i =
     (if 0 \<le> i \<and> i < int (length (allocated_streams_arr s)) \<and> allocated_streams_arr s ! nat i
      then storage_arr s ! nat i else None)"

text \<open>
  Every id is free or in use and not both; id \<open>mx\<close>, which lies outside the two arrays indexed by
  ids, is the last free one.
\<close>

definition streams_ok :: "nat \<Rightarrow> 'x stream_storage \<Rightarrow> bool" where
  "streams_ok mx s \<longleftrightarrow>
     length (available_streams_arr s) = mx \<and> length (allocated_streams_arr s) = mx \<and>
     length (storage_arr s) = mx \<and> available_streams_index s < mx \<and>
     distinct (free_streams s) \<and> last (free_streams s) = int mx \<and>
     set (free_streams s) = {1..int mx} - {i. held_stream s i \<noteq> None} \<and>
     (\<forall>k < mx. allocated_streams_arr s ! k \<longrightarrow> 0 < k \<and> storage_arr s ! k \<noteq> None)"

lemma streams_ok_new:
  assumes "0 < mx"
  shows "streams_ok mx (stream_storage_new mx)"
proof -
  have "int ` {1..<Suc mx} = {1..int mx}"
    using image_int_atLeastLessThan [of 1 "Suc mx"] by auto
  then have "set (map int [1..<Suc mx]) = {1..int mx}"
    by (simp only: set_map set_upt)
  moreover have "last (map int [1..<Suc mx]) = int mx"
    using assms by (simp add: last_map)
  ultimately show ?thesis
    using assms
    by (auto simp: streams_ok_def stream_storage_new_def free_streams_def held_stream_def distinct_map
        simp del: set_map set_upt upt_Suc)
qed

lemma free_streams_Cons:
  assumes "streams_ok mx s"
  shows "free_streams s = available_streams_arr s ! available_streams_index s #
     drop (Suc (available_streams_index s)) (available_streams_arr s)"
  using assms by (simp add: streams_ok_def free_streams_def Cons_nth_drop_Suc)

lemma set_stream_takes:
  assumes ok: "streams_ok mx s" and free: "free_streams s = i # j # is"
  shows "\<exists>s'. set_stream mx x s = Inr (None, s', Some i) \<and> streams_ok mx s' \<and>
     free_streams s' = j # is \<and> held_stream s' = (held_stream s)(i \<mapsto> x)"
proof -
  let ?n = "available_streams_index s"
  let ?s = "s\<lparr>available_streams_index := ?n + 1, storage_arr := (storage_arr s)[nat i := Some x],
    allocated_streams_arr := (allocated_streams_arr s)[nat i := True]\<rparr>"
  have lens: "length (available_streams_arr s) = mx" "length (allocated_streams_arr s) = mx"
    "length (storage_arr s) = mx" "?n < mx"
    using ok by (simp_all add: streams_ok_def)
  have i: "available_streams_arr s ! ?n = i" and rest: "drop (Suc ?n) (available_streams_arr s) = j # is"
    using free_streams_Cons [OF ok] free by simp_all
  have dist: "distinct (i # j # is)" and lst: "last (j # is) = int mx" and "i \<in> {1..int mx}"
    using ok free by (auto simp: streams_ok_def)
  moreover have "i \<noteq> int mx"
    using dist lst last_in_set [of "j # is"] by auto
  ultimately have "i \<noteq> int mx" and "i \<in> {1..int mx}" by simp_all
  then have range: "1 \<le> i" "i < int mx" by auto
  have "Suc ?n < mx" using rest lens(1) by (metis drop_eq_Nil leI list.simps(3))
  obtain t where t: "t = ?s" by simp
  have held: "held_stream t = (held_stream s)(i \<mapsto> x)"
    using range lens by (auto simp: t held_stream_def fun_eq_iff nth_list_update nat_eq_iff)
  have fs: "free_streams t = j # is" by (simp add: t free_streams_def rest)
  have "set (j # is) = {1..int mx} - {k. held_stream t k \<noteq> None}"
    using ok free dist unfolding held streams_ok_def by auto
  moreover have "\<forall>k < mx. allocated_streams_arr t ! k \<longrightarrow> 0 < k \<and> storage_arr t ! k \<noteq> None"
    using ok range lens by (auto simp: t streams_ok_def nth_list_update)
  moreover have "available_streams_index t < mx" "length (available_streams_arr t) = mx"
    "length (allocated_streams_arr t) = mx" "length (storage_arr t) = mx"
    using lens \<open>Suc ?n < mx\<close> by (simp_all add: t)
  ultimately have "streams_ok mx t"
    using dist lst unfolding streams_ok_def fs by simp
  moreover have "set_stream mx x s = Inr (None, t, Some i)"
    using lens range i by (simp add: t set_stream_def Let_def array_get_in array_set_in)
  ultimately show ?thesis using held fs by blast
qed

lemma held_range:
  assumes "streams_ok mx s" and "held_stream s i = Some x"
  shows "1 \<le> i" and "i < int mx" and "allocated_streams_arr s ! nat i"
    and "storage_arr s ! nat i = Some x" and "i \<notin> set (free_streams s)"
proof -
  have i: "0 \<le> i" "i < int mx" "allocated_streams_arr s ! nat i" "storage_arr s ! nat i = Some x"
    using assms by (auto simp: held_stream_def streams_ok_def split: if_splits)
  then have "nat i < mx" by simp
  with i(3) assms(1) have "0 < nat i" unfolding streams_ok_def by blast
  with i show "1 \<le> i" "i < int mx" "allocated_streams_arr s ! nat i" "storage_arr s ! nat i = Some x"
    by simp_all
  show "i \<notin> set (free_streams s)" using assms by (simp add: streams_ok_def)
qed

text \<open>With a stream in use, not all ids are free.\<close>

lemma held_index_positive:
  assumes ok: "streams_ok mx s" and held: "held_stream s i = Some x"
  shows "0 < available_streams_index s"
proof (rule ccontr)
  assume "\<not> 0 < available_streams_index s"
  then have "length (free_streams s) = mx"
    using ok by (simp add: streams_ok_def free_streams_def)
  moreover have "length (free_streams s) = card (set (free_streams s))"
    using ok distinct_card [of "free_streams s"] by (simp add: streams_ok_def)
  moreover have "card (set (free_streams s)) \<le> card ({1..int mx} - {i})"
    using ok held by (intro card_mono) (auto simp: streams_ok_def)
  moreover have "card ({1..int mx} - {i}) < mx"
    using held_range [OF ok held] by (simp add: card_Diff_singleton)
  ultimately show False by linarith
qed

lemma get_stream_releases:
  assumes ok: "streams_ok mx s" and held: "held_stream s i = Some x"
  shows "\<exists>s'. get_stream i True s = Inr (None, s', Some x) \<and> streams_ok mx s' \<and>
     free_streams s' = i # free_streams s \<and> held_stream s' = (held_stream s)(i := None)"
proof -
  let ?n = "available_streams_index s"
  note r = held_range [OF ok held] and pos = held_index_positive [OF ok held]
  have lens: "length (available_streams_arr s) = mx" "length (allocated_streams_arr s) = mx"
    "length (storage_arr s) = mx" "?n < mx"
    using ok by (simp_all add: streams_ok_def)
  obtain t where t: "t = s\<lparr>available_streams_index := nat (int ?n - 1),
      available_streams_arr := (available_streams_arr s)[nat (int ?n - 1) := i],
      allocated_streams_arr := (allocated_streams_arr s)[nat i := False]\<rparr>" by simp
  have n: "nat (int ?n - 1) = ?n - 1" by simp
  have fs: "free_streams t = i # free_streams s"
    using pos lens
    by (simp add: t n free_streams_def drop_update_swap Cons_nth_drop_Suc [symmetric])
  have held': "held_stream t = (held_stream s)(i := None)"
    using r lens by (auto simp: t held_stream_def fun_eq_iff nth_list_update nat_eq_iff)
  have "set (free_streams t) = {1..int mx} - {k. held_stream t k \<noteq> None}"
    using ok r held unfolding held' fs by (auto simp: streams_ok_def)
  moreover have "\<forall>k < mx. allocated_streams_arr t ! k \<longrightarrow> 0 < k \<and> storage_arr t ! k \<noteq> None"
    using ok r lens by (auto simp: t streams_ok_def nth_list_update)
  moreover have "available_streams_index t < mx" "length (available_streams_arr t) = mx"
    "length (allocated_streams_arr t) = mx" "length (storage_arr t) = mx"
    using lens by (simp_all add: t n)
  moreover have "free_streams s \<noteq> []" using free_streams_Cons [OF ok] by simp
  then have "distinct (free_streams t)" "last (free_streams t) = int mx"
    using ok r(5) unfolding fs by (simp_all add: streams_ok_def)
  ultimately have "streams_ok mx t" unfolding streams_ok_def by simp
  moreover have "get_stream i True s = Inr (None, t, Some x)"
    using lens r pos by (simp add: t get_stream_def Let_def array_get_in array_set_in)
  ultimately show ?thesis using held' fs by blast
qed

interpretation streams: stream_pool "set_stream mx" get_stream free_streams held_stream "streams_ok
    mx" for mx
proof
  show "get_stream i False s = Inr (None, s, Some x)"
    if "streams_ok mx s" "held_stream s i = Some x" for s :: "'x stream_storage" and i x
    using held_range [OF that] that(1) by (simp add: get_stream_def array_get_in streams_ok_def)
  show "held_stream s i = None" if "streams_ok mx s" "i \<in> set (free_streams s)"
    for s :: "'x stream_storage" and i
    using that by (auto simp: streams_ok_def)
  show "distinct (free_streams s)" if "streams_ok mx s" for s :: "'x stream_storage"
    using that by (simp add: streams_ok_def)
qed (rule set_stream_takes get_stream_releases; assumption)+

subsection \<open>Reachable states\<close>

inductive streams_reachable :: "nat \<Rightarrow> 'x stream_storage \<Rightarrow> bool" for mx where
  start: "streams_reachable mx (stream_storage_new mx)"
| set_step: "streams_reachable mx s \<Longrightarrow> set_stream mx x s = Inr (e, s', out) \<Longrightarrow> streams_reachable mx s'"
| get_step: "streams_reachable mx s \<Longrightarrow> get_stream i rel s = Inr (e, s', out) \<Longrightarrow> streams_reachable mx s'"

lemma set_stream_last:
  assumes "streams_ok mx s" and "free_streams s = [i]"
  shows "set_stream mx x s = Inl OutOfBounds"
proof -
  have "available_streams_arr s ! available_streams_index s = int mx"
    using assms free_streams_Cons [OF assms(1)] by (simp add: streams_ok_def)
  then show ?thesis
    using assms(1) by (simp add: set_stream_def Let_def array_get_def array_set_def streams_ok_def)
qed

lemma free_streams_cases:
  assumes "streams_ok mx s"
  obtains (last) i where "free_streams s = [i]" | (more) i j "is" where "free_streams s = i # j # is"
  using free_streams_Cons [OF assms] by (metis list.exhaust)

lemma set_stream_preserves:
  assumes "streams_ok mx s" and "set_stream mx x s = Inr (e, s', out)"
  shows "streams_ok mx s'"
  using assms(1)
proof (cases rule: free_streams_cases)
  case last
  then show ?thesis using set_stream_last [OF assms(1)] assms(2) by simp
next
  case more
  then show ?thesis using set_stream_takes [OF assms(1) more, of x] assms(2) by auto
qed

lemma get_stream_cases:
  assumes "streams_ok mx s"
  shows "held_stream s i \<noteq> None \<or> (\<exists>e out. get_stream i rel s = Inr (e, s, out))
     \<or> get_stream i rel s = Inl OutOfBounds"
  using assms
  by (auto simp: get_stream_def array_get_def held_stream_def streams_ok_def)

lemma get_stream_preserves:
  assumes "streams_ok mx s" and "get_stream i rel s = Inr (e, s', out)"
  shows "streams_ok mx s'"
proof (cases "held_stream s i")
  case None
  then show ?thesis using get_stream_cases [OF assms(1), of i rel] assms by auto
next
  case (Some x)
  then show ?thesis
    using streams.get_peeks [OF assms(1) Some] get_stream_releases [OF assms(1) Some] assms
    by (cases rel) auto
qed

lemma reachable_ok: "streams_reachable mx s \<Longrightarrow> 0 < mx \<Longrightarrow> streams_ok mx s"
  by (induction rule: streams_reachable.induct)
    (auto simp: streams_ok_new intro: set_stream_preserves get_stream_preserves)

lemma length_free: "streams_ok mx s \<Longrightarrow> length (free_streams s) = available_streams mx s"
  by (simp add: streams_ok_def free_streams_def available_streams_def)

lemma free_streams_new: "free_streams (stream_storage_new mx) = map int [1..<Suc mx]"
  by (simp add: free_streams_def stream_storage_new_def)

lemma held_stream_new [simp]: "held_stream (stream_storage_new mx) = Map.empty"
  by (auto simp: held_stream_def stream_storage_new_def fun_eq_iff)

lemma available_new [simp]: "available_streams mx (stream_storage_new mx) = mx"
  by (simp add: available_streams_def stream_storage_new_def)

lemma not_held_not_allocated:
  assumes "streams_ok mx s" and "0 \<le> i" and "i < int mx" and "held_stream s i = None"
  shows "\<not> allocated_streams_arr s ! nat i"
proof
  assume a: "allocated_streams_arr s ! nat i"
  have "nat i < mx" using assms(2,3) by simp
  with a assms(1) have "storage_arr s ! nat i \<noteq> None" unfolding streams_ok_def by blast
  with a assms show False by (simp add: held_stream_def streams_ok_def)
qed

subsection \<open>Properties\<close>

text \<open>
  C13: The invariant of the stream pool. In every state that calls of \<open>set_stream\<close> and
  \<open>get_stream\<close> can reach from a new pool, the free ids are distinct, every id between 1 and
  \<open>Max\<close> is either free or in use, and the number of free ids is what \<open>available_streams\<close>
  reports.
\<close>

theorem streams_invariant:
  assumes "streams_reachable mx s" and "0 < mx"
  shows "distinct (free_streams s) \<and> length (free_streams s) = available_streams mx s \<and>
     set (free_streams s) = {1..int mx} - {i. held_stream s i \<noteq> None} \<and>
     {i. held_stream s i \<noteq> None} \<subseteq> {1..<int mx}"
proof -
  have ok: "streams_ok mx s" using reachable_ok [OF assms] .
  then have "i \<in> {1..<int mx}" if "held_stream s i = Some x" for i x
    using held_range(1,2) [OF ok that] by simp
  then show ?thesis using ok length_free [OF ok] by (auto simp: streams_ok_def)
qed

theorem streams_invariant_witness:
  "distinct (free_streams (stream_storage_new 127 :: nat stream_storage)) \<and>
   length (free_streams (stream_storage_new 127 :: nat stream_storage)) =
     available_streams 127 (stream_storage_new 127 :: nat stream_storage) \<and>
   set (free_streams (stream_storage_new 127 :: nat stream_storage)) =
     {1..int 127} - {i. held_stream (stream_storage_new 127 :: nat stream_storage) i \<noteq> None} \<and>
   {i. held_stream (stream_storage_new 127 :: nat stream_storage) i \<noteq> None} \<subseteq> {1..<int 127}"
  by (rule streams_invariant) (simp_all add: streams_reachable.start)

text \<open>
  C14: Requests and answers are matched. Requests that take streams in any reachable state get
  distinct ids as long as more streams are available than there are requests, and when their
  answers arrive, in any order, each id gives back the request it was taken for.
\<close>

theorem stream_answers_match:
  assumes "streams_reachable mx s" and "0 < mx" and "length xs < available_streams mx s"
    and "distinct ks" and "\<forall>k \<in> set ks. k < length xs"
  shows "\<exists>s1 ids s2. set_all (set_stream mx) xs s = Inr (s1, ids) \<and> distinct ids \<and>
     length ids = length xs \<and>
     get_all get_stream (map ((!) ids) ks) s1 = Inr (s2, map (\<lambda>k. Some (xs ! k)) ks)"
  using streams.answers_match [OF reachable_ok [OF assms(1,2)] _ assms(4,5)] assms(3)
    length_free [OF reachable_ok [OF assms(1,2)]] by fastforce

theorem stream_answers_match_witness:
  "\<exists>s1 ids s2. set_all (set_stream 127) [10, 20, 30 :: nat] (stream_storage_new 127) = Inr (s1, ids) \<and>
     distinct ids \<and> length ids = length [10, 20, 30 :: nat] \<and>
     get_all get_stream (map ((!) ids) [2, 0]) s1 = Inr (s2, map (\<lambda>k. Some ([10, 20, 30] ! k)) [2, 0])"
  by (rule stream_answers_match) (simp_all add: streams_reachable.start available_new)

text \<open>
  C31: The last stream cannot be used. Id \<open>Max\<close> indexes behind the two arrays of \<open>Max\<close>
  elements. In every reachable state \<open>set_stream\<close> hands out an unused id while at least two are
  available; with one available it writes out of bounds, and it never reports that no stream is
  available.
\<close>

theorem set_stream_outcome:
  assumes "streams_reachable mx s" and "0 < mx"
  shows "0 < available_streams mx s \<and>
     (if available_streams mx s = 1 then set_stream mx x s = Inl OutOfBounds
      else \<exists>s' i. set_stream mx x s = Inr (None, s', Some i) \<and> held_stream s i = None \<and>
        held_stream s' = (held_stream s)(i \<mapsto> x) \<and>
        available_streams mx s' = available_streams mx s - 1)"
proof -
  have ok: "streams_ok mx s" using reachable_ok [OF assms] .
  from ok show ?thesis
  proof (cases rule: free_streams_cases)
    case (last i)
    then show ?thesis using length_free [OF ok] set_stream_last [OF ok last, of x] by simp
  next
    case (more i j "is")
    obtain s' where s': "set_stream mx x s = Inr (None, s', Some i)" "streams_ok mx s'"
      "free_streams s' = j # is" "held_stream s' = (held_stream s)(i \<mapsto> x)"
      using set_stream_takes [OF ok more, of x] by blast
    moreover have "held_stream s i = None"
      using streams.free_not_held [OF ok, of i] more by simp
    ultimately show ?thesis
      using length_free [OF ok] length_free [OF s'(2)] more by auto
  qed
qed

theorem set_stream_outcome_witness:
  "set_stream 1 (7 :: nat) (stream_storage_new 1) = Inl OutOfBounds \<and>
   (\<exists>s' i. set_stream 127 (7 :: nat) (stream_storage_new 127) = Inr (None, s', Some i) \<and>
      available_streams 127 s' = 126)"
  using set_stream_outcome [OF streams_reachable.start, of 1 "7 :: nat"]
    set_stream_outcome [OF streams_reachable.start, of 127 "7 :: nat"]
  by auto

text \<open>
  A stream that is not in use cannot be released a second time: \<open>get_stream\<close> reports the
  error and changes nothing, and ids outside the pool fault.
\<close>

lemma get_stream_not_held:
  assumes "streams_reachable mx s" and "0 < mx" and "held_stream s i = None"
  shows "get_stream i True s =
     (if 0 \<le> i \<and> i < int mx
      then Inr (Some (error_make CQL_ERROR_SOURCE_LIBRARY CQL_ERROR_LIB_NO_STREAMS
             (str ''this stream has already been released'') (str ''cql_stream_storage.hpp'') 71),
           s, storage_arr s ! nat i)
      else Inl OutOfBounds)"
proof -
  have ok: "streams_ok mx s" using reachable_ok [OF assms(1,2)] .
  with not_held_not_allocated [OF ok _ _ assms(3)] show ?thesis
      by (simp add: get_stream_def array_get_def streams_ok_def)
qed

end
