(* ===== verification/Connection.thy ===== *)
theory Connection
  imports Request Stream_Storage
begin

text \<open>
  \<^verbatim>\<open>include/cql_client_connection.hpp\<close>: the client side of a connection, and
  \<open>opcode_to_string\<close> of \<^verbatim>\<open>include/cql_common.hpp\<close>.

  Calls into libuv, the log callback and stderr are recorded in \<open>c_trace\<close>, in order. The other
  callbacks are client code that may call the connection again: they are functions on the
  connection, fields of the environment \<open>env\<close>, and the connection keeps whether they are set.
  The environment also holds the allocator, the SSL session, and libuv's address printers.
  \<open>CallerRequest\<close> objects live in the heap \<open>c_requests\<close>; a \<open>CallerRequest*\<close> is \<open>None\<close>
  (null) or an index. Deallocation is not modelled.
\<close>

subsection \<open>cql_common.hpp\<close>

definition opcode_name :: "byte \<Rightarrow> string option" where
  "opcode_name opcode =
     (if opcode = CQL_OPCODE_ERROR then Some ''CQL_OPCODE_ERROR''
      else if opcode = CQL_OPCODE_STARTUP then Some ''CQL_OPCODE_STARTUP''
      else if opcode = CQL_OPCODE_READY then Some ''CQL_OPCODE_READY''
      else if opcode = CQL_OPCODE_AUTHENTICATE then Some ''CQL_OPCODE_AUTHENTICATE''
      else if opcode = CQL_OPCODE_CREDENTIALS then Some ''CQL_OPCODE_CREDENTIALS''
      else if opcode = CQL_OPCODE_OPTIONS then Some ''CQL_OPCODE_OPTIONS''
      else if opcode = CQL_OPCODE_SUPPORTED then Some ''CQL_OPCODE_SUPPORTED''
      else if opcode = CQL_OPCODE_QUERY then Some ''CQL_OPCODE_QUERY''
      else if opcode = CQL_OPCODE_RESULT then Some ''CQL_OPCODE_RESULT''
      else if opcode = CQL_OPCODE_PREPARE then Some ''CQL_OPCODE_PREPARE''
      else if opcode = CQL_OPCODE_EXECUTE then Some ''CQL_OPCODE_EXECUTE''
      else if opcode = CQL_OPCODE_REGISTER then Some ''CQL_OPCODE_REGISTER''
      else if opcode = CQL_OPCODE_EVENT then Some ''CQL_OPCODE_EVENT''
      else None)"

definition opcode_to_string :: "byte \<Rightarrow> bytes result" where
  "opcode_to_string opcode =
     (case opcode_name opcode of None \<Rightarrow> Inl AssertionFailed | Some s \<Rightarrow> Inr (str s))"

subsection \<open>State\<close>

datatype client_connection_state =
    CLIENT_STATE_NEW
  | CLIENT_STATE_RESOLVED
  | CLIENT_STATE_CONNECTED
  | CLIENT_STATE_HANDSHAKE
  | CLIENT_STATE_SUPPORTED
  | CLIENT_STATE_READY
  | CLIENT_STATE_DISCONNECTING
  | CLIENT_STATE_DISCONNECTED

text \<open>The order of the enumerators.\<close>

fun state_rank :: "client_connection_state \<Rightarrow> nat" where
  "state_rank CLIENT_STATE_NEW = 0"
| "state_rank CLIENT_STATE_RESOLVED = 1"
| "state_rank CLIENT_STATE_CONNECTED = 2"
| "state_rank CLIENT_STATE_HANDSHAKE = 3"
| "state_rank CLIENT_STATE_SUPPORTED = 4"
| "state_rank CLIENT_STATE_READY = 5"
| "state_rank CLIENT_STATE_DISCONNECTING = 6"
| "state_rank CLIENT_STATE_DISCONNECTED = 7"

lemma state_rank_inject: "state_rank s = state_rank t \<Longrightarrow> s = t"
  by (cases s; cases t) simp_all

instantiation client_connection_state :: linorder
begin

definition less_eq_client_connection_state ::
  "client_connection_state \<Rightarrow> client_connection_state \<Rightarrow> bool" where
  "less_eq_client_connection_state s t \<longleftrightarrow> state_rank s \<le> state_rank t"

definition less_client_connection_state ::
  "client_connection_state \<Rightarrow> client_connection_state \<Rightarrow> bool" where
  "less_client_connection_state s t \<longleftrightarrow> state_rank s < state_rank t"

instance
  by standard
    (auto simp: less_eq_client_connection_state_def less_client_connection_state_def
      intro: state_rank_inject)

end

lemmas state_order = less_eq_client_connection_state_def less_client_connection_state_def

text \<open>The texts that are logged: literal, or the two formatted ones with their arguments.\<close>

datatype log_text =
    Literal string
  | Consumed bytes int nat int
  | Sending bytes int nat

datatype effect =
    Log int log_text
  | Stderr string
  | UvGetaddrinfo bytes bytes
  | UvFreeaddrinfo
  | UvTcpInit
  | UvTcpConnect bytes
  | UvReadStart
  | UvWrite block nat
  | UvClose
  | NotifyAll nat
  | UvQueueWork nat

definition CQL_STREAM_ID_MAX :: nat where "CQL_STREAM_ID_MAX = 127"

record 'ssl connection =
  c_state :: client_connection_state
  c_incomming :: message
  c_stream_storage :: "nat option stream_storage"
  c_connect_callback :: bool
  c_keyspace_callback :: bool
  c_prepare_callback :: bool
  c_log_callback :: bool
  c_address :: bytes
  c_address_string :: bytes
  c_hostname :: bytes
  c_port :: bytes
  c_ssl :: "'ssl option"
  c_ssl_handshake_done :: bool
  c_compression :: bytes
  c_cql_version :: bytes
  c_requests :: "request list"
  c_trace :: "effect list"

text \<open>
  The environment. \<open>ssl_read_write\<close> is \<open>SSLSession::read_write\<close> with no write input, as the
  connection calls it: it returns the session, \<open>read_size\<close>, and the two outputs (\<open>None\<close>
  when they stay null or empty).
\<close>

record ('ssl, 'c) env =
  env_alloc :: allocator
  cb_connect :: "cql_error option \<Rightarrow> 'c \<Rightarrow> 'c result"
  cb_keyspace :: "char_ptr \<Rightarrow> size_t \<Rightarrow> 'c \<Rightarrow> 'c result"
  cb_prepare :: "cql_error option \<Rightarrow> bytes \<Rightarrow> char_ptr \<Rightarrow> size_t \<Rightarrow> 'c \<Rightarrow> 'c result"
  cb_request :: "nat \<Rightarrow> 'c \<Rightarrow> 'c result"
  ssl_start :: "'ssl \<Rightarrow> 'ssl"
  ssl_read_write :: "char_ptr \<Rightarrow> nat \<Rightarrow> 'ssl \<Rightarrow>
    ('ssl \<times> nat \<times> (block \<times> nat) option \<times> (block \<times> nat) option) result"
  ssl_handshake_finished :: "'ssl \<Rightarrow> bool"
  ip4_name :: "bytes \<Rightarrow> bytes"
  ip6_name :: "bytes \<Rightarrow> bytes"

type_synonym 'ssl conn_env = "('ssl, 'ssl connection) env"

definition emit :: "effect \<Rightarrow> 'ssl connection \<Rightarrow> 'ssl connection" where
  "emit e c = c\<lparr>c_trace := c_trace c @ [e]\<rparr>"

text \<open>The constructor; \<open>ssl_start\<close> stands for \<open>init\<close> and \<open>handshake(true)\<close> of the session.\<close>

definition connection_new :: "'ssl conn_env \<Rightarrow> 'ssl option \<Rightarrow> 'ssl connection" where
  "connection_new env ssl_session =
     \<lparr>c_state = CLIENT_STATE_NEW, c_incomming = message_new,
      c_stream_storage = stream_storage_new CQL_STREAM_ID_MAX,
      c_connect_callback = False, c_keyspace_callback = False, c_prepare_callback = False,
      c_log_callback = False, c_address = [], c_address_string = [],
      c_hostname = str ''localhost'', c_port = str ''9042'',
      c_ssl = map_option (ssl_start env) ssl_session, c_ssl_handshake_done = False,
      c_compression = [], c_cql_version = str ''3.0.0'', c_requests = [], c_trace = []\<rparr>"

definition conn_log :: "int \<Rightarrow> log_text \<Rightarrow> 'ssl connection \<Rightarrow> 'ssl connection" where
  "conn_log level text c = (if c_log_callback c then emit (Log level text) c else c)"

definition conn_available_streams :: "'ssl connection \<Rightarrow> nat" where
  "conn_available_streams c = available_streams CQL_STREAM_ID_MAX (c_stream_storage c)"

subsection \<open>Sending\<close>

definition send_data :: "block \<Rightarrow> nat \<Rightarrow> 'ssl connection \<Rightarrow> 'ssl connection" where
  "send_data base len c = emit (UvWrite base len) c"

definition send_message ::
  "'ssl conn_env \<Rightarrow> message \<Rightarrow> nat option \<Rightarrow> 'ssl connection
      \<Rightarrow> (cql_error option \<times> 'ssl connection) result" where
  "send_message env message request c =
     bind_result (set_stream CQL_STREAM_ID_MAX request (c_stream_storage c)) (\<lambda>(err, streams, out).
     let c = c\<lparr>c_stream_storage := streams\<rparr>;
         message = (case out of None \<Rightarrow> message | Some i \<Rightarrow> message\<lparr>m_stream := of_int i\<rparr>) in
     (case err of
        Some e \<Rightarrow> Inr (Some e, c)
      | None \<Rightarrow>
          bind_result (message_prepare (env_alloc env) message) (\<lambda>(message, base, len, _).
          bind_result (opcode_to_string (m_opcode message)) (\<lambda>opcode.
          let c = conn_log CQL_LOG_DEBUG (Sending opcode (sint (m_stream message)) len) c in
          (case base of
             None \<Rightarrow> Inl Indeterminate
           | Some b \<Rightarrow> Inr (None, send_data b len c))))))"

definition send_options :: "'ssl conn_env \<Rightarrow> 'ssl connection \<Rightarrow> 'ssl connection result" where
  "send_options env c =
     (let c = conn_log CQL_LOG_DEBUG (Literal ''send_options'') c in
      bind_result (message_make CQL_OPCODE_OPTIONS) (\<lambda>message.
      bind_result (send_message env message None c) (\<lambda>(_, c). Inr c)))"

definition send_startup :: "'ssl conn_env \<Rightarrow> 'ssl connection \<Rightarrow> 'ssl connection result" where
  "send_startup env c =
     (let c = conn_log CQL_LOG_DEBUG (Literal ''send_startup'') c in
      bind_result (message_make CQL_OPCODE_STARTUP) (\<lambda>message.
      (case m_body message of
         Some (BodyStartup startup) \<Rightarrow>
           (let message = message\<lparr>m_body := Some (BodyStartup (startup\<lparr>su_cql_version :=
             c_cql_version c\<rparr>))\<rparr> in
            bind_result (send_message env message None c) (\<lambda>(_, c). Inr c))
       | _ \<Rightarrow> Inl NullDeref)))"

definition set_keyspace :: "'ssl conn_env \<Rightarrow> bytes \<Rightarrow> 'ssl connection \<Rightarrow> 'ssl connection result" where
  "set_keyspace env keyspace c =
     bind_result (message_make CQL_OPCODE_QUERY) (\<lambda>message.
     (case m_body message of
        Some (BodyQuery query) \<Rightarrow>
          (let message = message\<lparr>m_body := Some (BodyQuery (query_string (str ''USE '' @ keyspace) query))\<rparr> in
           bind_result (send_message env message None c) (\<lambda>(_, c). Inr c))
      | _ \<Rightarrow> Inl NullDeref))"

subsection \<open>Notifying\<close>

definition notify_ready :: "'ssl conn_env \<Rightarrow> 'ssl connection \<Rightarrow> 'ssl connection result" where
  "notify_ready env c =
     (let c = conn_log CQL_LOG_DEBUG (Literal ''notify_ready'') c in
      if c_connect_callback c then cb_connect env None c else Inr c)"

definition notify_error :: "'ssl conn_env \<Rightarrow> cql_error \<Rightarrow> 'ssl connection \<Rightarrow> 'ssl connection result" where
  "notify_error env err c =
     (let c = conn_log CQL_LOG_DEBUG (Literal ''notify_error'') c in
      if c_connect_callback c then cb_connect env (Some err) c else Inr c)"

text \<open>\<open>request->notify(loop_)\<close> for a request of the heap.\<close>

definition notify_request :: "'ssl conn_env \<Rightarrow> nat \<Rightarrow> 'ssl connection \<Rightarrow> 'ssl connection result" where
  "notify_request env i c =
     bind_result (array_get (c_requests c) (int i)) (\<lambda>r.
     let (r, action) = notify r;
         c = emit (NotifyAll i) (c\<lparr>c_requests := (c_requests c)[i := r]\<rparr>) in
     (case action of
        NoCallback \<Rightarrow> Inr c
      | CallCallback \<Rightarrow> cb_request env i c
      | QueueCallback \<Rightarrow> Inr (emit (UvQueueWork i) c)))"

text \<open>The pointer read from the stream storage: indeterminate, null, or a request.\<close>

definition deref_request :: "nat option option \<Rightarrow> nat result" where
  "deref_request p =
     (case p of None \<Rightarrow> Inl Indeterminate | Some None \<Rightarrow> Inl NullDeref | Some (Some i) \<Rightarrow> Inr i)"

definition finish_request ::
  "'ssl conn_env \<Rightarrow> message \<Rightarrow> nat option option \<Rightarrow> 'ssl connection \<Rightarrow> 'ssl connection result" where
  "finish_request env response request c =
     bind_result (deref_request request) (\<lambda>i.
     bind_result (array_get (c_requests c) (int i)) (\<lambda>r.
     notify_request env i (c\<lparr>c_requests := (c_requests c)[i := r\<lparr>rq_result := Some response\<rparr>]\<rparr>)))"

subsection \<open>The state machine\<close>

definition resolve :: "'ssl connection \<Rightarrow> 'ssl connection" where
  "resolve c = emit (UvGetaddrinfo (c_hostname c) (c_port c)) (conn_log CQL_LOG_DEBUG (Literal ''resolve'') c)"

definition connect :: "'ssl connection \<Rightarrow> 'ssl connection" where
  "connect c = emit (UvTcpConnect (c_address c)) (emit UvTcpInit (conn_log CQL_LOG_DEBUG (Literal ''connect'') c))"

text \<open>
  The switch of \<open>event_received\<close>, with \<open>ssl_handshake\<close> as an argument: \<open>ssl_handshake\<close> runs
  handlers that call \<open>event_received\<close> again, but only in other states.
\<close>

definition event_switch ::
  "('ssl connection \<Rightarrow> 'ssl connection result) \<Rightarrow> 'ssl conn_env \<Rightarrow> 'ssl connection
      \<Rightarrow> 'ssl connection result" where
  "event_switch handshake env c =
     (let c = conn_log CQL_LOG_DEBUG (Literal ''event received'') c in
      (case c_state c of
         CLIENT_STATE_NEW \<Rightarrow> Inr (resolve c)
       | CLIENT_STATE_RESOLVED \<Rightarrow> Inr (connect c)
       | CLIENT_STATE_CONNECTED \<Rightarrow> handshake c
       | CLIENT_STATE_HANDSHAKE \<Rightarrow> send_options env c
       | CLIENT_STATE_SUPPORTED \<Rightarrow> send_startup env c
       | CLIENT_STATE_READY \<Rightarrow> notify_ready env c
       | _ \<Rightarrow> Inl AssertionFailed))"

text \<open>\<open>event_received\<close> where the state is not \<open>CLIENT_STATE_CONNECTED\<close>.\<close>

definition event_received_late :: "'ssl conn_env \<Rightarrow> 'ssl connection \<Rightarrow> 'ssl connection result" where
  "event_received_late env c = event_switch (\<lambda>_. Inl Diverged) env c"

subsection \<open>Responses\<close>

definition on_supported :: "'ssl conn_env \<Rightarrow> message \<Rightarrow> 'ssl connection \<Rightarrow> 'ssl connection result" where
  "on_supported env response c =
     (let c = conn_log CQL_LOG_DEBUG (Literal ''on_supported'') c in
      event_received_late env (c\<lparr>c_state := CLIENT_STATE_SUPPORTED\<rparr>))"

definition on_ready :: "'ssl conn_env \<Rightarrow> message \<Rightarrow> 'ssl connection \<Rightarrow> 'ssl connection result" where
  "on_ready env response c =
     (let c = conn_log CQL_LOG_DEBUG (Literal ''on_ready'') c in
      event_received_late env (c\<lparr>c_state := CLIENT_STATE_READY\<rparr>))"

text \<open>The server's message is converted from \<open>char*\<close> to \<open>std::string\<close>.\<close>

definition on_error :: "'ssl conn_env \<Rightarrow> message \<Rightarrow> 'ssl connection \<Rightarrow> 'ssl connection result" where
  "on_error env response c =
     (let c = conn_log CQL_LOG_DEBUG (Literal ''on_error'') c in
      (case m_body response of
         Some (BodyError err) \<Rightarrow>
           (if c_state c < CLIENT_STATE_READY
            then bind_result (c_string (err_message err)) (\<lambda>text.
              notify_error env
                (error_make CQL_ERROR_SOURCE_SERVER 0 text (str ''cql_client_connection.hpp'') 500) c)
            else Inr c)
       | _ \<Rightarrow> Inl NullDeref))"

text \<open>The \<open>CQL_RESULT_KIND_PREPARED\<close> case.\<close>

definition on_prepared ::
  "'ssl conn_env \<Rightarrow> message \<Rightarrow> body_result \<Rightarrow> 'ssl connection \<Rightarrow> 'ssl connection result" where
  "on_prepared env response res c =
     bind_result (get_stream (sint (m_stream response)) True (c_stream_storage c)) (\<lambda>(err, streams,
       request).
     let c = c\<lparr>c_stream_storage := streams\<rparr> in
     bind_result
       (if c_prepare_callback c
        then bind_result (deref_request request) (\<lambda>i.
             bind_result (array_get (c_requests c) (int i)) (\<lambda>r.
             cb_prepare env err (rq_data r) (r_prepared res) (r_prepared_size res) c))
        else Inr c) (\<lambda>c.
     if err = None then finish_request env response request c else Inr c))"

definition on_result :: "'ssl conn_env \<Rightarrow> message \<Rightarrow> 'ssl connection \<Rightarrow> 'ssl connection result" where
  "on_result env response c =
     (let c = conn_log CQL_LOG_DEBUG (Literal ''on_result'') c in
      (case m_body response of
         Some (BodyResult res) \<Rightarrow>
           (if r_kind res = CQL_RESULT_KIND_SET_KEYSPACE
            then (if c_keyspace_callback c
                  then cb_keyspace env (r_keyspace res) (r_keyspace_size res) c else Inr c)
            else if r_kind res = CQL_RESULT_KIND_PREPARED then on_prepared env response res c
            else bind_result (get_stream (sint (m_stream response)) True (c_stream_storage c))
              (\<lambda>(err, streams, request).
                let c = c\<lparr>c_stream_storage := streams\<rparr> in
                (case err of
                   None \<Rightarrow> finish_request env response request c
                 | Some e \<Rightarrow> if c_connect_callback c then cb_connect env (Some e) c else Inr c)))
       | _ \<Rightarrow> Inl NullDeref))"

subsection \<open>Reading\<close>

text \<open>What \<open>consume\<close> does with a complete message.\<close>

definition on_message ::
  "'ssl conn_env \<Rightarrow> message \<Rightarrow> nat \<Rightarrow> int32 \<Rightarrow> 'ssl connection \<Rightarrow> 'ssl connection result" where
  "on_message env message sz remaining c =
     bind_result (opcode_to_string (m_opcode message)) (\<lambda>opcode.
     let c = conn_log CQL_LOG_DEBUG (Consumed opcode (sint (m_stream message)) sz (sint remaining)) c in
     if sint (m_stream message) < 0 then Inl AssertionFailed
     else if m_opcode message = CQL_OPCODE_SUPPORTED then on_supported env message c
     else if m_opcode message = CQL_OPCODE_ERROR then on_error env message c
     else if m_opcode message = CQL_OPCODE_READY then on_ready env message c
     else if m_opcode message = CQL_OPCODE_RESULT then on_result env message c
     else Inl AssertionFailed)"

text \<open>The loop of \<open>consume\<close>, with fuel for its iterations.\<close>

fun consume_loop ::
  "nat \<Rightarrow> 'ssl conn_env \<Rightarrow> nat \<Rightarrow> char_ptr \<Rightarrow> int32 \<Rightarrow> 'ssl connection \<Rightarrow> 'ssl connection result" where
  "consume_loop 0 env sz buffer remaining c = (if remaining = 0 then Inr c else Inl Diverged)"
| "consume_loop (Suc fuel) env sz buffer remaining c =
     (if remaining = 0 then Inr c
      else bind_result (message_consume (env_alloc env) (c_incomming c) buffer (unat (scast
        remaining :: size_t)))
        (\<lambda>(consumed, message).
        let c = (if sint consumed < 0 then emit (Stderr ''consume error'') c else c) in
        bind_result
          (if m_body_ready message
           then on_message env message sz remaining (c\<lparr>c_incomming := message_new\<rparr>)
           else Inr (c\<lparr>c_incomming := message\<rparr>)) (\<lambda>c.
        bind_result (ptr_add_int buffer (sint consumed)) (\<lambda>buffer.
        consume_loop fuel env sz buffer (remaining - consumed) c))))"

text \<open>A call takes at least one byte from the input, so \<open>size\<close> iterations are enough.\<close>

definition consume :: "'ssl conn_env \<Rightarrow> char_ptr \<Rightarrow> nat \<Rightarrow> 'ssl connection \<Rightarrow> 'ssl connection result" where
  "consume env input sz c = consume_loop sz env sz input (of_nat sz) c"

definition close :: "'ssl connection \<Rightarrow> 'ssl connection" where
  "close c = emit UvClose ((conn_log CQL_LOG_DEBUG (Literal ''close'') c)\<lparr>c_state := CLIENT_STATE_DISCONNECTING\<rparr>)"

text \<open>
  The SSL branch of \<open>on_read\<close>. Whether it ends depends on the progress the session makes; the
  fuel bounds its iterations.
\<close>

fun ssl_read_loop ::
  "nat \<Rightarrow> 'ssl conn_env \<Rightarrow> char_ptr \<Rightarrow> nat \<Rightarrow> 'ssl connection \<Rightarrow> 'ssl connection result" where
  "ssl_read_loop 0 env read_input read_input_size c = Inl Diverged"
| "ssl_read_loop (Suc fuel) env read_input read_input_size c =
     (case c_ssl c of
        None \<Rightarrow> Inl NullDeref
      | Some session \<Rightarrow>
          bind_result (ssl_read_write env read_input read_input_size session)
            (\<lambda>(session, read_size, read_output, write_output).
          let c = c\<lparr>c_ssl := Some session\<rparr> in
          bind_result
            (case read_output of None \<Rightarrow> Inr c | Some (b, n) \<Rightarrow> consume env (Ptr b 0) n c) (\<lambda>c.
          let c = (case write_output of None \<Rightarrow> c | Some (b, n) \<Rightarrow> send_data b n c) in
          if read_size < read_input_size
          then bind_result
                 (if \<not> c_ssl_handshake_done c
                  then (case c_ssl c of
                          None \<Rightarrow> Inl NullDeref
                        | Some session \<Rightarrow>
                            if ssl_handshake_finished env session
                            then event_received_late env (c\<lparr>c_state := CLIENT_STATE_HANDSHAKE\<rparr>)
                            else Inr c)
                  else Inr c)
                 (ssl_read_loop fuel env (ptr_add read_input read_size) (read_input_size - read_size))
          else Inr c)))"

text \<open>The conversion of the \<open>ssize_t\<close> that libuv passes to the \<open>size_t\<close> that is used: modulo \<open>2 ^ 64\<close>.\<close>

definition size_of_ssize :: "int \<Rightarrow> nat" where
  "size_of_ssize n = (if n < 0 then nat (2 ^ 64 + n) else nat n)"

lemma size_of_ssize_simps [simp]:
  "size_of_ssize (int n) = n" "size_of_ssize 0 = 0" "size_of_ssize 1 = 1"
  "size_of_ssize (numeral k) = numeral k"
  by (simp_all add: size_of_ssize_def)

text \<open>
  \<open>eof\<close>: the last error of the loop is \<open>UV_EOF\<close>. Only \<open>- 1\<close> is an error to the code; another
  negative \<open>nread\<close> is taken as a huge size.
\<close>

definition on_read ::
  "nat \<Rightarrow> 'ssl conn_env \<Rightarrow> bool \<Rightarrow> int \<Rightarrow> char_ptr \<Rightarrow> 'ssl connection \<Rightarrow> 'ssl connection result" where
  "on_read fuel env eof nread base c =
     (let c = conn_log CQL_LOG_DEBUG (Literal ''on_read'') c in
      if nread = - 1
      then Inr (close (if eof then c else emit (Stderr ''Read error'') c))
      else if c_ssl c \<noteq> None then ssl_read_loop fuel env base (size_of_ssize nread) c
      else consume env base (size_of_ssize nread) c)"

definition ssl_handshake :: "nat \<Rightarrow> 'ssl conn_env \<Rightarrow> 'ssl connection \<Rightarrow> 'ssl connection result" where
  "ssl_handshake fuel env c =
     (if c_ssl c \<noteq> None then on_read fuel env True 0 (Ptr (new_char (env_alloc env) 0) 0) c
      else event_received_late env (c\<lparr>c_state := CLIENT_STATE_HANDSHAKE\<rparr>))"

definition event_received :: "nat \<Rightarrow> 'ssl conn_env \<Rightarrow> 'ssl connection \<Rightarrow> 'ssl connection result" where
  "event_received fuel env c = event_switch (ssl_handshake fuel env) env c"

subsection \<open>The other callbacks of libuv\<close>

definition on_close :: "nat \<Rightarrow> 'ssl conn_env \<Rightarrow> 'ssl connection \<Rightarrow> 'ssl connection result" where
  "on_close fuel env c =
     event_received fuel env
       ((conn_log CQL_LOG_DEBUG (Literal ''on_close'') c)\<lparr>c_state := CLIENT_STATE_DISCONNECTED\<rparr>)"

definition on_connect :: "nat \<Rightarrow> 'ssl conn_env \<Rightarrow> int \<Rightarrow> 'ssl connection \<Rightarrow> 'ssl connection result" where
  "on_connect fuel env status c =
     (let c = conn_log CQL_LOG_DEBUG (Literal ''on_connect'') c in
      if status = - 1 then Inr (emit (Stderr ''connect failed error'') c)
      else event_received fuel env ((emit UvReadStart c)\<lparr>c_state := CLIENT_STATE_CONNECTED\<rparr>))"

definition on_write :: "int \<Rightarrow> 'ssl connection \<Rightarrow> 'ssl connection" where
  "on_write status c =
     (let c = conn_log CQL_LOG_DEBUG (Literal ''on_write'') c in
      if status = - 1 then emit (Stderr ''Write error'') c else c)"

text \<open>
  The resolved address is its family and its \<open>sockaddr\<close> as bytes; a \<open>sockaddr_in\<close> has 16.
\<close>

datatype addr_family = AF_INET | AF_INET6 | AF_OTHER

definition on_resolve ::
  "nat \<Rightarrow> 'ssl conn_env \<Rightarrow> int \<Rightarrow> addr_family \<Rightarrow> bytes \<Rightarrow> 'ssl connection \<Rightarrow> 'ssl connection result" where
  "on_resolve fuel env status family addr c =
     (let c = conn_log CQL_LOG_DEBUG (Literal ''on_resolve'') c in
      if status = - 1 then Inr (emit (Stderr ''getaddrinfo request error'') c)
      else let c = (case family of
                      AF_INET \<Rightarrow> c\<lparr>c_address_string := ip4_name env addr\<rparr>
                    | AF_INET6 \<Rightarrow> c\<lparr>c_address_string := ip6_name env addr\<rparr>
                    | AF_OTHER \<Rightarrow> c);
               c = emit UvFreeaddrinfo (c\<lparr>c_address := take 16 addr\<rparr>) in
        event_received fuel env (c\<lparr>c_state := CLIENT_STATE_RESOLVED\<rparr>))"

subsection \<open>What clients call\<close>

definition init :: "nat \<Rightarrow> 'ssl conn_env \<Rightarrow> bool \<Rightarrow> bool \<Rightarrow> 'ssl connection \<Rightarrow> 'ssl connection result" where
  "init fuel env connect_cb keyspace_cb c =
     event_received fuel env (c\<lparr>c_connect_callback := connect_cb, c_keyspace_callback := keyspace_cb\<rparr>)"

text \<open>
  The common end of \<open>prepare\<close> and \<open>exec\<close>, from the call of \<open>send_message\<close> on: \<open>request\<close> is the
  object that \<open>new CallerRequest()\<close> made, at the end of the heap. On its own this is not a
  function of the source: the two methods below run the constructor \<open>request_new\<close> before it.
\<close>

definition submit ::
  "'ssl conn_env \<Rightarrow> message \<Rightarrow> request \<Rightarrow> 'ssl connection \<Rightarrow> (nat \<times> 'ssl connection) result" where
  "submit env message request c =
     (let i = length (c_requests c); c = c\<lparr>c_requests := c_requests c @ [request]\<rparr> in
      bind_result (send_message env message (Some i) c) (\<lambda>(err, c).
      (case err of
         None \<Rightarrow> Inr (i, c)
       | Some e \<Rightarrow>
           bind_result (array_get (c_requests c) (int i)) (\<lambda>r.
           bind_result (notify_request env i (c\<lparr>c_requests := (c_requests c)[i := r\<lparr>rq_error := Some e\<rparr>]\<rparr>))
             (\<lambda>c. Inr (i, c))))))"

definition conn_prepare ::
  "'ssl conn_env \<Rightarrow> char_ptr \<Rightarrow> nat \<Rightarrow> bool \<Rightarrow> 'ssl connection \<Rightarrow> (nat \<times> 'ssl connection) result" where
  "conn_prepare env statement sz callback c =
     bind_result request_new (\<lambda>request.
     bind_result (message_make CQL_OPCODE_PREPARE) (\<lambda>message.
     (case m_body message of
        Some (BodyPrepare prepare) \<Rightarrow>
          bind_result (prepare_string_ptr statement sz prepare) (\<lambda>prepare.
          bind_result (load_bytes statement sz) (\<lambda>text.
          submit env (message\<lparr>m_body := Some (BodyPrepare prepare)\<rparr>)
            (request\<lparr>rq_callback := callback, rq_data := text\<rparr>) c))
      | _ \<Rightarrow> Inl NullDeref)))"

definition exec ::
  "'ssl conn_env \<Rightarrow> message \<Rightarrow> bool \<Rightarrow> 'ssl connection \<Rightarrow> (nat \<times> 'ssl connection) result" where
  "exec env message callback c =
     bind_result request_new (\<lambda>request. submit env message (request\<lparr>rq_callback := callback\<rparr>) c)"

end
