(* ===== verification/Connection_Lemmas.thy ===== *)
theory Connection_Lemmas
  imports Connection
begin

text \<open>
  Lemmas on the connection: no handler runs out of fuel, the stream pool and the request heap
  stay consistent, and the loop of \<open>consume\<close> handles the frames of a chunk one by one. The
  contract of the client's callbacks is a locale.
\<close>

subsection \<open>What the effects leave alone\<close>

lemma emit_fields [simp]:
  "c_state (emit e c) = c_state c" "c_state (conn_log l t c) = c_state c" "c_state (send_data b n c)
      = c_state c"
  "c_incomming (emit e c) = c_incomming c" "c_incomming (conn_log l t c) =
      c_incomming c" "c_incomming (send_data b n c) = c_incomming c"
  "c_stream_storage (emit e c) = c_stream_storage c" "c_stream_storage (conn_log l t c) =
      c_stream_storage c" "c_stream_storage (send_data b n c) = c_stream_storage c"
  "c_connect_callback (emit e c) = c_connect_callback c" "c_connect_callback (conn_log l t c) =
      c_connect_callback c" "c_connect_callback (send_data b n c) = c_connect_callback c"
  "c_keyspace_callback (emit e c) = c_keyspace_callback c" "c_keyspace_callback (conn_log l t c) =
      c_keyspace_callback c" "c_keyspace_callback (send_data b n c) = c_keyspace_callback c"
  "c_prepare_callback (emit e c) = c_prepare_callback c" "c_prepare_callback (conn_log l t c) =
      c_prepare_callback c" "c_prepare_callback (send_data b n c) = c_prepare_callback c"
  "c_log_callback (emit e c) = c_log_callback c" "c_log_callback (conn_log l t c) =
      c_log_callback c" "c_log_callback (send_data b n c) = c_log_callback c"
  "c_address (emit e c) = c_address c" "c_address (conn_log l t c) =
      c_address c" "c_address (send_data b n c) = c_address c"
  "c_address_string (emit e c) = c_address_string c" "c_address_string (conn_log l t c) =
      c_address_string c" "c_address_string (send_data b n c) = c_address_string c"
  "c_hostname (emit e c) = c_hostname c" "c_hostname (conn_log l t c) =
      c_hostname c" "c_hostname (send_data b n c) = c_hostname c"
  "c_port (emit e c) = c_port c" "c_port (conn_log l t c) = c_port c" "c_port (send_data b n c) = c_port c"
  "c_ssl (emit e c) = c_ssl c" "c_ssl (conn_log l t c) = c_ssl c" "c_ssl (send_data b n c) = c_ssl c"
  "c_ssl_handshake_done (emit e c) = c_ssl_handshake_done c" "c_ssl_handshake_done (conn_log l t c)
      = c_ssl_handshake_done c" "c_ssl_handshake_done (send_data b n c) = c_ssl_handshake_done c"
  "c_compression (emit e c) = c_compression c" "c_compression (conn_log l t c) =
      c_compression c" "c_compression (send_data b n c) = c_compression c"
  "c_cql_version (emit e c) = c_cql_version c" "c_cql_version (conn_log l t c) =
      c_cql_version c" "c_cql_version (send_data b n c) = c_cql_version c"
  "c_requests (emit e c) = c_requests c" "c_requests (conn_log l t c) =
      c_requests c" "c_requests (send_data b n c) = c_requests c"
  by (simp_all add: emit_def conn_log_def send_data_def)

subsection \<open>Results that are not out of fuel\<close>

named_theorems halts_rules \<open>operations that never run out of fuel\<close>

definition halts :: "'a result \<Rightarrow> bool" where
  "halts r \<longleftrightarrow> r \<noteq> Inl Diverged"

lemma halts_simps [simp]:
  "halts (Inr x)" "halts (Inl e) \<longleftrightarrow> e \<noteq> Diverged"
  by (simp_all add: halts_def)

lemma halts_bind [intro]:
  assumes "halts m" and "\<And>x. m = Inr x \<Longrightarrow> halts (f x)"
  shows "halts (bind_result m f)"
  using assms by (cases m) simp_all

lemma halts_load [halts_rules]: "halts (load_bytes P n)"
  by (cases P) simp_all

lemma halts_put [halts_rules]: "halts (put b p xs)"
  by (simp add: put_def)

lemma halts_ptr_add_int [halts_rules]: "halts (ptr_add_int P k)"
  by (cases P) simp_all

lemma halts_array [halts_rules]: "halts (array_get xs i)" "halts (array_set xs i v)"
  by (simp_all add: array_get_def array_set_def)

lemma halts_c_string_at: "halts (c_string_at b)"
  by (induction b rule: c_string_at.induct) (auto intro!: halts_bind)

lemma halts_c_string [halts_rules]: "halts (c_string P)"
  by (cases P) (simp_all add: halts_c_string_at)

lemma halts_for_loop:
  assumes "\<And>i s. halts (body i s)"
  shows "halts (for_loop i n body s)"
  by (induction n arbitrary: i s) (auto intro!: halts_bind assms)

lemma halts_decode_short [halts_rules]: "halts (decode_short P)"
  unfolding decode_short_def by (auto intro!: halts_bind halts_rules)

lemma halts_decode_int [halts_rules]: "halts (decode_int P)"
  unfolding decode_int_def by (auto intro!: halts_bind halts_rules)

lemma halts_decode_string [halts_rules]: "halts (decode_string P n)"
  unfolding decode_string_def Let_def by (auto intro!: halts_bind halts_rules)

lemma halts_decode_long_string [halts_rules]: "halts (decode_long_string P n)"
  unfolding decode_long_string_def Let_def by (auto intro!: halts_bind halts_rules)

lemma halts_decode_option [halts_rules]: "halts (decode_option P cn n)"
  unfolding decode_option_def by (auto intro!: halts_bind halts_rules)

lemma halts_decode_stringlist [halts_rules]: "halts (decode_stringlist P)"
  unfolding decode_stringlist_def decode_list_entry_def
  by (auto intro!: halts_bind halts_for_loop halts_rules)

lemma halts_decode_string_map [halts_rules]: "halts (decode_string_map P)"
  unfolding decode_string_map_def decode_map_entry_def
  by (auto intro!: halts_bind halts_for_loop halts_rules)

lemma halts_decode_string_multimap [halts_rules]: "halts (decode_string_multimap P)"
  unfolding decode_string_multimap_def decode_multimap_entry_def
  by (auto intro!: halts_bind halts_for_loop halts_rules)

lemma halts_parse_column [halts_rules]: "halts (parse_column i s)"
  unfolding parse_column_def parse_column_table_def parse_column_primary_def
    parse_column_secondary_def Let_def
  by (auto intro!: halts_bind halts_rules split: prod.split)

lemma halts_parse_metadata [halts_rules]: "halts (parse_metadata P r)"
  unfolding parse_metadata_def parse_page_state_def parse_table_spec_def parse_columns_def
    resize_metadata_def Let_def
  by (auto intro!: halts_bind halts_for_loop halts_rules split: prod.split)

lemma halts_body_result_consume [halts_rules]: "halts (body_result_consume P n r)"
  unfolding body_result_consume_def parse_rows_def parse_set_keyspace_def parse_prepared_def
    parse_schema_change_def Let_def
  by (auto intro!: halts_bind halts_rules)

lemma halts_body_consume [halts_rules]: "halts (body_consume P n b)"
  by (cases b)
    (auto intro!: halts_bind halts_rules
      simp: with_body_def body_error_consume_def body_options_consume_def body_prepare_consume_def
        body_query_consume_def body_ready_consume_def body_startup_consume_def
        body_supported_consume_def Let_def)

lemma halts_allocate_body [halts_rules]: "halts (allocate_body op)"
  by (simp add: allocate_body_def)

lemma halts_set_stream [halts_rules]: "halts (set_stream mx x s)"
  unfolding set_stream_def Let_def by (auto intro!: halts_bind halts_rules)

lemma halts_get_stream [halts_rules]: "halts (get_stream i rel s)"
  unfolding get_stream_def Let_def by (auto intro!: halts_bind halts_rules)

lemma halts_encode [halts_rules]:
  "halts (encode_byte b p v)" "halts (encode_short b p s)" "halts (encode_int b p i)"
  "halts (encode_string_map b p m)"
  by (simp_all add: wire halts_put)

lemma halts_encode_string [halts_rules]:
  "halts (encode_string b p input n)" "halts (encode_long_string b p input n)"
  unfolding encode_string_def encode_long_string_def by (auto intro!: halts_bind halts_rules)

lemma halts_encode_values [halts_rules]: "halts (encode_values b p vs)"
  by (induction b p vs rule: encode_values.induct) (auto intro!: halts_bind halts_rules)

lemma halts_body_query_prepare [halts_rules]: "halts (body_query_prepare alloc r n q)"
  unfolding body_query_prepare_def Let_def by (auto intro!: halts_bind halts_rules)

lemma halts_body_prepare_out [halts_rules]: "halts (body_prepare_out alloc r n b)"
  by (cases b)
    (auto intro!: halts_bind halts_rules
      simp: body_error_prepare_def body_options_prepare_def body_prepare_prepare_def
        body_ready_prepare_def body_result_prepare_def body_startup_prepare_def
        body_supported_prepare_def Let_def)

lemma halts_message_prepare [halts_rules]: "halts (message_prepare alloc m)"
  unfolding message_prepare_def finish_prepare_def Let_def
  by (auto intro!: halts_bind halts_rules split: option.split if_split)

lemma halts_opcode_to_string [halts_rules]: "halts (opcode_to_string op)"
  unfolding opcode_to_string_def by (simp split: option.split)

lemma halts_send_message [halts_rules]: "halts (send_message env m r c)"
  unfolding send_message_def Let_def
  by (auto intro!: halts_bind halts_rules split: option.split)

subsection \<open>Progress of the reader\<close>

lemma header_bytes:
  assumes "length H = 8"
  shows "H = wire_header (H ! 0) (H ! 1) (H ! 2) (H ! 3) (htonl (val32 (drop 4 H)))"
proof -
  have "be32 (htonl (val32 (drop 4 H))) = drop 4 H"
    using assms by (intro be_ntoh(2)) simp
  moreover have "H = [H ! 0, H ! 1, H ! 2, H ! 3] @ drop 4 H"
    using assms by (auto simp: list_eq_iff_nth_eq nth_append nth_Cons' less_Suc_eq_0_disj eval_nat_numeral)
  ultimately show ?thesis by (simp add: wire_header_def)
qed

text \<open>A chunk that reaches the end of the header.\<close>

lemma header_split:
  assumes "header_partial m h" and "8 \<le> length h + length bs"
  obtains c rest v f s op L where "bs = c @ rest" and "c \<noteq> []" and "h @ c = wire_header v f s op L"
proof -
  let ?c = "take (8 - length h) bs"
  have "length (h @ ?c) = 8" and "?c \<noteq> []"
    using assms by (auto simp: header_partial_def)
  with header_bytes [of "h @ ?c"] that [of ?c "drop (8 - length h) bs"] show ?thesis
    by (metis append_take_drop_id)
qed

definition progress :: "(int32 \<times> message) result \<Rightarrow> nat \<Rightarrow> bool" where
  "progress r n \<longleftrightarrow> halts r \<and> (\<forall>k m'. r = Inr (k, m') \<longrightarrow>
     (\<exists>j. k = of_nat j \<and> 0 < j \<and> j \<le> n \<and> (\<not> m_body_ready m' \<longrightarrow> j = n)))"

lemma progress_frame:
  assumes "header_partial m h" and hc: "h @ c = wire_header v f s op (of_nat (length bb))"
    and "points_to P (c @ bb @ rr)" and "allocate_body op = Inr b" and "c \<noteq> []"
    and "8 + length bb + length rr < 2147483648" and "\<And>n. n \<le> alloc n"
  shows "progress (message_consume alloc m P (length (c @ bb @ rr))) (length (c @ bb @ rr))"
proof -
  have "halts (body_consume (Ptr (framed alloc (length bb) 0 bb) 0) (length bb) b)"
    by (rule halts_rules)
  then show ?thesis
    unfolding message_consume_frame [OF assms(1-4,6,7) refl] progress_def
    using assms(5) by (auto simp: frame_done_def intro!: halts_bind exI [of _ "length (c @ bb)"])
qed

lemma message_consume_progress:
  assumes m: "header_partial m h" and P: "points_to P bs" and bs: "bs \<noteq> []"
    and len: "length bs < 2147483640" and alloc: "\<And>n. n \<le> alloc n"
  shows "progress (message_consume alloc m P (length bs)) (length bs)"
proof (cases "length h + length bs < 8")
  case True
  with message_consume_header_part [OF m P, of alloc] bs show ?thesis by (auto simp: progress_def)
next
  case False
  then have "8 \<le> length h + length bs" by simp
  then obtain c rest v f s op L where split: "bs = c @ rest" "c \<noteq> []"
    and hc: "h @ c = wire_header v f s op L"
    by (rule header_split [OF m])
  have c: "points_to P c" and rest: "length rest < 2147483640" and sz: "length bs = length c + length rest"
    using P len split by simp_all
  show ?thesis
  proof (cases "sint L < 0 \<or> (\<exists>e. allocate_body op = Inl e)")
    case True
    then obtain e where "message_consume alloc m P (length bs) = Inl e" "e \<noteq> Diverged"
      using message_consume_header_fault [OF m hc c sz rest] consume_header_eq [OF m hc c sz, of alloc]
        rest halts_allocate_body [of op] by (auto split: if_splits)
    then show ?thesis by (simp add: progress_def)
  next
    case False
    then obtain b where b: "allocate_body op = Inr b" and pos: "0 \<le> sint L"
      by (cases "allocate_body op") auto
    obtain n where n: "n = nat (sint L)" by simp
    with pos have L: "L = of_nat n" by simp
    have n31: "n < 2147483648" using sint_lt [of L] by (simp add: n)
    show ?thesis
    proof (cases "n \<le> length rest")
      case True
      then have bs': "bs = c @ take n rest @ drop n rest" and ln: "length (take n rest) = n"
        using split by simp_all
      have hc': "h @ c = wire_header v f s op (of_nat (length (take n rest)))"
        using hc L ln by simp
      have P': "points_to P (c @ take n rest @ drop n rest)"
        using P by (subst (asm) bs')
      show ?thesis
        using progress_frame [OF m hc' P' b split(2) _ alloc] rest bs' ln by simp
    next
      case False
      then show ?thesis
        using message_consume_header_end [where alloc = alloc, OF m hc [unfolded L] _ b n31 _ rest
          alloc [of n], of P "length bs"]
          P split by (auto simp: progress_def intro!: exI [of _ "length bs"])
    qed
  qed
qed

subsection \<open>The invariant of a connection\<close>

text \<open>The stream pool is consistent, and streams in use stand for null or for an existing request.\<close>

definition conn_ok :: "'ssl connection \<Rightarrow> bool" where
  "conn_ok c \<longleftrightarrow> streams_ok CQL_STREAM_ID_MAX (c_stream_storage c) \<and>
     (\<forall>i r. held_stream (c_stream_storage c) i = Some (Some r) \<longrightarrow> r < length (c_requests c))"

text \<open>
  The types of bodies: once the header has been read, the body of a message is of the class that
  belongs to its opcode.
\<close>

definition message_typed :: "message \<Rightarrow> bool" where
  "message_typed m \<longleftrightarrow> (m_body_ready m \<longrightarrow> m_header_received m) \<and>
     (m_header_received m \<longrightarrow> (\<exists>b. m_body m = Some b \<and> body_opcode b = m_opcode m))"

definition conn_inv :: "'ssl connection \<Rightarrow> bool" where
  "conn_inv c \<longleftrightarrow> conn_ok c \<and> message_typed (c_incomming c)"

lemma message_typed_new [simp]: "message_typed message_new"
  by (simp add: message_typed_def message_new_def)

lemma allocate_body_opcode: "allocate_body op = Inr b \<Longrightarrow> body_opcode b = op"
  by (auto simp: allocate_body_def split: if_splits)

lemma body_consume_opcode: "body_consume P n b = Inr (b', ok) \<Longrightarrow> body_opcode b' = body_opcode b"
  by (cases b) (auto simp: with_body_def)

lemma consume_header_typed:
  assumes "consume_header alloc m P n = Inr (m', k)"
  shows "\<exists>b. m_body m' = Some b \<and> body_opcode b = m_opcode m'" and "m_header_received m'"
  using assms by (auto simp: consume_header_def Let_def split: if_splits dest!: allocate_body_opcode)

lemma consume_body_typed:
  assumes "consume_body m P n k = Inr (j, m')" and "\<exists>b. m_body m = Some b \<and> body_opcode b = m_opcode m"
    and "m_header_received m"
  shows "message_typed m'"
  using assms
  by (auto simp: consume_body_def Let_def message_typed_def split: option.splits if_splits
      dest!: body_consume_opcode)

lemma message_consume_typed:
  assumes "message_consume alloc m P n = Inr (k, m')" and "message_typed m"
  shows "message_typed m'"
  using assms unfolding message_consume_def Let_def
  by (auto simp: message_typed_def split: if_splits
      dest: consume_header_typed dest!: consume_body_typed)

text \<open>
  An operation is well-behaved from \<open>c\<close> when it does not run out of fuel, keeps the invariant,
  and leaves the message that is being received alone.
\<close>

definition keeps :: "'ssl connection \<Rightarrow> 'ssl connection \<Rightarrow> bool" where
  "keeps c c' \<longleftrightarrow> c_incomming c' = c_incomming c \<and> (conn_ok c \<longrightarrow> conn_ok c')"

definition well :: "'ssl connection \<Rightarrow> 'ssl connection result \<Rightarrow> bool" where
  "well c r \<longleftrightarrow> halts r \<and> (\<forall>c'. r = Inr c' \<longrightarrow> keeps c c')"

named_theorems well_rules \<open>well-behaved operations\<close>

lemma keeps_trans: "keeps a b \<Longrightarrow> keeps b c \<Longrightarrow> keeps a c"
  by (simp add: keeps_def)

lemma keeps_emit [simp]:
  "keeps c (emit e c')  \<longleftrightarrow> keeps c c'" "keeps c (conn_log l t c') \<longleftrightarrow> keeps c c'"
  "keeps c (send_data b n c') \<longleftrightarrow> keeps c c'" "keeps c (c'\<lparr>c_state := st\<rparr>) \<longleftrightarrow> keeps c c'"
  by (simp_all add: keeps_def conn_ok_def emit_def conn_log_def send_data_def)

lemma keeps_refl [simp]: "keeps c c"
  by (simp add: keeps_def)

lemma well_Inr [intro]: "keeps c c' \<Longrightarrow> well c (Inr c')"
  by (simp add: well_def)

lemma well_Inl [simp]: "well c (Inl e) \<longleftrightarrow> e \<noteq> Diverged"
  by (simp add: well_def)

lemma well_from:
  assumes "keeps c c1" and "well c1 r"
  shows "well c r"
  using assms by (auto simp: well_def intro: keeps_trans)

lemma well_bind:
  assumes "well c m" and "\<And>c'. m = Inr c' \<Longrightarrow> well c' (f c')"
  shows "well c (bind_result m f)"
  using assms by (cases m) (auto simp: well_def intro: keeps_trans)

lemma well_bind_other:
  assumes "halts m" and "\<And>x. m = Inr x \<Longrightarrow> well c (f x)"
  shows "well c (bind_result m f)"
  using assms by (cases m) auto

lemma well_later:
  "well c (f (conn_log l t c))" if "well (conn_log l t c) (f (conn_log l t c))"
  using that by (rule well_from [rotated]) simp

lemma set_stream_keeps:
  assumes "set_stream CQL_STREAM_ID_MAX r (c_stream_storage c) = Inr (e, s', out)"
    and "\<forall>i. r = Some i \<longrightarrow> i < length (c_requests c)"
  shows "keeps c (c\<lparr>c_stream_storage := s'\<rparr>)"
proof -
  have "conn_ok (c\<lparr>c_stream_storage := s'\<rparr>)" if ok: "conn_ok c"
  proof -
    have s: "streams_ok CQL_STREAM_ID_MAX (c_stream_storage c)" using ok by (simp add: conn_ok_def)
    then show ?thesis
    proof (cases rule: free_streams_cases)
      case last
      then show ?thesis using set_stream_last [OF s] assms(1) by simp
    next
      case (more i j "is")
      with set_stream_takes [OF s more, of r] assms ok show ?thesis
        by (auto simp: conn_ok_def)
    qed
  qed
  then show ?thesis by (simp add: keeps_def)
qed

lemma get_stream_keeps:
  assumes "get_stream i rel (c_stream_storage c) = Inr (e, s', out)"
  shows "keeps c (c\<lparr>c_stream_storage := s'\<rparr>)"
proof -
  have "conn_ok (c\<lparr>c_stream_storage := s'\<rparr>)" if ok: "conn_ok c"
  proof -
    have s: "streams_ok CQL_STREAM_ID_MAX (c_stream_storage c)" using ok by (simp add: conn_ok_def)
    show ?thesis
    proof (cases "held_stream (c_stream_storage c) i")
      case None
      then show ?thesis using get_stream_cases [OF s, of i rel] assms ok by (auto simp: conn_ok_def)
    next
      case (Some x)
      show ?thesis
        using streams.get_peeks [OF s Some] get_stream_releases [OF s Some] assms ok
        by (cases rel) (auto simp: conn_ok_def)
    qed
  qed
  then show ?thesis by (simp add: keeps_def)
qed

lemma send_message_keeps:
  assumes "send_message env m r c = Inr (e, c')" and "\<forall>i. r = Some i \<longrightarrow> i < length (c_requests c)"
  shows "keeps c c'" and "c_requests c' = c_requests c"
  using assms set_stream_keeps [of r c] unfolding send_message_def Let_def
  by (auto split: option.splits)

lemma well_send_message:
  assumes "\<forall>i. r = Some i \<longrightarrow> i < length (c_requests c)"
    and "\<And>e c'. send_message env m r c = Inr (e, c') \<Longrightarrow> keeps c c' \<Longrightarrow> well c' (f (e, c'))"
  shows "well c (bind_result (send_message env m r c) f)"
proof (rule well_bind_other [OF halts_send_message])
  fix x
  assume x: "send_message env m r c = Inr x"
  then obtain e c' where ec: "x = (e, c')" by (cases x)
  with x send_message_keeps [OF _ assms(1)] have "keeps c c'" by blast
  with assms(2) x show "well c (f x)" unfolding ec by (blast intro: well_from)
qed

lemma well_get_stream:
  assumes "\<And>e s' r. get_stream i rel (c_stream_storage c) = Inr (e, s', r) \<Longrightarrow>
    well (c\<lparr>c_stream_storage := s'\<rparr>) (f (e, s', r))"
  shows "well c (bind_result (get_stream i rel (c_stream_storage c)) f)"
proof (rule well_bind_other [OF halts_get_stream])
  fix x
  assume x: "get_stream i rel (c_stream_storage c) = Inr x"
  then obtain e s' r where esr: "x = (e, s', r)" by (cases x)
  show "well c (f x)"
    using well_from [OF get_stream_keeps assms] x unfolding esr by blast
qed

subsection \<open>The contract of the callbacks\<close>

locale client_callbacks =
  fixes env :: "'ssl conn_env"
  assumes well_connect: "well c (cb_connect env e c)"
    and well_keyspace: "well c (cb_keyspace env p n c)"
    and well_prepare: "well c (cb_prepare env e d p n c)"
    and well_request: "well c (cb_request env i c)"
begin

lemmas well_callbacks = well_connect well_keyspace well_prepare well_request

lemma well_send_options: "well c (send_options env c)"
  unfolding send_options_def Let_def
  by (rule well_later, rule well_bind_other)
    (auto simp: message_make_def intro!: halts_bind halts_rules well_send_message)

lemma well_send_startup: "well c (send_startup env c)"
  unfolding send_startup_def Let_def
  by (rule well_later, rule well_bind_other)
    (auto simp: message_make_def intro!: halts_bind halts_rules well_send_message
      split: option.split body.split)

lemma well_set_keyspace: "well c (set_keyspace env k c)"
  unfolding set_keyspace_def Let_def
  by (rule well_bind_other)
    (auto simp: message_make_def intro!: halts_bind halts_rules well_send_message
      split: option.split body.split)

lemma well_notify_ready: "well c (notify_ready env c)"
  unfolding notify_ready_def Let_def
  by (rule well_later) (auto intro!: well_callbacks)

lemma well_notify_error: "well c (notify_error env e c)"
  unfolding notify_error_def Let_def
  by (rule well_later) (auto intro!: well_callbacks)

lemma well_event_switch:
  assumes "\<And>c. well c (handshake c)"
  shows "well c (event_switch handshake env c)"
  unfolding event_switch_def Let_def
  by (rule well_later)
    (auto intro!: assms well_send_options well_send_startup well_notify_ready
      simp: resolve_def connect_def split: client_connection_state.split)

lemma well_event_received_late:
  assumes "c_state c \<noteq> CLIENT_STATE_CONNECTED"
  shows "well c (event_received_late env c)"
proof -
  have "event_received_late env c = event_switch (\<lambda>c. Inr c) env c"
    using assms by (auto simp: event_received_late_def event_switch_def Let_def conn_log_def emit_def
        split: client_connection_state.split)
  then show ?thesis by (simp add: well_event_switch well_Inr)
qed

lemma well_notify_request: "well c (notify_request env i c)"
  unfolding notify_request_def Let_def
  by (rule well_bind_other)
    (auto intro!: halts_rules well_from [OF _ well_request] well_Inr split: notify_action.split prod.split
      simp: keeps_def conn_ok_def emit_def)

lemma well_finish_request: "well c (finish_request env m r c)"
  unfolding finish_request_def
  by (auto intro!: well_bind_other halts_rules well_from [OF _ well_notify_request]
      simp: deref_request_def keeps_def conn_ok_def split: option.split)

lemma well_on_error: "well c (on_error env m c)"
  unfolding on_error_def Let_def
  by (rule well_later)
    (auto intro!: well_bind_other halts_rules well_notify_error split: option.split body.split)

lemma well_prepare_callback:
  "well c (bind_result (deref_request request) (\<lambda>i. bind_result (array_get rs (int i)) (\<lambda>r.
     cb_prepare env err (rq_data r) p n c)))"
  by (rule well_bind_other)
    (auto simp: deref_request_def split: option.split intro!: well_bind_other halts_rules well_callbacks)

lemma well_on_prepared: "well c (on_prepared env m r c)"
  unfolding on_prepared_def Let_def
proof (rule well_get_stream, simp only: prod.case, rule well_bind)
qed (auto intro!: well_prepare_callback well_finish_request)

lemma well_default_result:
  "well c (bind_result (get_stream i True (c_stream_storage c)) (\<lambda>(err, streams, request).
     case err of
       None \<Rightarrow> finish_request env m request (c\<lparr>c_stream_storage := streams\<rparr>)
     | Some e \<Rightarrow> if c_connect_callback (c\<lparr>c_stream_storage := streams\<rparr>)
         then cb_connect env (Some e) (c\<lparr>c_stream_storage := streams\<rparr>)
         else Inr (c\<lparr>c_stream_storage := streams\<rparr>)))"
  by (rule well_get_stream)
    (simp add: well_finish_request well_callbacks well_Inr split: option.split)

lemma well_on_result: "well c (on_result env m c)"
  unfolding on_result_def Let_def
  by (rule well_later)
    (simp add: well_callbacks well_on_prepared well_default_result [simplified] well_Inr
      del: emit_fields split: option.split body.split)

lemma well_on_supported: "well c (on_supported env m c)"
  unfolding on_supported_def Let_def by (rule well_from [OF _ well_event_received_late]) simp_all

lemma well_on_ready: "well c (on_ready env m c)"
  unfolding on_ready_def Let_def by (rule well_from [OF _ well_event_received_late]) simp_all

lemma well_on_message: "well c (on_message env m n k c)"
  unfolding on_message_def Let_def
proof (rule well_bind_other [OF halts_opcode_to_string])
  fix op
  let ?c = "conn_log CQL_LOG_DEBUG (Consumed op (sint (m_stream m)) n (sint k)) c"
  have "keeps c ?c" by simp
  then show "well c (if sint (m_stream m) < 0 then Inl AssertionFailed
      else if m_opcode m = CQL_OPCODE_SUPPORTED then on_supported env m ?c
      else if m_opcode m = CQL_OPCODE_ERROR then on_error env m ?c
      else if m_opcode m = CQL_OPCODE_READY then on_ready env m ?c
      else if m_opcode m = CQL_OPCODE_RESULT then on_result env m ?c else Inl AssertionFailed)"
    by (rule well_from) (simp add: well_on_error well_on_result well_on_supported well_on_ready)
qed

lemma well_conn_inv: "well c r \<Longrightarrow> r = Inr c' \<Longrightarrow> conn_inv c \<Longrightarrow> conn_inv c'"
  by (simp add: well_def keeps_def conn_inv_def)

text \<open>The reader keeps the invariant, whatever the bytes are.\<close>

lemma conn_ok_incomming [simp]: "conn_ok (c\<lparr>c_incomming := m\<rparr>) \<longleftrightarrow> conn_ok c"
  "conn_ok (c\<lparr>c_ssl := s\<rparr>) \<longleftrightarrow> conn_ok c" "conn_ok (c\<lparr>c_state := st\<rparr>) \<longleftrightarrow> conn_ok c"
  "conn_ok (emit e c) \<longleftrightarrow> conn_ok c" "conn_ok (conn_log l t c) \<longleftrightarrow> conn_ok c"
  "conn_ok (send_data b n c) \<longleftrightarrow> conn_ok c"
  by (simp_all add: conn_ok_def emit_def conn_log_def send_data_def)

lemma conn_inv_fields [simp]:
  "conn_inv (c\<lparr>c_incomming := m\<rparr>) \<longleftrightarrow> conn_ok c \<and> message_typed m"
  "conn_inv (c\<lparr>c_ssl := s\<rparr>) \<longleftrightarrow> conn_inv c" "conn_inv (c\<lparr>c_state := st\<rparr>) \<longleftrightarrow> conn_inv c"
  "conn_inv (emit e c) \<longleftrightarrow> conn_inv c" "conn_inv (conn_log l t c) \<longleftrightarrow> conn_inv c"
  "conn_inv (send_data b n c) \<longleftrightarrow> conn_inv c" "conn_inv c \<Longrightarrow> conn_ok c"
  by (simp_all add: conn_inv_def)

lemma consume_loop_ok:
  "consume_loop fuel env sz P k c = Inr c' \<Longrightarrow> conn_inv c \<Longrightarrow> conn_inv c'"
proof (induction fuel arbitrary: P k c)
  case 0
  then show ?case by (simp split: if_splits)
next
  case (Suc fuel)
  show ?case
  proof (cases "k = 0")
    case True
    then show ?thesis using Suc.prems by simp
  next
    case False
    from Suc.prems(1) False obtain consumed m c1 P1 where
      m: "message_consume (env_alloc env) (c_incomming c) P (unat (scast k :: size_t)) = Inr (consumed, m)"
      and c1: "(if m_body_ready m
        then on_message env m sz k ((if sint consumed < 0 then emit (Stderr ''consume error'') c else c)
          \<lparr>c_incomming := message_new\<rparr>)
        else Inr ((if sint consumed < 0 then emit (Stderr ''consume error'') c else c)\<lparr>c_incomming := m\<rparr>)) = Inr c1"
      and rest: "consume_loop fuel env sz P1 (k - consumed) c1 = Inr c'"
      by (auto simp: Let_def)
    have "message_typed m"
      using message_consume_typed [OF m] Suc.prems(2) by (simp add: conn_inv_def)
    then have "conn_inv c1"
      using c1 Suc.prems(2) by (auto split: if_splits dest: well_conn_inv [OF well_on_message])
    with Suc.IH [OF rest] show ?thesis .
  qed
qed

lemma event_received_late_ok:
  "event_received_late env c = Inr c' \<Longrightarrow> conn_inv c \<Longrightarrow> conn_inv c'"
  using well_conn_inv [OF well_event_received_late, of c c']
  by (cases "c_state c = CLIENT_STATE_CONNECTED")
    (auto simp: event_received_late_def event_switch_def Let_def)

lemma ssl_read_loop_ok:
  "ssl_read_loop fuel env P n c = Inr c' \<Longrightarrow> conn_inv c \<Longrightarrow> conn_inv c'"
proof (induction fuel arbitrary: P n c)
  case 0
  then show ?case by simp
next
  case (Suc fuel)
  then show ?case
    by (auto simp: Let_def consume_def split: option.splits if_splits
        dest!: consume_loop_ok event_received_late_ok)
qed

lemma on_read_ok: "on_read fuel env eof n P c = Inr c' \<Longrightarrow> conn_inv c \<Longrightarrow> conn_inv c'"
  by (auto simp: on_read_def Let_def consume_def close_def split: if_splits
      dest!: consume_loop_ok ssl_read_loop_ok)

lemma ssl_handshake_ok: "ssl_handshake fuel env c = Inr c' \<Longrightarrow> conn_inv c \<Longrightarrow> conn_inv c'"
  by (auto simp: ssl_handshake_def split: if_splits dest!: on_read_ok event_received_late_ok)

lemma event_received_ok: "event_received fuel env c = Inr c' \<Longrightarrow> conn_inv c \<Longrightarrow> conn_inv c'"
  using event_received_late_ok [of c c'] ssl_handshake_ok [of fuel "conn_log CQL_LOG_DEBUG (Literal ''event received'') c" c']
  by (auto simp: event_received_def event_received_late_def event_switch_def Let_def
      split: client_connection_state.splits)

lemma on_close_ok: "on_close fuel env c = Inr c' \<Longrightarrow> conn_inv c \<Longrightarrow> conn_inv c'"
  by (auto simp: on_close_def dest!: event_received_ok)

lemma on_connect_ok: "on_connect fuel env st c = Inr c' \<Longrightarrow> conn_inv c \<Longrightarrow> conn_inv c'"
  by (auto simp: on_connect_def Let_def split: if_splits dest!: event_received_ok)

lemma on_resolve_ok: "on_resolve fuel env st fam a c = Inr c' \<Longrightarrow> conn_inv c \<Longrightarrow> conn_inv c'"
  by (auto simp: on_resolve_def Let_def conn_inv_def conn_ok_def emit_def conn_log_def
      split: if_splits addr_family.splits dest!: event_received_ok)

lemma init_ok: "init fuel env cc kc c = Inr c' \<Longrightarrow> conn_inv c \<Longrightarrow> conn_inv c'"
  by (auto simp: init_def conn_inv_def conn_ok_def dest!: event_received_ok)

lemma submit_ok:
  assumes "submit env m r c = Inr (i, c')" and "conn_inv c"
  shows "conn_inv c'"
proof -
  let ?c = "c\<lparr>c_requests := c_requests c @ [r]\<rparr>"
  have "conn_inv ?c" using assms(2) by (auto simp: conn_inv_def conn_ok_def less_SucI)
  moreover from assms(1) obtain e c1 where
    c1: "send_message env m (Some (length (c_requests c))) ?c = Inr (e, c1)"
    by (auto simp: submit_def Let_def)
  ultimately have ok: "conn_inv c1"
    using send_message_keeps(1) [OF c1] by (simp add: keeps_def conn_inv_def)
  from assms(1) c1 ok show ?thesis
    by (auto simp: submit_def Let_def split: option.splits dest!: well_conn_inv [OF well_notify_request])
      (auto simp: conn_inv_def conn_ok_def)
qed

end

subsection \<open>The callbacks of the pool\<close>

text \<open>
  The only callback the sources pass to a connection is \<open>Pool::connect_callback\<close> of
  \<^verbatim>\<open>include/cql_pool.hpp\<close>, which does nothing. The pool uses no SSL session here; the other
  callbacks are never set, and stand as no-ops.
\<close>

definition pool_connect_callback :: "cql_error option \<Rightarrow> 'ssl connection \<Rightarrow> 'ssl connection result" where
  "pool_connect_callback err connection = Inr connection"

definition pool_env :: "allocator \<Rightarrow> unit conn_env" where
  "pool_env alloc =
     \<lparr>env_alloc = alloc, cb_connect = pool_connect_callback, cb_keyspace = (\<lambda>p n c. Inr c),
      cb_prepare = (\<lambda>e d p n c. Inr c), cb_request = (\<lambda>i c. Inr c), ssl_start = (\<lambda>s. s),
      ssl_read_write = (\<lambda>p n s. Inr (s, n, None, None)), ssl_handshake_finished = (\<lambda>s. False),
      ip4_name = (\<lambda>a. a), ip6_name = (\<lambda>a. a)\<rparr>"

interpretation pool: client_callbacks "pool_env alloc" for alloc
  by standard (simp_all add: pool_env_def pool_connect_callback_def well_Inr)

lemma pool_env_alloc [simp]: "env_alloc (pool_env alloc) = alloc"
  by (simp add: pool_env_def)

end
