(* ===== verification/Connection_Props.thy ===== *)
theory Connection_Props
  imports Connection_Lemmas
begin

text \<open>
  What the connection does with whole frames and with sequences of events: the loop of
  \<open>consume\<close> ends, handles frames one by one, a request gets its answer, the invariant holds in
  all reachable states, and the start-up negotiation runs to the connect callback.
\<close>

subsection \<open>The loop of consume\<close>

lemma unat_remaining: "n < 2147483648 \<Longrightarrow> unat (scast (of_nat n :: int32) :: size_t) = n"
  by (simp add: scast_of_nat)

lemma of_nat_32_zero: "n < 2147483648 \<Longrightarrow> (of_nat n :: int32) = 0 \<longleftrightarrow> n = 0"
  using unat_of_nat_32 [of n] by (auto simp: unat_eq_0 [symmetric])

text \<open>What the loop of \<open>consume\<close> does with the message after each call of \<open>Message::consume\<close>.\<close>

definition after_message where
  "after_message env sz n c m =
     (if m_body_ready m then on_message env m sz (of_nat n) (c\<lparr>c_incomming := message_new\<rparr>)
      else Inr (c\<lparr>c_incomming := m\<rparr>))"

context client_callbacks
begin

text \<open>One iteration: a fault, or at least one byte is taken and the loop goes on behind it.\<close>

lemma consume_loop_step:
  assumes alloc: "\<And>n. n \<le> env_alloc env n"
    and m: "header_partial (c_incomming c) h" and bs: "points_to P bs" "bs \<noteq> []"
    and len: "length bs < 2147483640"
  obtains (fault) e where "e \<noteq> Diverged"
      "consume_loop (Suc fuel) env sz P (of_nat (length bs)) c = Inl e"
    | (go_on) j m where "0 < j" "j \<le> length bs" "\<not> m_body_ready m \<longrightarrow> j = length bs"
      "consume_loop (Suc fuel) env sz P (of_nat (length bs)) c =
         bind_result (after_message env sz (length bs) c m)
           (consume_loop fuel env sz (ptr_add P j) (of_nat (length bs - j)))"
proof -
  let ?r = "message_consume (env_alloc env) (c_incomming c) P (length bs)"
  have prog: "progress ?r (length bs)"
    using message_consume_progress [OF m bs len alloc] .
  have P: "P \<noteq> Null" using bs by auto
  show ?thesis
  proof (cases ?r)
    case (Inl e)
    then show ?thesis
      using prog len bs(2) by (intro fault) (auto simp: progress_def unat_remaining of_nat_32_zero)
  next
    case (Inr km)
    then obtain j m where r: "?r = Inr (of_nat j, m)" "0 < j" "j \<le> length bs"
      "\<not> m_body_ready m \<longrightarrow> j = length bs"
      using prog by (cases km) (auto simp: progress_def)
    have "sint (of_nat j :: int32) = int j" using r(3) len by (simp add: sint_of_nat_32)
    then show ?thesis
      using r len bs(2) P
      by (intro go_on [of j m])
        (simp_all add: after_message_def unat_remaining of_nat_32_zero ptr_add_int_nat of_nat_diff)
  qed
qed

text \<open>The loop ends within as many iterations as there are bytes.\<close>

lemma consume_loop_halts:
  assumes alloc: "\<And>n. n \<le> env_alloc env n"
    and "header_partial (c_incomming c) h" and "points_to P bs" and "length bs \<le> fuel"
    and "length bs < 2147483640"
  shows "halts (consume_loop fuel env sz P (of_nat (length bs)) c)"
  using assms(2-)
proof (induction fuel arbitrary: c h P bs)
  case (Suc fuel)
  show ?case
  proof (cases "bs = []")
    case False
    from alloc Suc.prems(1,2) False Suc.prems(4) show ?thesis
    proof (cases rule: consume_loop_step [where fuel = fuel and sz = sz])
      case (go_on j m)
      show ?thesis
        unfolding go_on(4)
      proof (rule halts_bind)
        show "halts (after_message env sz (length bs) c m)"
          using well_on_message [of _ m sz "of_nat (length bs)"] by (simp add: after_message_def well_def)
      next
        fix c1
        assume c1: "after_message env sz (length bs) c m = Inr c1"
        show "halts (consume_loop fuel env sz (ptr_add P j) (of_nat (length bs - j)) c1)"
        proof (cases "j = length bs")
          case False
          with c1 go_on(3) have "c_incomming c1 = message_new"
            using well_on_message [of "c\<lparr>c_incomming := message_new\<rparr>" m sz "of_nat (length bs)"]
            by (auto simp: after_message_def well_def keeps_def)
          then show ?thesis
            using Suc.IH [of c1 "[]" "ptr_add P j" "drop j bs"] Suc.prems(3,4) go_on(1,2)
              points_to_drop [OF Suc.prems(2) go_on(2)] by (simp add: header_partial_new)
        qed (cases fuel; simp)
      qed
    qed simp
  qed simp
qed simp

end

text \<open>A complete frame at the front of the chunk is handled, then the rest of the chunk.\<close>

lemma consume_loop_frame:
  assumes m: "header_partial (c_incomming c) h"
    and hc: "h @ hh = wire_header v f s op (of_nat (length bs))" and "hh \<noteq> []"
    and P: "points_to P (hh @ bs @ rest)" and op: "allocate_body op = Inr b"
    and len: "8 + length bs + length rest < 2147483648" and alloc: "\<And>n. n \<le> env_alloc env n"
    and dec: "body_consume (Ptr (framed (env_alloc env) (length bs) 0 bs) 0) (length bs) b = Inr (b', ok)"
    and n: "n = length (hh @ bs @ rest)"
    and msg: "msg = frame_done (header_done (env_alloc env)
        ((c_incomming c)\<lparr>m_received := m_received (c_incomming c) + of_nat n\<rparr>) (h @ hh) (length bs) b)
      (framed (env_alloc env) (length bs) 0 bs) (length bs) b' ok"
  shows "consume_loop (Suc fuel) env sz P (of_nat n) c =
     bind_result (on_message env msg sz (of_nat n) (c\<lparr>c_incomming := message_new\<rparr>))
       (consume_loop fuel env sz (ptr_add P (length (hh @ bs))) (of_nat (length rest)))"
proof -
  have lhc: "length h + length hh = 8"
    using arg_cong [OF hc, of length] by simp
  have "n < 2147483648" "n \<noteq> 0" and j: "sint (of_nat (length (hh @ bs)) :: int32) = int (length (hh @ bs))"
    using len lhc n assms(3) by (simp_all add: sint_of_nat_32 del: of_nat_add)
  moreover have "P \<noteq> Null" using P assms(3) by auto
  moreover have "m_body_ready msg" by (simp add: msg frame_done_def)
  moreover have "(of_nat n :: int32) - of_nat (length (hh @ bs)) = of_nat (length rest)"
    by (simp add: n)
  moreover have "message_consume (env_alloc env) (c_incomming c) P n = Inr (of_nat (length (hh @ bs)), msg)"
    unfolding message_consume_frame [OF m hc P op len alloc n] dec by (simp add: msg)
  ultimately show ?thesis
    by (simp add: unat_remaining of_nat_32_zero ptr_add_int_nat Let_def del: of_nat_add length_append)
qed

subsection \<open>Sending\<close>

lemma conn_log_off [simp]: "\<not> c_log_callback c \<Longrightarrow> conn_log l t c = c"
  by (simp add: conn_log_def)

lemma send_message_takes:
  assumes ok: "streams_ok CQL_STREAM_ID_MAX (c_stream_storage c)"
    and free: "free_streams (c_stream_storage c) = i # j # is"
    and prep: "message_prepare (env_alloc env) (m\<lparr>m_stream := of_int i\<rparr>) = Inr (m1, Some out, len, t)"
    and op: "opcode_to_string (m_opcode m1) = Inr name"
  shows "\<exists>ss. send_message env m r c =
      Inr (None, send_data out len (conn_log CQL_LOG_DEBUG (Sending name (sint (m_stream m1)) len)
        (c\<lparr>c_stream_storage := ss\<rparr>))) \<and>
     streams_ok CQL_STREAM_ID_MAX ss \<and> free_streams ss = j # is \<and>
     held_stream ss = (held_stream (c_stream_storage c))(i \<mapsto> r)"
proof -
  obtain ss where "set_stream CQL_STREAM_ID_MAX r (c_stream_storage c) = Inr (None, ss, Some i)"
    and "streams_ok CQL_STREAM_ID_MAX ss \<and> free_streams ss = j # is \<and>
      held_stream ss = (held_stream (c_stream_storage c))(i \<mapsto> r)"
    using set_stream_takes [OF ok free, of r] by blast
  then show ?thesis
    by (intro exI [of _ ss]) (simp add: send_message_def Let_def prep op)
qed

lemma opcode_to_string_known:
  "opcode_to_string CQL_OPCODE_OPTIONS = Inr (str ''CQL_OPCODE_OPTIONS'')"
  "opcode_to_string CQL_OPCODE_STARTUP = Inr (str ''CQL_OPCODE_STARTUP'')"
  "opcode_to_string CQL_OPCODE_QUERY = Inr (str ''CQL_OPCODE_QUERY'')"
  "opcode_to_string CQL_OPCODE_SUPPORTED = Inr (str ''CQL_OPCODE_SUPPORTED'')"
  "opcode_to_string CQL_OPCODE_ERROR = Inr (str ''CQL_OPCODE_ERROR'')"
  "opcode_to_string CQL_OPCODE_READY = Inr (str ''CQL_OPCODE_READY'')"
  "opcode_to_string CQL_OPCODE_RESULT = Inr (str ''CQL_OPCODE_RESULT'')"
  by (simp_all add: opcode_to_string_def opcode_name_def opcode_defs)

lemma allocate_known:
  "allocate_body CQL_OPCODE_OPTIONS = Inr BodyOptions"
  "allocate_body CQL_OPCODE_STARTUP = Inr (BodyStartup body_startup_new)"
  "allocate_body CQL_OPCODE_QUERY = Inr (BodyQuery body_query_new)"
  "allocate_body CQL_OPCODE_SUPPORTED = Inr (BodySupported body_supported_new)"
  "allocate_body CQL_OPCODE_ERROR = Inr (BodyError body_error_new)"
  "allocate_body CQL_OPCODE_READY = Inr BodyReady"
  "allocate_body CQL_OPCODE_RESULT = Inr (BodyResult body_result_new)"
  by (simp_all add: allocate_body_def opcode_defs)

text \<open>The frames that the negotiation sends.\<close>

definition options_frame :: "int \<Rightarrow> bytes" where
  "options_frame i = wire_header 0x02 0 (of_int i) CQL_OPCODE_OPTIONS 0"

definition startup_wire :: "bytes \<Rightarrow> bytes" where
  "startup_wire version = wire_string_map (startup_options (body_startup_new\<lparr>su_cql_version := version\<rparr>))"

definition startup_frame :: "int \<Rightarrow> bytes \<Rightarrow> bytes" where
  "startup_frame i version =
     wire_header 0x02 0 (of_int i) CQL_OPCODE_STARTUP (of_nat (length (startup_wire version))) @
     startup_wire version"

lemma send_options_writes:
  assumes "streams_ok CQL_STREAM_ID_MAX (c_stream_storage c)"
    and "free_streams (c_stream_storage c) = i # j # is" and "\<not> c_log_callback c"
    and "8 \<le> env_alloc env 0"
  shows "\<exists>ss. send_options env c =
      Inr (emit (UvWrite (framed (env_alloc env) 0 0 (options_frame i)) 8) (c\<lparr>c_stream_storage := ss\<rparr>)) \<and>
     streams_ok CQL_STREAM_ID_MAX ss \<and> free_streams ss = j # is \<and>
     held_stream ss = (held_stream (c_stream_storage c))(i \<mapsto> None)"
proof -
  let ?m = "message_new\<lparr>m_opcode := CQL_OPCODE_OPTIONS, m_body := Some BodyOptions\<rparr>"
  let ?m1 = "?m\<lparr>m_stream := of_int i, m_length := 0\<rparr>"
  have prep: "message_prepare (env_alloc env) (?m\<lparr>m_stream := of_int i\<rparr>) =
      Inr (?m1, Some (framed (env_alloc env) 0 0 (options_frame i)), 8, True)"
    using finish_prepare_put [of "env_alloc env" "?m\<lparr>m_stream :=
      of_int i\<rparr>" "new_char (env_alloc env) 0" 0 True]
      put_new_char [of 0 "options_frame i" "env_alloc env" 0] assms(4)
    by (simp add: message_prepare_def body_options_prepare_def CQL_HEADER_SIZE_def options_frame_def
        message_header_def message_new_def)
  from send_message_takes [OF assms(1,2) prep, of _ None] assms(3) show ?thesis
    by (auto simp: send_options_def message_make_def allocate_known opcode_to_string_known send_data_def)
qed

lemma send_options_overflows:
  assumes "streams_ok CQL_STREAM_ID_MAX (c_stream_storage c)"
    and "free_streams (c_stream_storage c) = i # j # is" and "\<not> 8 \<le> env_alloc env 0"
  shows "send_options env c = Inl OutOfBounds"
proof -
  let ?c = "conn_log CQL_LOG_DEBUG (Literal ''send_options'') c"
  obtain ss where ss: "set_stream CQL_STREAM_ID_MAX None (c_stream_storage ?c) = Inr (None, ss, Some i)"
    using set_stream_takes [OF assms(1,2), of None] by auto
  let ?m = "message_new\<lparr>m_opcode := CQL_OPCODE_OPTIONS, m_stream := of_int i\<rparr>"
  have "message_prepare (env_alloc env) (message_new\<lparr>m_opcode := CQL_OPCODE_OPTIONS,
      m_body := Some BodyOptions, m_stream := of_int i\<rparr>) = Inl OutOfBounds"
    using message_prepare_no_payload [of BodyOptions "env_alloc env" ?m] assms(3)
    by (simp add: message_new_def)
  moreover have "message_make CQL_OPCODE_OPTIONS =
      Inr (message_new\<lparr>m_opcode := CQL_OPCODE_OPTIONS, m_body := Some BodyOptions\<rparr>)"
    by (simp add: message_make_def allocate_known)
  ultimately show ?thesis
    using ss by (simp add: send_options_def send_message_def Let_def)
qed

lemma send_startup_writes:
  assumes "streams_ok CQL_STREAM_ID_MAX (c_stream_storage c)"
    and "free_streams (c_stream_storage c) = i # j # is" and "\<not> c_log_callback c"
    and "\<And>n. n \<le> env_alloc env n"
    and n: "n = length (startup_frame i (c_cql_version c))"
  shows "\<exists>ss. send_startup env c =
      Inr (emit (UvWrite (framed (env_alloc env) n 0 (startup_frame i (c_cql_version c))) n)
        (c\<lparr>c_stream_storage := ss\<rparr>)) \<and>
     streams_ok CQL_STREAM_ID_MAX ss \<and> free_streams ss = j # is \<and>
     held_stream ss = (held_stream (c_stream_storage c))(i \<mapsto> None)"
proof -
  let ?su = "body_startup_new\<lparr>su_cql_version := c_cql_version c\<rparr>"
  let ?m = "message_new\<lparr>m_opcode := CQL_OPCODE_STARTUP, m_body := Some (BodyStartup ?su)\<rparr>"
  obtain m1 where prep: "message_prepare (env_alloc env) (?m\<lparr>m_stream := of_int i\<rparr>) =
      Inr (m1, Some (framed (env_alloc env) n 0 (startup_frame i (c_cql_version c))), n, True)"
    and m1: "m_opcode m1 = CQL_OPCODE_STARTUP"
    using message_prepare_sends [of "?m\<lparr>m_stream := of_int i\<rparr>" "BodyStartup ?su" "env_alloc env"] assms(4)
    by (auto simp: n startup_frame_def startup_wire_def message_header_def message_new_def)
  from send_message_takes [OF assms(1,2) prep, of _ None] assms(3) show ?thesis
    by (auto simp: send_startup_def message_make_def allocate_known m1 opcode_to_string_known send_data_def
        Let_def)
qed

subsection \<open>Receiving one frame\<close>

lemma consume_loop_done: "consume_loop fuel env sz P 0 = Inr"
  by (cases fuel) (simp_all add: fun_eq_iff)

lemma bind_result_Inr_right [simp]: "bind_result m Inr = m"
  by (cases m) simp_all

text \<open>A chunk that is exactly one frame whose body can be parsed.\<close>

definition wire_frame :: "int8 \<Rightarrow> byte \<Rightarrow> bytes \<Rightarrow> bytes" where
  "wire_frame stream opcode bs = wire_header 0x82 0 stream opcode (of_nat (length bs)) @ bs"

definition parses_to :: "'ssl conn_env \<Rightarrow> byte \<Rightarrow> bytes \<Rightarrow> body \<Rightarrow> bool" where
  "parses_to env op bs b' \<longleftrightarrow> (\<exists>b ok. allocate_body op = Inr b \<and>
     body_consume (Ptr (framed (env_alloc env) (length bs) 0 bs) 0) (length bs) b = Inr (b', ok))"

lemma consume_frame:
  assumes "header_partial (c_incomming c) []" and P: "points_to P (wire_frame s op bs)"
    and "parses_to env op bs b'" and "length bs < 2147483640" and alloc: "\<And>n. n \<le> env_alloc env n"
    and n: "n = length (wire_frame s op bs)"
  shows "\<exists>msg. m_opcode msg = op \<and> m_stream msg = s \<and> m_body msg = Some b' \<and>
     consume env P n c = on_message env msg n (of_nat n) (c\<lparr>c_incomming := message_new\<rparr>)"
proof -
  obtain b ok where b: "allocate_body op = Inr b"
    and dec: "body_consume (Ptr (framed (env_alloc env) (length bs) 0 bs) 0) (length bs) b = Inr (b', ok)"
    using assms(3) by (auto simp: parses_to_def)
  let ?h = "wire_header 0x82 0 s op (of_nat (length bs))"
  have ne: "?h \<noteq> []" by (simp add: wire_header_def)
  have P': "points_to P (?h @ bs @ [])" using P by (simp add: wire_frame_def)
  have n': "n = length (?h @ bs @ [])" by (simp add: n wire_frame_def)
  obtain fuel where fuel: "n = Suc fuel" using n' by (cases n) simp_all
  obtain msg where msg: "msg = frame_done (header_done (env_alloc env)
        ((c_incomming c)\<lparr>m_received := m_received (c_incomming c) + of_nat n\<rparr>) ([] @ ?h) (length bs) b)
      (framed (env_alloc env) (length bs) 0 bs) (length bs) b' ok" by simp
  have len: "8 + length bs + length ([] :: bytes) < 2147483648" using assms(4) by simp
  have "consume env P n c = on_message env msg n (of_nat n) (c\<lparr>c_incomming := message_new\<rparr>)"
    using consume_loop_frame [OF assms(1) append_Nil ne P' b len alloc dec n' msg, of fuel n]
    unfolding consume_def by (simp add: fuel consume_loop_done)
  moreover have "m_opcode msg = op" "m_stream msg = s" "m_body msg = Some b'"
    by (simp_all add: msg frame_done_def header_done_def wire_header_def)
  ultimately show ?thesis by blast
qed

lemma parses_ready: "parses_to env CQL_OPCODE_READY [] BodyReady"
  by (auto simp: parses_to_def allocate_known body_ready_consume_def)

lemma parses_supported:
  assumes "map_ok m" and "list_all multimap_entry_ok m" and "length m < 32768"
  shows "\<exists>b. parses_to env CQL_OPCODE_SUPPORTED (wire_string_multimap m) b"
  using body_supported_consume_reads [OF points_to_framed assms(1-3)]
  by (auto simp: parses_to_def allocate_known with_body_def)

subsection \<open>The negotiation\<close>

text \<open>The connection after each event, up to the stream pool.\<close>

definition negotiating ::
  "'ssl conn_env \<Rightarrow> bool \<Rightarrow> bool \<Rightarrow> bytes \<Rightarrow> client_connection_state \<Rightarrow> nat option stream_storage \<Rightarrow>
    effect list \<Rightarrow> 'ssl connection" where
  "negotiating env cc kc addr st ss trace =
     (connection_new env None)\<lparr>c_connect_callback := cc, c_keyspace_callback := kc,
       c_address := take 16 addr, c_address_string := ip4_name env addr, c_state := st,
       c_stream_storage := ss, c_trace := trace\<rparr>"

lemma negotiating_fields [simp]:
  "c_state (negotiating env cc kc addr st ss tr) = st"
  "c_stream_storage (negotiating env cc kc addr st ss tr) = ss"
  "c_connect_callback (negotiating env cc kc addr st ss tr) = cc"
  "c_incomming (negotiating env cc kc addr st ss tr) = message_new"
  "c_log_callback (negotiating env cc kc addr st ss tr) = False"
  "c_cql_version (negotiating env cc kc addr st ss tr) = str ''3.0.0''"
  "c_ssl (negotiating env cc kc addr st ss tr) = None"
  "c_trace (negotiating env cc kc addr st ss tr) = tr"
  "(negotiating env cc kc addr st ss tr)\<lparr>c_incomming := message_new\<rparr> = negotiating env cc kc addr st ss tr"
  "(negotiating env cc kc addr st ss tr)\<lparr>c_state := st'\<rparr> = negotiating env cc kc addr st' ss tr"
  "(negotiating env cc kc addr st ss tr)\<lparr>c_stream_storage := ss'\<rparr> = negotiating env cc kc addr st ss' tr"
  "emit e (negotiating env cc kc addr st ss tr) = negotiating env cc kc addr st ss (tr @ [e])"
  by (simp_all add: negotiating_def connection_new_def emit_def)

lemma new_free: "free_streams (stream_storage_new CQL_STREAM_ID_MAX) = 1 # 2 # map int [3..<128]"
  by (simp add: free_streams_new CQL_STREAM_ID_MAX_def upt_rec [of _ 128] del: upt_rec_numeral)

lemma connect_phase:
  assumes "8 \<le> env_alloc env 0"
  shows "\<exists>ss. bind_result (init fuel env cc kc (connection_new env None)) (\<lambda>c.
      bind_result (on_resolve fuel env 0 AF_INET addr c) (on_connect fuel env 0)) =
    Inr (negotiating env cc kc addr CLIENT_STATE_HANDSHAKE ss
      [UvGetaddrinfo (str ''localhost'') (str ''9042''), UvFreeaddrinfo, UvTcpInit,
       UvTcpConnect (take 16 addr), UvReadStart, UvWrite (framed (env_alloc env) 0 0 (options_frame
         1)) 8]) \<and>
    streams_ok CQL_STREAM_ID_MAX ss \<and> free_streams ss = 2 # map int [3..<128] \<and>
    held_stream ss = Map.empty(1 \<mapsto> None)"
proof -
  let ?ss = "stream_storage_new CQL_STREAM_ID_MAX :: nat option stream_storage"
  let ?tr = "[UvGetaddrinfo (str ''localhost'') (str ''9042''), UvFreeaddrinfo, UvTcpInit,
    UvTcpConnect (take 16 addr), UvReadStart]"
  let ?c = "negotiating env cc kc addr CLIENT_STATE_HANDSHAKE ?ss ?tr"
  have ok: "streams_ok CQL_STREAM_ID_MAX ?ss"
    by (simp add: streams_ok_new CQL_STREAM_ID_MAX_def)
  have "bind_result (init fuel env cc kc (connection_new env None)) (\<lambda>c.
      bind_result (on_resolve fuel env 0 AF_INET addr c) (on_connect fuel env 0)) = send_options env ?c"
    by (simp add: init_def event_received_def event_switch_def on_resolve_def on_connect_def Let_def
        resolve_def connect_def ssl_handshake_def event_received_late_def connection_new_def emit_def
        negotiating_def)
  then show ?thesis
    using send_options_writes [of ?c 1 2 "map int [3..<128]" env] ok new_free assms by auto
qed

text \<open>With a smaller buffer for no bytes, the header of the OPTIONS frame does not fit.\<close>

lemma connect_phase_overflow:
  assumes "\<not> 8 \<le> env_alloc env 0"
  shows "bind_result (init fuel env cc kc (connection_new env None)) (\<lambda>c.
      bind_result (on_resolve fuel env 0 AF_INET addr c) (on_connect fuel env 0)) = Inl OutOfBounds"
proof -
  let ?ss = "stream_storage_new CQL_STREAM_ID_MAX :: nat option stream_storage"
  let ?c = "negotiating env cc kc addr CLIENT_STATE_HANDSHAKE ?ss
    [UvGetaddrinfo (str ''localhost'') (str ''9042''), UvFreeaddrinfo, UvTcpInit,
    UvTcpConnect (take 16 addr), UvReadStart]"
  have "streams_ok CQL_STREAM_ID_MAX ?ss"
    by (simp add: streams_ok_new CQL_STREAM_ID_MAX_def)
  then have "send_options env ?c = Inl OutOfBounds"
    using send_options_overflows [where c = ?c and env = env] new_free assms by simp
  moreover have "bind_result (init fuel env cc kc (connection_new env None)) (\<lambda>c.
      bind_result (on_resolve fuel env 0 AF_INET addr c) (on_connect fuel env 0)) = send_options env ?c"
    by (simp add: init_def event_received_def event_switch_def on_resolve_def on_connect_def Let_def
        resolve_def connect_def ssl_handshake_def event_received_late_def connection_new_def emit_def
        negotiating_def)
  ultimately show ?thesis by simp
qed

lemma supported_phase:
  assumes "map_ok opts" and "list_all multimap_entry_ok opts" and "length opts < 32768"
    and "length (wire_string_multimap opts) < 2147483640" and "\<And>n. n \<le> env_alloc env n"
    and "points_to P (wire_frame s CQL_OPCODE_SUPPORTED (wire_string_multimap opts))" and "0 \<le> sint s"
    and "streams_ok CQL_STREAM_ID_MAX ss" and "free_streams ss = i # j # is"
    and n: "n = length (startup_frame i (str ''3.0.0''))"
  shows "\<exists>ss'. on_read fuel env eof (int (length (wire_frame s CQL_OPCODE_SUPPORTED
      (wire_string_multimap opts)))) P
      (negotiating env cc kc addr st ss tr) =
    Inr (negotiating env cc kc addr CLIENT_STATE_SUPPORTED ss'
      (tr @ [UvWrite (framed (env_alloc env) n 0 (startup_frame i (str ''3.0.0''))) n])) \<and>
    streams_ok CQL_STREAM_ID_MAX ss' \<and> free_streams ss' = j # is \<and>
    held_stream ss' = (held_stream ss)(i \<mapsto> None)"
proof -
  let ?w = "wire_string_multimap opts" and ?c = "negotiating env cc kc addr st ss tr"
  let ?c1 = "negotiating env cc kc addr CLIENT_STATE_SUPPORTED ss tr"
  obtain b where b: "parses_to env CQL_OPCODE_SUPPORTED ?w b"
    using parses_supported [OF assms(1-3)] by blast
  obtain msg where "m_opcode msg = CQL_OPCODE_SUPPORTED" "m_stream msg = s"
    and "consume env P (length (wire_frame s CQL_OPCODE_SUPPORTED ?w)) ?c =
      on_message env msg (length (wire_frame s CQL_OPCODE_SUPPORTED ?w))
        (of_nat (length (wire_frame s CQL_OPCODE_SUPPORTED ?w))) ?c"
    using consume_frame [OF _ assms(6) b assms(4,5) refl, of ?c] header_partial_new by auto
  then have "on_read fuel env eof (int (length (wire_frame s CQL_OPCODE_SUPPORTED ?w))) P ?c =
      send_startup env ?c1"
    using assms(7) by (simp add: on_read_def on_message_def opcode_to_string_known on_supported_def
        event_received_late_def event_switch_def)
  then show ?thesis
    using send_startup_writes [of ?c1 i j "is" env n] assms(5,8,9) n by auto
qed

lemma ready_phase:
  assumes "\<And>n. n \<le> env_alloc env n" and "points_to P (wire_frame s CQL_OPCODE_READY [])" and "0 \<le> sint s"
  shows "on_read fuel env eof 8 P (negotiating env True kc addr st ss tr) =
     cb_connect env None (negotiating env True kc addr CLIENT_STATE_READY ss tr)"
proof -
  let ?c = "negotiating env True kc addr st ss tr"
  obtain msg where "m_opcode msg = CQL_OPCODE_READY" "m_stream msg = s"
    and "consume env P (length (wire_frame s CQL_OPCODE_READY [])) ?c =
      on_message env msg (length (wire_frame s CQL_OPCODE_READY []))
        (of_nat (length (wire_frame s CQL_OPCODE_READY []))) ?c"
    using consume_frame [OF _ assms(2) parses_ready _ assms(1) refl, of ?c] header_partial_new by auto
  moreover have "CQL_OPCODE_READY \<noteq> CQL_OPCODE_SUPPORTED" "CQL_OPCODE_READY \<noteq> CQL_OPCODE_ERROR"
    by (simp_all add: opcode_defs)
  ultimately show ?thesis
    using assms(3) by (simp add: wire_frame_def on_read_def on_message_def opcode_to_string_known
      on_ready_def
        event_received_late_def event_switch_def notify_ready_def)
qed

subsection \<open>Reachable states\<close>

text \<open>Every event libuv delivers and every call a client makes, in any order.\<close>

inductive conn_reachable :: "'ssl conn_env \<Rightarrow> 'ssl connection \<Rightarrow> bool" for env where
  start: "conn_reachable env (connection_new env ssl)"
| init: "conn_reachable env c \<Longrightarrow> init fuel env cc kc c = Inr c' \<Longrightarrow> conn_reachable env c'"
| resolved: "conn_reachable env c \<Longrightarrow> on_resolve fuel env st fam a c = Inr c' \<Longrightarrow> conn_reachable env c'"
| connected: "conn_reachable env c \<Longrightarrow> on_connect fuel env st c = Inr c' \<Longrightarrow> conn_reachable env c'"
| read: "conn_reachable env c \<Longrightarrow> on_read fuel env eof n P c = Inr c' \<Longrightarrow> conn_reachable env c'"
| written: "conn_reachable env c \<Longrightarrow> conn_reachable env (on_write st c)"
| closed: "conn_reachable env c \<Longrightarrow> on_close fuel env c = Inr c' \<Longrightarrow> conn_reachable env c'"
| closing: "conn_reachable env c \<Longrightarrow> conn_reachable env (close c)"
| use_keyspace: "conn_reachable env c \<Longrightarrow> set_keyspace env k c = Inr c' \<Longrightarrow> conn_reachable env c'"
| request: "conn_reachable env c \<Longrightarrow> submit env m r c = Inr (i, c') \<Longrightarrow> conn_reachable env c'"

lemma conn_ok_new: "conn_ok (connection_new env ssl)"
  by (simp add: conn_ok_def connection_new_def streams_ok_new CQL_STREAM_ID_MAX_def)

context client_callbacks
begin

lemma reachable_conn_inv: "conn_reachable env c \<Longrightarrow> conn_inv c"
proof (induction rule: conn_reachable.induct)
  case start
  then show ?case by (simp add: conn_inv_def conn_ok_new) (simp add: connection_new_def)
next
  case (use_keyspace c k c')
  then show ?case using well_conn_inv [OF well_set_keyspace] by blast
qed (auto simp: on_write_def close_def Let_def
    intro: init_ok on_resolve_ok on_connect_ok on_read_ok on_close_ok submit_ok)

end

subsection \<open>Requests and answers\<close>

lemma finish_request_completes:
  assumes "k < length (c_requests c)"
    and "rq_callback (c_requests c ! k) \<longrightarrow> \<not> rq_use_local_loop (c_requests c ! k)"
  shows "\<exists>c'. finish_request env msg (Some (Some k)) c = Inr c' \<and>
     c_requests c' = (c_requests c)[k := (c_requests c ! k)\<lparr>rq_result := Some msg, rq_flag := True\<rparr>] \<and>
     c_stream_storage c' = c_stream_storage c \<and> c_state c' = c_state c"
  using assms
  by (auto simp: finish_request_def deref_request_def array_get_def notify_request_def notify_def Let_def)

lemma on_result_completes:
  assumes ok: "conn_ok c" and body: "m_body msg = Some (BodyResult res)"
    and kind: "r_kind res \<noteq> CQL_RESULT_KIND_SET_KEYSPACE" "r_kind res \<noteq> CQL_RESULT_KIND_PREPARED"
    and held: "held_stream (c_stream_storage c) (sint (m_stream msg)) = Some (Some k)"
    and cb: "rq_callback (c_requests c ! k) \<longrightarrow> \<not> rq_use_local_loop (c_requests c ! k)"
  shows "\<exists>c'. on_result env msg c = Inr c' \<and>
     c_requests c' = (c_requests c)[k := (c_requests c ! k)\<lparr>rq_result := Some msg, rq_flag := True\<rparr>] \<and>
     held_stream (c_stream_storage c') = (held_stream (c_stream_storage c))(sint (m_stream msg) := None) \<and>
     conn_available_streams c' = Suc (conn_available_streams c)"
proof -
  have s: "streams_ok CQL_STREAM_ID_MAX (c_stream_storage c)" and k: "k < length (c_requests c)"
    using ok held by (auto simp: conn_ok_def)
  obtain ss where get: "get_stream (sint (m_stream msg)) True (c_stream_storage c) = Inr (None, ss,
      Some (Some k))"
    and ss: "streams_ok CQL_STREAM_ID_MAX ss" "free_streams ss = sint (m_stream msg) # free_streams
      (c_stream_storage c)"
      "held_stream ss = (held_stream (c_stream_storage c))(sint (m_stream msg) := None)"
    using get_stream_releases [OF s held] by blast
  let ?c = "(conn_log CQL_LOG_DEBUG (Literal ''on_result'') c)\<lparr>c_stream_storage := ss\<rparr>"
  have avail: "available_streams CQL_STREAM_ID_MAX ss = Suc (available_streams CQL_STREAM_ID_MAX
      (c_stream_storage c))"
    using length_free [OF s] length_free [OF ss(1)] ss(2) by simp
  obtain c' where "finish_request env msg (Some (Some k)) ?c = Inr c'"
    "c_requests c' = (c_requests c)[k := (c_requests c ! k)\<lparr>rq_result := Some msg, rq_flag := True\<rparr>]"
    "c_stream_storage c' = ss"
    using finish_request_completes [of k ?c env msg] k cb by auto
  then show ?thesis
    using body kind get ss(3) avail
    by (simp add: on_result_def conn_available_streams_def)
qed

lemma on_message_result:
  assumes "m_opcode msg = CQL_OPCODE_RESULT" and "0 \<le> sint (m_stream msg)"
  shows "on_message env msg sz n c = on_result env msg (conn_log CQL_LOG_DEBUG
     (Consumed (str ''CQL_OPCODE_RESULT'') (sint (m_stream msg)) sz (sint n)) c)"
  using assms by (simp add: on_message_def opcode_to_string_known) (simp add: opcode_defs)

text \<open>A chunk that is one RESULT frame.\<close>

lemma consume_result:
  assumes "header_partial (c_incomming c) []" and "points_to P (wire_frame s CQL_OPCODE_RESULT bs)"
    and "parses_to env CQL_OPCODE_RESULT bs (BodyResult res)" and "length bs < 2147483640"
    and "\<And>n. n \<le> env_alloc env n" and "0 \<le> sint s"
  obtains msg t where "m_stream msg = s" and "m_body msg = Some (BodyResult res)"
    and "consume env P (length (wire_frame s CQL_OPCODE_RESULT bs)) c =
      on_result env msg (conn_log CQL_LOG_DEBUG t (c\<lparr>c_incomming := message_new\<rparr>))"
  using consume_frame [OF assms(1-5) refl] on_message_result assms(6) by metis

lemma conn_available_log [simp]:
  "conn_available_streams (conn_log l t c) = conn_available_streams c"
  "conn_available_streams (c\<lparr>c_incomming := m\<rparr>) = conn_available_streams c"
  by (simp_all add: conn_available_streams_def)

lemma available_free: "conn_ok c \<Longrightarrow> conn_available_streams c = length (free_streams (c_stream_storage c))"
  using length_free [of CQL_STREAM_ID_MAX "c_stream_storage c"]
  by (simp add: conn_available_streams_def conn_ok_def)

lemma two_free:
  assumes "conn_ok c" and "2 \<le> conn_available_streams c"
  obtains i j "is" where "free_streams (c_stream_storage c) = i # j # is"
  using assms available_free [OF assms(1)]
  by (cases "free_streams (c_stream_storage c)"; cases "tl (free_streams (c_stream_storage c))") auto

text \<open>Sending any message with a body that can be sent.\<close>

lemma send_message_sends:
  assumes ok: "conn_ok c" and two: "2 \<le> conn_available_streams c"
    and m: "m_body m = Some b" "body_ok b" "opcode_to_string (m_opcode m) = Inr name"
    and alloc: "\<And>n. n \<le> env_alloc env n"
  shows "\<exists>i out c'. send_message env m r c = Inr (None, c') \<and>
     held_stream (c_stream_storage c) i = None \<and>
     held_stream (c_stream_storage c') = (held_stream (c_stream_storage c))(i \<mapsto> r) \<and>
     streams_ok CQL_STREAM_ID_MAX (c_stream_storage c') \<and>
     c_requests c' = c_requests c \<and> c_incomming c' = c_incomming c \<and>
     c_keyspace_callback c' = c_keyspace_callback c \<and>
     last (c_trace c') = UvWrite out (8 + length (body_payload b)) \<and>
     points_to (Ptr out 0) (message_header (m\<lparr>m_stream :=
       of_int i\<rparr>) (of_nat (length (body_payload b))) @ body_payload b) \<and>
     Suc (conn_available_streams c') = conn_available_streams c"
proof -
  from two_free [OF ok two] obtain i j "is" where free: "free_streams (c_stream_storage c) = i # j # is" .
  have s: "streams_ok CQL_STREAM_ID_MAX (c_stream_storage c)" using ok by (simp add: conn_ok_def)
  let ?m = "m\<lparr>m_stream := of_int i\<rparr>"
  let ?out = "framed (env_alloc env) (8 + length (body_payload b)) 0
    (message_header ?m (of_nat (length (body_payload b))) @ body_payload b)"
  have prep: "message_prepare (env_alloc env) ?m =
      Inr (?m\<lparr>m_length := of_nat (length (body_payload b))\<rparr>, Some ?out, 8 + length (body_payload b), True)"
    using message_prepare_sends [of ?m b "env_alloc env"] m(1,2) alloc by simp
  obtain ss where send: "send_message env m r c =
      Inr (None, send_data ?out (8 + length (body_payload b)) (conn_log CQL_LOG_DEBUG
        (Sending name (sint (of_int i :: int8)) (8 + length (body_payload b))) (c\<lparr>c_stream_storage
          := ss\<rparr>)))"
    and ss: "streams_ok CQL_STREAM_ID_MAX ss" "free_streams ss = j # is"
      "held_stream ss = (held_stream (c_stream_storage c))(i \<mapsto> r)"
    using send_message_takes [OF s free prep, of name r] m(3) by auto
  have "held_stream (c_stream_storage c) i = None"
    using streams.free_not_held [OF s, of i] free by simp
  moreover have "Suc (available_streams CQL_STREAM_ID_MAX ss) = conn_available_streams c"
    using length_free [OF ss(1)] available_free [OF ok] ss(2) free by simp
  moreover have "points_to (Ptr ?out 0) (message_header ?m (of_nat (length (body_payload b))) @
      body_payload b)"
    by (rule points_to_framed)
  moreover obtain c' where c': "c' = send_data ?out (8 + length (body_payload b)) (conn_log CQL_LOG_DEBUG
        (Sending name (sint (of_int i :: int8)) (8 + length (body_payload b))) (c\<lparr>c_stream_storage := ss\<rparr>))"
    by simp
  moreover from c' have "c_stream_storage c' = ss" "c_requests c' = c_requests c"
    "c_incomming c' = c_incomming c" "c_keyspace_callback c' = c_keyspace_callback c"
    "last (c_trace c') = UvWrite ?out (8 + length (body_payload b))"
    by (simp_all add: send_data_def) (simp add: emit_def)
  ultimately show ?thesis
    using send ss unfolding conn_available_streams_def
    by (intro exI [of _ i] exI [of _ ?out] exI [of _ c'] conjI) (simp_all only:)
qed

lemma parses_void:
  "parses_to env CQL_OPCODE_RESULT (be32 CQL_RESULT_KIND_VOID) (BodyResult (body_result_new\<lparr>r_kind
      := CQL_RESULT_KIND_VOID\<rparr>))"
  using decode_int_wire [OF points_to_framed [of _ _ "be32 CQL_RESULT_KIND_VOID"]]
  by (auto simp: parses_to_def allocate_known with_body_def body_result_consume_def Let_def)

lemma parses_set_keyspace:
  assumes "short_string k"
  shows "\<exists>res. parses_to env CQL_OPCODE_RESULT (be32 CQL_RESULT_KIND_SET_KEYSPACE @ wire_string k)
      (BodyResult res)
     \<and> r_kind res = CQL_RESULT_KIND_SET_KEYSPACE"
proof -
  let ?w = "be32 CQL_RESULT_KIND_SET_KEYSPACE @ wire_string k"
  let ?P = "Ptr (framed (env_alloc env) (length ?w) 0 ?w) 0"
  have P: "points_to ?P ?w" by (rule points_to_framed)
  then have "decode_int ?P = Inr (CQL_RESULT_KIND_SET_KEYSPACE, ptr_add ?P 4)"
    by (intro decode_int_wire) (simp del: points_to.simps ptr_add.simps)
  moreover have "decode_string (ptr_add ?P 4) 0 = Inr (ptr_add ?P 6, of_nat (length k),
      ptr_add ?P (6 + length k))"
    using P decode_string_wire [of "ptr_add ?P 4" k 0] assms
    by (simp del: points_to.simps ptr_add.simps add: add.assoc)
  ultimately show ?thesis
    by (auto simp: parses_to_def allocate_known with_body_def body_result_consume_def Let_def
        parse_set_keyspace_def result_kind_defs body_result_new_def simp del: ptr_add.simps)
qed

lemma parses_error:
  assumes "short_string text"
  shows "parses_to env CQL_OPCODE_ERROR (wire_error code text)
     (BodyError (body_error_new\<lparr>err_code := code, err_message_size := of_nat (length text),
       err_message := Ptr (framed (env_alloc env) (length (wire_error code text)) 0 (wire_error code
         text)) 6\<rparr>))"
  using body_error_consume_wire [OF points_to_framed assms, where e = body_error_new]
  by (auto simp: parses_to_def allocate_known with_body_def body_error_new_def)

lemma consume_error:
  assumes "header_partial (c_incomming c) []" and "points_to P (wire_frame s CQL_OPCODE_ERROR
      (wire_error code text))"
    and "short_string text" and "\<And>n. n \<le> env_alloc env n" and "0 \<le> sint s"
  shows "\<exists>msg e t. m_body msg = Some (BodyError e) \<and>
     err_message e = Ptr (framed (env_alloc env) (length (wire_error code text)) 0 (wire_error code
       text)) 6 \<and>
     consume env P (length (wire_frame s CQL_OPCODE_ERROR (wire_error code text))) c =
       on_error env msg (conn_log CQL_LOG_DEBUG t (c\<lparr>c_incomming := message_new\<rparr>))"
proof -
  have "length (wire_error code text) < 2147483640"
    using assms(3) by (simp add: wire_error_def short_string_def)
  from consume_frame [OF assms(1,2) parses_error [OF assms(3)] this assms(4) refl]
  obtain msg where msg: "m_opcode msg = CQL_OPCODE_ERROR" "m_stream msg = s"
    "m_body msg = Some (BodyError (body_error_new\<lparr>err_code := code, err_message_size :=
      of_nat (length text),
       err_message := Ptr (framed (env_alloc env) (length (wire_error code text)) 0 (wire_error code
         text)) 6\<rparr>))"
    "consume env P (length (wire_frame s CQL_OPCODE_ERROR (wire_error code text))) c =
       on_message env msg (length (wire_frame s CQL_OPCODE_ERROR (wire_error code text)))
         (of_nat (length (wire_frame s CQL_OPCODE_ERROR (wire_error code text)))) (c\<lparr>c_incomming :=
           message_new\<rparr>)"
    by blast
  have "CQL_OPCODE_ERROR \<noteq> CQL_OPCODE_SUPPORTED" by (simp add: opcode_defs)
  with msg assms(5) show ?thesis
    by (intro exI [of _ msg] exI conjI) (auto simp: on_message_def opcode_to_string_known)
qed

subsection \<open>Properties\<close>

text \<open>
  C9: The start-up negotiation. From a new connection without SSL, the code runs \<open>init\<close>, a
  successful resolve and connect, and handles a well-formed SUPPORTED frame and a READY frame. It
  asks \<open>new char[0]\<close> for the buffer of the OPTIONS frame. If the allocator returns at least
  eight bytes for that, all this leads to the connect callback without an error, in state READY. The
  calls of libuv are, in order: resolve, connect to the address, start reading, write the OPTIONS
  frame on stream 1, write the STARTUP frame with the protocol version on stream 2. Both streams
  are still in use afterwards, and stand for no request. With any other allocator the handler of
  the connect event writes the OPTIONS header out of bounds.
\<close>

theorem connection_negotiation:
  fixes env :: "'ssl conn_env"
  assumes "\<And>n. n \<le> env_alloc env n" and "map_ok opts" and "list_all multimap_entry_ok opts"
      and "length opts < 32768"
    and "fs = wire_frame s1 CQL_OPCODE_SUPPORTED (wire_string_multimap opts)"
    and "length fs < 2147483640" and "fr = wire_frame s2 CQL_OPCODE_READY []"
    and "0 \<le> sint s1" and "0 \<le> sint s2" and "n = length (startup_frame 2 (str ''3.0.0''))"
    and "run = bind_result (init fuel env True kc (connection_new env None)) (\<lambda>c.
      bind_result (on_resolve fuel env 0 AF_INET addr c) (\<lambda>c.
      bind_result (on_connect fuel env 0 c) (\<lambda>c.
      bind_result (on_read fuel env eof (int (length fs)) (Ptr (map Some fs) 0) c) (\<lambda>c.
      on_read fuel env eof (int (length fr)) (Ptr (map Some fr) 0) c))))"
  shows "if 8 \<le> env_alloc env 0
    then \<exists>ss. run = cb_connect env None ((connection_new env None)\<lparr>
      c_connect_callback := True, c_keyspace_callback := kc, c_address := take 16 addr,
      c_address_string := ip4_name env addr, c_state := CLIENT_STATE_READY, c_stream_storage := ss,
      c_trace := [UvGetaddrinfo (str ''localhost'') (str ''9042''), UvFreeaddrinfo, UvTcpInit,
        UvTcpConnect (take 16 addr), UvReadStart,
        UvWrite (framed (env_alloc env) 0 0 (options_frame 1)) 8,
        UvWrite (framed (env_alloc env) n 0 (startup_frame 2 (str ''3.0.0''))) n]\<rparr>) \<and>
      held_stream ss = Map.empty(1 \<mapsto> None, 2 \<mapsto> None)
    else run = Inl OutOfBounds"
proof (cases "8 \<le> env_alloc env 0")
  case False
  have "run = bind_result (bind_result (init fuel env True kc (connection_new env None)) (\<lambda>c.
      bind_result (on_resolve fuel env 0 AF_INET addr c) (on_connect fuel env 0))) (\<lambda>c.
      bind_result (on_read fuel env eof (int (length fs)) (Ptr (map Some fs) 0) c) (\<lambda>c.
      on_read fuel env eof (int (length fr)) (Ptr (map Some fr) 0) c))"
    by (simp add: assms(11) bind_result_assoc)
  with connect_phase_overflow [OF False, where fuel = fuel and cc = True and kc = kc and addr =
      addr] False show ?thesis by simp
next
  case True
  let ?w = "wire_string_multimap opts"
  obtain ss1 where p1: "bind_result (init fuel env True kc (connection_new env None)) (\<lambda>c.
      bind_result (on_resolve fuel env 0 AF_INET addr c) (on_connect fuel env 0)) =
      Inr (negotiating env True kc addr CLIENT_STATE_HANDSHAKE ss1
      [UvGetaddrinfo (str ''localhost'') (str ''9042''), UvFreeaddrinfo, UvTcpInit,
       UvTcpConnect (take 16 addr), UvReadStart, UvWrite (framed (env_alloc env) 0 0 (options_frame 1)) 8])"
    and ss1: "streams_ok CQL_STREAM_ID_MAX ss1" "free_streams ss1 = 2 # map int [3..<128]"
      "held_stream ss1 = Map.empty(1 \<mapsto> None)"
    using connect_phase [OF True, of fuel True kc addr] by auto
  have free: "free_streams ss1 = 2 # 3 # map int [4..<128]"
    unfolding ss1(2) by (subst (1) upt_rec) simp
  have w: "length ?w < 2147483640" using assms(5,6) by (simp add: wire_frame_def)
  let ?c1 = "negotiating env True kc addr CLIENT_STATE_HANDSHAKE ss1
      [UvGetaddrinfo (str ''localhost'') (str ''9042''), UvFreeaddrinfo, UvTcpInit,
       UvTcpConnect (take 16 addr), UvReadStart, UvWrite (framed (env_alloc env) 0 0 (options_frame 1)) 8]"
  have P: "points_to (Ptr (map Some fs) 0) (wire_frame s1 CQL_OPCODE_SUPPORTED ?w)"
    "points_to (Ptr (map Some fr) 0) (wire_frame s2 CQL_OPCODE_READY [])"
    using assms(5,7) by simp_all
  obtain ss where p2: "on_read fuel env eof (int (length fs)) (Ptr (map Some fs) 0) ?c1 =
      Inr (negotiating env True kc addr CLIENT_STATE_SUPPORTED ss
        (c_trace ?c1 @ [UvWrite (framed (env_alloc env) n 0 (startup_frame 2 (str ''3.0.0''))) n]))"
    and ss: "held_stream ss = (held_stream ss1)(2 \<mapsto> None)"
    using supported_phase [OF assms(2-4) w assms(1) P(1) assms(8) ss1(1) free assms(10),
      of fuel eof True kc addr
        CLIENT_STATE_HANDSHAKE "c_trace ?c1"] assms(5) by auto
  have l: "int (length fr) = 8" by (simp add: assms(7) wire_frame_def)
  note p3 = ready_phase [OF assms(1) P(2) assms(9), of fuel eof kc addr CLIENT_STATE_SUPPORTED ss]
  have "bind_result (init fuel env True kc (connection_new env None)) (\<lambda>c.
      bind_result (on_resolve fuel env 0 AF_INET addr c) (\<lambda>c. bind_result (on_connect fuel env 0 c) k)) =
      k ?c1" for k :: "'ssl connection \<Rightarrow> 'ssl connection result"
    using arg_cong [OF p1, of "\<lambda>r. bind_result r k"] by (simp add: bind_result_assoc)
  with p2 p3 ss ss1(3) True show ?thesis
    by (auto simp: l negotiating_def connection_new_def assms(11))
qed

definition sample_options :: string_multimap where
  "sample_options = [(str ''CQL_VERSION'', [str ''3.0.0''])]"

definition roomy :: "unit conn_env" where
  "roomy = pool_env (\<lambda>n. max n 16)"

lemma roomy_alloc [simp]: "env_alloc roomy = (\<lambda>n. max n 16)"
  by (simp add: roomy_def)

lemma sample_options_ok:
  "map_ok sample_options" "list_all multimap_entry_ok sample_options" "length sample_options < 32768"
  "length (wire_frame 1 CQL_OPCODE_SUPPORTED (wire_string_multimap sample_options)) < 2147483640"
  by (simp_all add: sample_options_def multimap_entry_ok_def short_string_def short_list_def
      wire_frame_def wire_string_multimap_def wire_multimap_entry_def wire_stringlist_def)

theorem connection_negotiation_witness:
  "\<exists>ss. bind_result (init 0 roomy True False (connection_new roomy None)) (\<lambda>c.
      bind_result (on_resolve 0 roomy 0 AF_INET [2, 0, 35, 82, 127, 0, 0, 1] c) (\<lambda>c.
      bind_result (on_connect 0 roomy 0 c) (\<lambda>c.
      bind_result (on_read 0 roomy False
        (int (length (wire_frame 1 CQL_OPCODE_SUPPORTED (wire_string_multimap sample_options))))
        (Ptr (map Some (wire_frame 1 CQL_OPCODE_SUPPORTED (wire_string_multimap sample_options))) 0) c) (\<lambda>c.
      on_read 0 roomy False (int (length (wire_frame 2 CQL_OPCODE_READY [])))
        (Ptr (map Some (wire_frame 2 CQL_OPCODE_READY [])) 0) c)))) =
    cb_connect roomy None ((connection_new roomy None)\<lparr>
      c_connect_callback := True, c_keyspace_callback := False,
      c_address := take 16 [2, 0, 35, 82, 127, 0, 0, 1],
      c_address_string := ip4_name roomy [2, 0, 35, 82, 127, 0, 0, 1],
      c_state := CLIENT_STATE_READY, c_stream_storage := ss,
      c_trace := [UvGetaddrinfo (str ''localhost'') (str ''9042''), UvFreeaddrinfo, UvTcpInit,
        UvTcpConnect (take 16 [2, 0, 35, 82, 127, 0, 0, 1]), UvReadStart,
        UvWrite (framed (env_alloc roomy) 0 0 (options_frame 1)) 8,
        UvWrite (framed (env_alloc roomy) (length (startup_frame 2 (str ''3.0.0''))) 0
          (startup_frame 2 (str ''3.0.0''))) (length (startup_frame 2 (str ''3.0.0'')))]\<rparr>) \<and>
    held_stream ss = Map.empty(1 \<mapsto> None, 2 \<mapsto> None)"
  using connection_negotiation [OF _ sample_options_ok(1-3) refl sample_options_ok(4) refl _ _ refl refl,
      of roomy 2 0 False "[2, 0, 35, 82, 127, 0, 0, 1]" False]
  by simp

text \<open>
  C20: The loop of \<open>consume\<close> ends on every input: when the message being received is inside its
  header, no chunk of bytes, well-formed or not, keeps the loop running for more iterations than
  the chunk has bytes, provided the client's callbacks return and leave the received message
  alone.
\<close>

theorem consume_terminates:
  assumes "client_callbacks env" and "\<And>n. n \<le> env_alloc env n"
    and "header_partial (c_incomming c) h" and "points_to P bs" and "length bs < 2147483640"
  shows "consume env P (length bs) c \<noteq> Inl Diverged"
  using client_callbacks.consume_loop_halts [OF assms(1) assms(2-4) order_refl assms(5)]
  by (simp add: consume_def halts_def)

theorem consume_terminates_witness:
  "consume roomy (Ptr (map Some [0x82, 0, 1, 2, 0, 0, 0, 0, 0x82, 0]) 0)
     (length [0x82, 0, 1, 2, 0, 0, 0, 0, 0x82, 0 :: byte]) (connection_new roomy None) \<noteq> Inl Diverged"
  by (rule consume_terminates [where h = "[]"])
    (simp_all add: roomy_def pool.client_callbacks_axioms connection_new_def header_partial_new)

text \<open>
  C12: The invariant of a connection. Whatever events and calls happened, in any order and with any
  bytes received, the free streams are distinct and are exactly the ids not in use, and a
  stream in use stands for no request or for one that exists, provided the client's callbacks
  keep this.
\<close>

theorem connection_invariant:
  assumes "client_callbacks env" and "conn_reachable env c"
  shows "distinct (free_streams (c_stream_storage c)) \<and>
     set (free_streams (c_stream_storage c)) = {1..127} - {i. held_stream (c_stream_storage c) i \<noteq> None} \<and>
     (\<forall>i r. held_stream (c_stream_storage c) i = Some (Some r) \<longrightarrow> r < length (c_requests c))"
  using client_callbacks.reachable_conn_inv [OF assms]
  by (auto simp: conn_inv_def conn_ok_def streams_ok_def CQL_STREAM_ID_MAX_def)

theorem connection_invariant_witness:
  "distinct (free_streams (c_stream_storage (close (connection_new roomy None)))) \<and>
   set (free_streams (c_stream_storage (close (connection_new roomy None)))) =
     {1..127} - {i. held_stream (c_stream_storage (close (connection_new roomy None))) i \<noteq> None} \<and>
   {r. \<exists>i. held_stream (c_stream_storage (close (connection_new roomy None))) i = Some (Some r)}
     \<subseteq> {..<length (c_requests (close (connection_new roomy None)))}"
  using connection_invariant [OF _ conn_reachable.closing [OF conn_reachable.start], of roomy None]
  by (auto simp add: roomy_def pool.client_callbacks_axioms)

text \<open>
  C8: The bodies of messages have the types the handlers cast them to. Whatever bytes a connection
  has received and receives, a message that is complete has a body, of the class that belongs to
  its opcode: the handlers of RESULT, ERROR and SUPPORTED frames, which cast the body
  without a check, get a \<open>BodyResult\<close>, a \<open>BodyError\<close> and a \<open>BodySupported\<close>.
\<close>

theorem message_bodies_typed:
  assumes "client_callbacks env" and "conn_reachable env c"
    and "message_consume (env_alloc env) (c_incomming c) P n = Inr (k, m)" and "m_body_ready m"
  shows "(\<exists>b. m_body m = Some b \<and> body_opcode b = m_opcode m) \<and>
     (m_opcode m = CQL_OPCODE_RESULT \<longrightarrow> (\<exists>res. m_body m = Some (BodyResult res))) \<and>
     (m_opcode m = CQL_OPCODE_ERROR \<longrightarrow> (\<exists>err. m_body m = Some (BodyError err))) \<and>
     (m_opcode m = CQL_OPCODE_SUPPORTED \<longrightarrow> (\<exists>s. m_body m = Some (BodySupported s)))"
proof -
  have "message_typed (c_incomming c)"
    using client_callbacks.reachable_conn_inv [OF assms(1,2)] by (simp add: conn_inv_def)
  from message_consume_typed [OF assms(3) this] assms(4) obtain b where
    b: "m_body m = Some b" "body_opcode b = m_opcode m"
    by (auto simp: message_typed_def)
  then show ?thesis by (cases b) (auto simp: opcode_defs)
qed

lemma frame_done_fields:
  "m_body_ready (frame_done m bb n b ok)" "m_opcode (frame_done m bb n b ok) = m_opcode m"
  "m_opcode (header_done alloc m h n b) = h ! 3"
  by (simp_all add: frame_done_def header_done_def)

theorem message_bodies_typed_witness:
  "\<exists>k m. message_consume (env_alloc roomy) (c_incomming (connection_new roomy None))
       (Ptr (map Some (wire_frame 1 CQL_OPCODE_RESULT (be32 CQL_RESULT_KIND_VOID))) 0) 12 = Inr (k, m) \<and>
     (\<exists>res. m_body m = Some (BodyResult res))"
proof -
  let ?v = "be32 CQL_RESULT_KIND_VOID"
  let ?bs = "wire_frame 1 CQL_OPCODE_RESULT ?v"
  have P: "points_to (Ptr (map Some ?bs) 0)
      (wire_header 0x82 0 1 CQL_OPCODE_RESULT (of_nat (length ?v)) @ ?v @ [])"
    by (simp add: wire_frame_def)
  obtain b ok where b: "allocate_body CQL_OPCODE_RESULT = Inr b"
    "body_consume (Ptr (framed (env_alloc roomy) (length ?v) 0 ?v) 0) (length ?v) b =
       Inr (BodyResult (body_result_new\<lparr>r_kind := CQL_RESULT_KIND_VOID\<rparr>), ok)"
    using parses_void [of roomy] by (auto simp: parses_to_def)
  obtain k m where m: "message_consume (env_alloc roomy) message_new (Ptr (map Some ?bs) 0) 12 = Inr (k, m)"
    "m_body_ready m" "m_opcode m = CQL_OPCODE_RESULT"
  proof -
    have n: "12 = length (wire_header 0x82 0 1 CQL_OPCODE_RESULT (of_nat (length ?v)) @ ?v @ [])" by simp
    have op: "([] @ wire_header 0x82 0 1 CQL_OPCODE_RESULT (of_nat (length ?v))) ! 3 = CQL_OPCODE_RESULT"
      by (simp add: wire_header_def)
    have len: "8 + length ?v + length ([] :: bytes) < 2147483648" by simp
    have alloc: "n \<le> env_alloc roomy n" for n by simp
    note eq = message_consume_frame [OF header_partial_new append_Nil P b(1) len alloc n]
    show thesis
      by (rule that) (simp only: eq b(2) bind_result_simps prod.case, simp_all only: frame_done_fields op)
  qed
  have "c_incomming (connection_new roomy None) = message_new" by (simp add: connection_new_def)
  with message_bodies_typed [OF _ conn_reachable.start, of roomy None "Ptr (map Some ?bs) 0" 12 k m] m
  show ?thesis by (auto simp: roomy_def pool.client_callbacks_axioms)
qed

text \<open>The default and the prepared case of \<open>on_result\<close>, for every stream.\<close>

definition request_answered where
  "request_answered env msg k c r \<longleftrightarrow>
     (\<exists>c1. c_requests c1 = (c_requests c)[k := (c_requests c ! k)\<lparr>rq_result := Some msg, rq_flag := True\<rparr>] \<and>
        held_stream (c_stream_storage c1) = (held_stream (c_stream_storage c))(sint (m_stream msg)
          := None) \<and>
        conn_available_streams c1 = Suc (conn_available_streams c) \<and> c_state c1 = c_state c \<and>
        r = (if rq_callback (c_requests c ! k) \<and> rq_use_local_loop (c_requests c ! k)
             then cb_request env k c1 else Inr c1))"

lemma finish_request_answers:
  assumes "k < length (c_requests c)"
  shows "\<exists>c1. c_requests c1 = (c_requests c)[k := (c_requests c ! k)\<lparr>rq_result := Some msg,
      rq_flag := True\<rparr>] \<and>
     c_stream_storage c1 = c_stream_storage c \<and> c_state c1 = c_state c \<and>
     finish_request env msg (Some (Some k)) c =
       (if rq_callback (c_requests c ! k) \<and> rq_use_local_loop (c_requests c ! k)
        then cb_request env k c1 else Inr c1)"
proof -
  let ?r = "(c_requests c ! k)\<lparr>rq_result := Some msg, rq_flag := True\<rparr>"
  let ?c = "emit (NotifyAll k) (c\<lparr>c_requests := (c_requests c)[k := ?r]\<rparr>)"
  let ?q = "rq_callback (c_requests c ! k) \<and> \<not> rq_use_local_loop (c_requests c ! k)"
  show ?thesis
    using assms
    by (intro exI [of _ "if ?q then emit (UvQueueWork k) ?c else ?c"])
      (simp add: finish_request_def deref_request_def array_get_def notify_request_def notify_def Let_def)
qed

lemma storage_same [simp]: "c\<lparr>c_stream_storage := c_stream_storage c\<rparr> = c"
  by (cases c) simp

lemma on_result_stream:
  assumes ok: "conn_ok c" and body: "m_body msg = Some (BodyResult res)"
    and kind: "r_kind res \<noteq> CQL_RESULT_KIND_SET_KEYSPACE"
    and prep: "r_kind res = CQL_RESULT_KIND_PREPARED \<longrightarrow> \<not> c_prepare_callback c"
    and s: "0 \<le> sint (m_stream msg)"
    and c0: "c0 = conn_log CQL_LOG_DEBUG (Literal ''on_result'') c"
  shows "if sint (m_stream msg) = 127 then on_result env msg c = Inl OutOfBounds
    else case held_stream (c_stream_storage c) (sint (m_stream msg)) of
        None \<Rightarrow> \<exists>e. on_result env msg c =
          (if r_kind res \<noteq> CQL_RESULT_KIND_PREPARED \<and> c_connect_callback c
           then cb_connect env (Some e) c0 else Inr c0)
      | Some None \<Rightarrow> on_result env msg c = Inl NullDeref
      | Some (Some k) \<Rightarrow> request_answered env msg k c (on_result env msg c)"
proof -
  have st: "streams_ok CQL_STREAM_ID_MAX (c_stream_storage c)" using ok by (simp add: conn_ok_def)
  have on: "on_result env msg c =
      bind_result (get_stream (sint (m_stream msg)) True (c_stream_storage c0)) (\<lambda>(err, ss, request).
        case err of None \<Rightarrow> finish_request env msg request (c0\<lparr>c_stream_storage := ss\<rparr>)
        | Some e \<Rightarrow> if r_kind res \<noteq> CQL_RESULT_KIND_PREPARED \<and> c_connect_callback c
            then cb_connect env (Some e) (c0\<lparr>c_stream_storage := ss\<rparr>)
            else Inr (c0\<lparr>c_stream_storage := ss\<rparr>))"
  proof (cases "r_kind res = CQL_RESULT_KIND_PREPARED")
    case True
    then show ?thesis
      using body kind prep by (auto simp: on_result_def on_prepared_def c0 Let_def
          intro!: bind_result_cong split: option.split)
  next
    case False
    then show ?thesis
      using body kind by (auto simp: on_result_def c0 Let_def intro!: bind_result_cong split: option.split)
  qed
  have "sint (m_stream msg) \<le> 127" using sint_lt [of "m_stream msg"] by simp
  then consider (last) "sint (m_stream msg) = 127" | (inside) "sint (m_stream msg) < 127" by linarith
  then show ?thesis
  proof cases
    case last
    then have "get_stream (sint (m_stream msg)) True (c_stream_storage c) = Inl OutOfBounds"
      using st by (simp add: get_stream_def array_get_def streams_ok_def CQL_STREAM_ID_MAX_def)
    then show ?thesis using last by (simp add: on c0)
  next
    case inside
    show ?thesis
    proof (cases "held_stream (c_stream_storage c) (sint (m_stream msg))")
      case None
      then have "\<not> allocated_streams_arr (c_stream_storage c) ! nat (sint (m_stream msg))"
        using not_held_not_allocated [OF st s _ None] inside by (simp add: CQL_STREAM_ID_MAX_def)
      then obtain e out where "get_stream (sint (m_stream msg)) True (c_stream_storage c) =
          Inr (Some e, c_stream_storage c, out)"
        using st s inside by (simp add: get_stream_def array_get_def streams_ok_def CQL_STREAM_ID_MAX_def)
      moreover have same: "c_stream_storage c0 = c_stream_storage c" by (simp add: c0)
      moreover have eq: "c0\<lparr>c_stream_storage := c_stream_storage c\<rparr> = c0"
        using storage_same [of c0] by (simp only: same)
      ultimately show ?thesis using None inside by (auto simp: on eq)
    next
      case (Some p)
      obtain ss where get: "get_stream (sint (m_stream msg)) True (c_stream_storage c) = Inr (None,
        ss, Some p)"
        and ss: "streams_ok CQL_STREAM_ID_MAX ss" "free_streams ss = sint (m_stream msg) # free_streams
          (c_stream_storage c)"
          "held_stream ss = (held_stream (c_stream_storage c))(sint (m_stream msg) := None)"
        using get_stream_releases [OF st Some] by blast
      let ?c = "c0\<lparr>c_stream_storage := ss\<rparr>"
      have res: "on_result env msg c = finish_request env msg (Some p) ?c"
        using get by (simp add: on c0)
      show ?thesis
      proof (cases p)
        case None
        then show ?thesis
          using Some inside by (simp add: res finish_request_def deref_request_def)
      next
        case k: (Some k)
        have "k < length (c_requests ?c)" using ok Some k by (simp add: conn_ok_def c0)
        from finish_request_answers [OF this, of msg env] obtain c1 where
          c1: "c_requests c1 = (c_requests c)[k := (c_requests c ! k)\<lparr>rq_result := Some msg,
            rq_flag := True\<rparr>]"
            "c_stream_storage c1 = ss" "c_state c1 = c_state c"
            "finish_request env msg (Some (Some k)) ?c =
              (if rq_callback (c_requests c ! k) \<and> rq_use_local_loop (c_requests c ! k)
               then cb_request env k c1 else Inr c1)"
          by (auto simp: c0)
        have "available_streams CQL_STREAM_ID_MAX ss = Suc (available_streams CQL_STREAM_ID_MAX
            (c_stream_storage c))"
          using length_free [OF st] length_free [OF ss(1)] ss(2) by simp
        then have "request_answered env msg k c (on_result env msg c)"
          unfolding request_answered_def res k
          using c1 ss(3) by (intro exI [of _ c1]) (simp add: conn_available_streams_def)
        then show ?thesis using Some k inside by simp
      qed
    qed
  qed
qed

text \<open>
  C10: What a RESULT frame does, for every stream id and every kind of result, in any connection
  that keeps the invariant and is between two messages. A negative stream id ends in the
  assertion of \<open>consume\<close>. A set-keyspace result is handed to the keyspace callback, if one is set;
  its stream stays in use and no request is touched. Any other result on stream 127 reads behind
  the stream storage; on a stream that is not in use it is reported to the connect callback as
  an error (a prepared result is dropped instead), and nothing else changes; on a stream that
  stands for the null request it makes the connection dereference the null pointer. On a
  stream that stands for request \<open>k\<close> it is stored in that request, which becomes ready, all
  other requests are left alone, the stream is available again, and the callback of the request, if it
  uses the local loop, is called. A prepare callback, which no code of the repository sets, is
  taken to be unset for prepared results.
\<close>

theorem result_frame_outcome:
  fixes c :: "'ssl connection"
  assumes "conn_ok c" and "header_partial (c_incomming c) []"
    and "points_to P (wire_frame s CQL_OPCODE_RESULT bs)" and "length bs < 2147483640"
    and "parses_to env CQL_OPCODE_RESULT bs (BodyResult res)"
    and "r_kind res = CQL_RESULT_KIND_PREPARED \<longrightarrow> \<not> c_prepare_callback c"
    and "\<And>n. n \<le> env_alloc env n"
    and "r = consume env P (length (wire_frame s CQL_OPCODE_RESULT bs)) c"
  shows "\<exists>msg c0. m_stream msg = s \<and> m_body msg = Some (BodyResult res) \<and>
     c_requests c0 = c_requests c \<and> c_stream_storage c0 = c_stream_storage c \<and> c_state c0 = c_state c \<and>
     (if sint s < 0 then r = Inl AssertionFailed
      else if r_kind res = CQL_RESULT_KIND_SET_KEYSPACE
      then r = (if c_keyspace_callback c
                then cb_keyspace env (r_keyspace res) (r_keyspace_size res) c0 else Inr c0)
      else if sint s = 127 then r = Inl OutOfBounds
      else case held_stream (c_stream_storage c) (sint s) of
          None \<Rightarrow> \<exists>e. r = (if r_kind res \<noteq> CQL_RESULT_KIND_PREPARED \<and> c_connect_callback c
                         then cb_connect env (Some e) c0 else Inr c0)
        | Some None \<Rightarrow> r = Inl NullDeref
        | Some (Some k) \<Rightarrow>
            \<exists>c1. c_requests c1 =
                (c_requests c)[k := (c_requests c ! k)\<lparr>rq_result := Some msg, rq_flag := True\<rparr>] \<and>
              held_stream (c_stream_storage c1) = (held_stream (c_stream_storage c))(sint s := None) \<and>
              conn_available_streams c1 = Suc (conn_available_streams c) \<and> c_state c1 = c_state c \<and>
              r = (if rq_callback (c_requests c ! k) \<and> rq_use_local_loop (c_requests c ! k)
                   then cb_request env k c1 else Inr c1))"
proof (cases "sint s < 0")
  case True
  obtain msg where "m_opcode msg = CQL_OPCODE_RESULT" "m_stream msg = s" "m_body msg =
      Some (BodyResult res)"
    "r = on_message env msg (length (wire_frame s CQL_OPCODE_RESULT bs))
      (of_nat (length (wire_frame s CQL_OPCODE_RESULT bs))) (c\<lparr>c_incomming := message_new\<rparr>)"
    using consume_frame [OF assms(2,3,5,4,7) refl] assms(8) by blast
  with True show ?thesis
    by (intro exI [of _ msg] exI [of _ c]) (simp add: on_message_def opcode_to_string_known)
next
  case False
  then obtain msg t where msg: "m_stream msg = s" "m_body msg = Some (BodyResult res)"
    and con: "r = on_result env msg (conn_log CQL_LOG_DEBUG t (c\<lparr>c_incomming := message_new\<rparr>))"
    using consume_result [OF assms(2,3,5,4,7)] assms(8) by auto
  let ?c = "conn_log CQL_LOG_DEBUG t (c\<lparr>c_incomming := message_new\<rparr>)"
  let ?d = "conn_log CQL_LOG_DEBUG (Literal ''on_result'') ?c"
  show ?thesis
  proof (cases "r_kind res = CQL_RESULT_KIND_SET_KEYSPACE")
    case True
    with msg con False show ?thesis
      by (intro exI [of _ msg] exI [of _ ?d]) (simp add: on_result_def)
  next
    case kind: False
    obtain d where d: "d = ?c" by simp
    have fields: "c_stream_storage d = c_stream_storage c" "c_requests d = c_requests c"
      "c_state d = c_state c" "c_connect_callback d = c_connect_callback c"
      "conn_available_streams d = conn_available_streams c"
      "c_prepare_callback d = c_prepare_callback c" "conn_ok d"
      using assms(1) by (simp_all add: d)
    have s: "0 \<le> sint (m_stream msg)" using False msg(1) by simp
    have prep: "r_kind res = CQL_RESULT_KIND_PREPARED \<longrightarrow> \<not> c_prepare_callback d"
      using assms(6) by (simp add: fields(6))
    have r: "r = on_result env msg d" using con d by simp
    note on = on_result_stream [OF fields(7) msg(2) kind prep s refl, of env,
      unfolded request_answered_def msg(1) fields]
    have "c_requests (conn_log CQL_LOG_DEBUG (Literal ''on_result'') d) = c_requests c"
      "c_stream_storage (conn_log CQL_LOG_DEBUG (Literal ''on_result'') d) = c_stream_storage c"
      "c_state (conn_log CQL_LOG_DEBUG (Literal ''on_result'') d) = c_state c"
      by (simp_all add: fields)
    with on show ?thesis
      unfolding if_not_P [OF False] if_not_P [OF kind] r
      by (intro exI [of _ msg] exI [of _ "conn_log CQL_LOG_DEBUG (Literal ''on_result'') d"] conjI msg)
  qed
qed

definition sample_request :: request where
  "sample_request = \<lparr>rq_flag = False, rq_error = None, rq_data = [], rq_result = None,
     rq_callback = False, rq_use_local_loop = False\<rparr>"

text \<open>A connection on which stream 1 stands for \<open>p\<close>.\<close>

definition sample_streams :: "nat option \<Rightarrow> nat option stream_storage" where
  "sample_streams p =
     \<lparr>available_streams_index = 1, available_streams_arr = map int [1..<128],
      allocated_streams_arr = (replicate 127 False)[1 := True],
      storage_arr = (replicate 127 None)[1 := Some p]\<rparr>"

definition sample_conn :: "nat option \<Rightarrow> unit connection" where
  "sample_conn p = (connection_new roomy None)\<lparr>c_requests := [sample_request],
     c_stream_storage := sample_streams p\<rparr>"

lemma sample_streams_facts:
  "streams_ok 127 (sample_streams p)" "held_stream (sample_streams p) = Map.empty(1 \<mapsto> p)"
proof -
  have "set_stream 127 p (stream_storage_new 127) = Inr (None, sample_streams p, Some 1)"
    by (simp add: set_stream_def stream_storage_new_def sample_streams_def array_get_def array_set_def
        Let_def nth_upt del: upt_rec_numeral)
  moreover have "free_streams (stream_storage_new 127 :: nat option stream_storage) =
      1 # 2 # map int [3..<128]"
    using new_free by (simp add: CQL_STREAM_ID_MAX_def)
  ultimately show "streams_ok 127 (sample_streams p)" "held_stream (sample_streams p) = Map.empty(1 \<mapsto> p)"
    using set_stream_takes [OF streams_ok_new [of 127], of 1 2 "map int [3..<128]" p] by auto
qed

lemma sample_conn_facts:
  "conn_ok (sample_conn (Some 0))" "conn_ok (sample_conn None)"
  "c_stream_storage (sample_conn p) = sample_streams p" "c_requests (sample_conn p) = [sample_request]"
  "c_incomming (sample_conn p) = message_new" "c_state (sample_conn p) = CLIENT_STATE_NEW"
  "c_keyspace_callback (sample_conn p) = False"
  using sample_streams_facts
  by (auto simp: sample_conn_def conn_ok_def CQL_STREAM_ID_MAX_def connection_new_def)

theorem result_frame_outcome_witness:
  "\<exists>c' msg. consume roomy (Ptr (map Some (wire_frame 1 CQL_OPCODE_RESULT (be32 CQL_RESULT_KIND_VOID))) 0)
       (length (wire_frame 1 CQL_OPCODE_RESULT (be32 CQL_RESULT_KIND_VOID))) (sample_conn (Some 0))
         = Inr c' \<and>
     m_body msg = Some (BodyResult (body_result_new\<lparr>r_kind := CQL_RESULT_KIND_VOID\<rparr>)) \<and>
     c_requests c' = [sample_request\<lparr>rq_result := Some msg, rq_flag := True\<rparr>] \<and>
     held_stream (c_stream_storage c') = Map.empty"
proof -
  let ?f = "wire_frame 1 CQL_OPCODE_RESULT (be32 CQL_RESULT_KIND_VOID)"
  have P: "points_to (Ptr (map Some ?f) 0) ?f" and len: "length (be32 CQL_RESULT_KIND_VOID) < 2147483640"
    and inc: "header_partial (c_incomming (sample_conn (Some 0))) []"
    by (simp_all add: sample_conn_facts header_partial_new)
  from result_frame_outcome [OF sample_conn_facts(1) inc P len parses_void [of roomy] _ _ refl]
  show ?thesis
    by (auto simp: sample_conn_facts sample_streams_facts result_kind_defs sample_request_def)
qed

text \<open>
  C11: What \<open>send_message\<close> does, for every message, every request pointer (null or not) and
  every connection that keeps the invariant. With one stream left the stream storage is written
  out of bounds. Otherwise the first free stream, which was not in use, is taken for the
  request, whatever follows; a message without a body leaves its buffer indeterminate, one whose
  body cannot be read makes \<open>prepare\<close> fail, an opcode without a name ends in an assertion, and in
  all other cases the one effect besides the log is a write of exactly the frame that \<open>prepare\<close>
  makes for this stream, provided its bytes fit the buffer that was asked for.
\<close>

theorem send_message_outcome:
  fixes c :: "'ssl connection"
  assumes "conn_ok c" and "\<And>n. n \<le> env_alloc env n" and "out = send_message env m r c"
  shows "if conn_available_streams c \<le> 1 then out = Inl OutOfBounds
    else \<exists>i ss. held_stream (c_stream_storage c) i = None \<and>
      held_stream ss = (held_stream (c_stream_storage c))(i \<mapsto> r) \<and>
      Suc (length (free_streams ss)) = conn_available_streams c \<and>
      (case m_body m of
         None \<Rightarrow> out = Inl (if opcode_name (m_opcode m) = None then AssertionFailed else Indeterminate)
       | Some b \<Rightarrow>
           if \<not> body_readable b then \<exists>e. out = Inl e
           else let f = frame_of (m\<lparr>m_stream := of_int i\<rparr>) b in
             out = (if \<not> length (sf_bytes f) \<le> env_alloc env (sf_room f) then Inl OutOfBounds
                    else case opcode_name (m_opcode m) of
                        None \<Rightarrow> Inl AssertionFailed
                      | Some name \<Rightarrow>
                          Inr (None, send_data (framed (env_alloc env) (sf_room f) 0 (sf_bytes f))
                            (sf_size f)
                            (conn_log CQL_LOG_DEBUG (Sending (str name) i (sf_size f))
                              (c\<lparr>c_stream_storage := ss\<rparr>)))))"
proof -
  have st: "streams_ok CQL_STREAM_ID_MAX (c_stream_storage c)" using assms(1) by (simp add: conn_ok_def)
  show ?thesis
    using st
  proof (cases rule: free_streams_cases)
    case (last i)
    then have "conn_available_streams c \<le> 1" using available_free [OF assms(1)] by simp
    then show ?thesis
      using set_stream_last [OF st last, of r] by (simp add: assms(3) send_message_def)
  next
    case (more i j "is")
    then have two: "\<not> conn_available_streams c \<le> 1" using available_free [OF assms(1)] by simp
    obtain ss where ss: "set_stream CQL_STREAM_ID_MAX r (c_stream_storage c) = Inr (None, ss, Some i)"
      "free_streams ss = j # is" "held_stream ss = (held_stream (c_stream_storage c))(i \<mapsto> r)"
      "streams_ok CQL_STREAM_ID_MAX ss"
      using set_stream_takes [OF st more, of r] by blast
    have "held_stream ss i = Some r" using ss(3) by simp
    from held_range(1,2) [OF ss(4) this] have i: "sint (of_int i :: int8) = i"
      by (simp add: CQL_STREAM_ID_MAX_def signed_of_int signed_take_bit_int_eq_self)
    have free: "held_stream (c_stream_storage c) i = None"
      "Suc (length (free_streams ss)) = conn_available_streams c"
      using streams.free_not_held [OF st, of i] more ss(2) available_free [OF assms(1)] by simp_all
    let ?m = "m\<lparr>m_stream := of_int i\<rparr>" and ?c = "c\<lparr>c_stream_storage := ss\<rparr>"
    have out: "out = bind_result (message_prepare (env_alloc env) ?m) (\<lambda>(message, base, len, _).
        bind_result (opcode_to_string (m_opcode message)) (\<lambda>opcode.
        case base of None \<Rightarrow> Inl Indeterminate
        | Some b \<Rightarrow> Inr (None, send_data b len
            (conn_log CQL_LOG_DEBUG (Sending opcode (sint (m_stream message)) len) ?c))))"
      by (simp add: assms(3) send_message_def ss(1) Let_def)
    have "case m_body m of
         None \<Rightarrow> out = Inl (if opcode_name (m_opcode m) = None then AssertionFailed else Indeterminate)
       | Some b \<Rightarrow>
           if \<not> body_readable b then \<exists>e. out = Inl e
           else let f = frame_of ?m b in
             out = (if \<not> length (sf_bytes f) \<le> env_alloc env (sf_room f) then Inl OutOfBounds
                    else case opcode_name (m_opcode m) of
                        None \<Rightarrow> Inl AssertionFailed
                      | Some name \<Rightarrow>
                          Inr (None, send_data (framed (env_alloc env) (sf_room f) 0 (sf_bytes f))
                            (sf_size f)
                            (conn_log CQL_LOG_DEBUG (Sending (str name) i (sf_size f)) ?c)))"
    proof (cases "m_body m")
      case None
      then show ?thesis
        by (simp add: out message_prepare_def opcode_to_string_def split: option.split)
    next
      case (Some b)
      then have b: "m_body ?m = Some b" by simp
      show ?thesis
      proof (cases "body_readable b")
        case True
        then show ?thesis
          using message_prepare_frame_of [OF b True assms(2)] Some
          by (auto simp: out Let_def i opcode_to_string_def split: option.split)
      next
        case False
        then show ?thesis using message_prepare_unreadable [OF b False, of "env_alloc env"] Some
          by (auto simp: out)
      qed
    qed
    with two free ss(3) show ?thesis
      unfolding if_not_P [OF two] by (intro exI [of _ i] exI [of _ ss] conjI)
  qed
qed

theorem send_message_outcome_witness:
  "\<exists>i ss. send_message roomy (message_new\<lparr>m_opcode := CQL_OPCODE_OPTIONS, m_body := Some BodyOptions\<rparr>)
       None (connection_new roomy None) =
     Inr (None, send_data (framed (\<lambda>n. max n 16) 0 0 (options_frame i)) 8
       ((connection_new roomy None)\<lparr>c_stream_storage := ss\<rparr>)) \<and>
     held_stream ss = Map.empty(i \<mapsto> None)"
proof -
  let ?c = "connection_new roomy None :: unit connection"
  have "opcode_name CQL_OPCODE_OPTIONS = Some ''CQL_OPCODE_OPTIONS''"
    by (simp add: opcode_name_def opcode_defs)
  moreover have "conn_available_streams ?c = 127" "held_stream (c_stream_storage ?c) = Map.empty"
    "\<not> c_log_callback ?c"
    by (simp_all add: connection_new_def conn_available_streams_def CQL_STREAM_ID_MAX_def)
  moreover have "message_header (message_new\<lparr>m_opcode := CQL_OPCODE_OPTIONS, m_body := Some BodyOptions,
      m_stream := of_int i\<rparr>) 0 = options_frame i" for i
    by (simp add: message_header_def options_frame_def message_new_def)
  moreover have "length (options_frame i) = 8" for i by (simp add: options_frame_def)
  ultimately show ?thesis
    using send_message_outcome [OF conn_ok_new _ refl, of roomy roomy None
        "message_new\<lparr>m_opcode := CQL_OPCODE_OPTIONS, m_body := Some BodyOptions\<rparr>" None]
    by (auto simp: Let_def)
qed

text \<open>
  \<open>set_keyspace\<close> loses a stream. The USE statement takes one of the streams, and the answer
  to it, a set-keyspace result on any stream, does not give a stream back.
\<close>

lemma set_keyspace_leaks:
  assumes "conn_ok c" and "2 \<le> conn_available_streams c" and "header_partial (c_incomming c) []"
    and "\<not> c_keyspace_callback c" and "\<And>n. n \<le> env_alloc env n"
    and "short_string k" and "0 \<le> sint s"
    and "frame = wire_frame s CQL_OPCODE_RESULT (be32 CQL_RESULT_KIND_SET_KEYSPACE @ wire_string k)"
  shows "\<exists>c1 c2. set_keyspace env k c = Inr c1 \<and>
     consume env (Ptr (map Some frame) 0) (length frame) c1 = Inr c2 \<and>
     Suc (conn_available_streams c2) = conn_available_streams c"
proof -
  let ?q = "query_string (str ''USE '' @ k) body_query_new"
  let ?m = "message_new\<lparr>m_opcode := CQL_OPCODE_QUERY, m_body := Some (BodyQuery ?q)\<rparr>"
  have "body_ok (BodyQuery ?q)"
    by (simp add: query_ok_def query_string_def body_query_new_def)
  then obtain c1 where "send_message env ?m None c = Inr (None, c1)"
    and c1: "c_incomming c1 = c_incomming c" "c_keyspace_callback c1 = c_keyspace_callback c"
      "Suc (conn_available_streams c1) = conn_available_streams c"
    using send_message_sends [OF assms(1,2), of ?m "BodyQuery ?q" "str ''CQL_OPCODE_QUERY''" env None] assms(5)
    by (auto simp: opcode_to_string_known simp del: points_to.simps points_to_append)
  then have set: "set_keyspace env k c = Inr c1"
    by (simp add: set_keyspace_def message_make_def allocate_known)
  obtain res where res: "parses_to env CQL_OPCODE_RESULT (be32 CQL_RESULT_KIND_SET_KEYSPACE @
      wire_string k) (BodyResult res)"
    "r_kind res = CQL_RESULT_KIND_SET_KEYSPACE"
    using parses_set_keyspace [OF assms(6)] by blast
  have "header_partial (c_incomming c1) []" using assms(3) c1(1) by simp
  moreover have "points_to (Ptr (map Some frame) 0)
      (wire_frame s CQL_OPCODE_RESULT (be32 CQL_RESULT_KIND_SET_KEYSPACE @ wire_string k))"
    using assms(8) by simp
  moreover have "length (be32 CQL_RESULT_KIND_SET_KEYSPACE @ wire_string k) < 2147483640"
    using assms(6) by (simp add: short_string_def)
  ultimately obtain msg t where "m_body msg = Some (BodyResult res)"
    "consume env (Ptr (map Some frame) 0) (length frame) c1 =
       on_result env msg (conn_log CQL_LOG_DEBUG t (c1\<lparr>c_incomming := message_new\<rparr>))"
    using consume_result [OF _ _ res(1) _ assms(5,7)] assms(8) by metis
  then show ?thesis using set c1 assms(4) res(2) by (simp add: on_result_def)
qed

text \<open>
  An answer on a stream that stands for no request, as the streams of OPTIONS, STARTUP and USE
  do, makes the connection dereference the null request.
\<close>

lemma result_null_request:
  assumes "conn_ok c" and "header_partial (c_incomming c) []"
    and "points_to P (wire_frame s CQL_OPCODE_RESULT bs)" and "length bs < 2147483640"
    and "parses_to env CQL_OPCODE_RESULT bs (BodyResult res)"
    and "r_kind res \<noteq> CQL_RESULT_KIND_SET_KEYSPACE" and "r_kind res \<noteq> CQL_RESULT_KIND_PREPARED"
    and "held_stream (c_stream_storage c) (sint s) = Some None" and "\<And>n. n \<le> env_alloc env n"
  shows "consume env P (length (wire_frame s CQL_OPCODE_RESULT bs)) c = Inl NullDeref"
proof -
  have ok: "streams_ok CQL_STREAM_ID_MAX (c_stream_storage c)" using assms(1) by (simp add: conn_ok_def)
  then have "0 \<le> sint s" using held_range(1) [OF _ assms(8)] by fastforce
  then obtain msg t where msg: "m_stream msg = s" "m_body msg = Some (BodyResult res)"
    and con: "consume env P (length (wire_frame s CQL_OPCODE_RESULT bs)) c =
      on_result env msg (conn_log CQL_LOG_DEBUG t (c\<lparr>c_incomming := message_new\<rparr>))"
    using consume_result [OF assms(2,3,5,4,9)] by blast
  obtain ss where "get_stream (sint s) True (c_stream_storage c) = Inr (None, ss, Some None)"
    using get_stream_releases [OF ok assms(8)] by blast
  with con msg assms(6,7) show ?thesis
    by (simp add: on_result_def finish_request_def deref_request_def)
qed

text \<open>
  C35: An ERROR frame before the connection is ready. The text in the frame has a length and no
  terminator, but is copied as a C string: with an exact allocator the copy reads behind the
  body, whatever text without a zero byte the server sent.
\<close>

theorem error_before_ready:
  assumes "header_partial (c_incomming c) []"
    and "points_to P (wire_frame s CQL_OPCODE_ERROR (wire_error code text))"
    and "short_string text" and "0 \<notin> set text" and "env_alloc env = (\<lambda>n. n)" and "0 \<le> sint s"
    and "c_state c < CLIENT_STATE_READY"
  shows "consume env P (length (wire_frame s CQL_OPCODE_ERROR (wire_error code text))) c = Inl OutOfBounds"
proof -
  let ?w = "wire_error code text"
  obtain msg e t where "m_body msg = Some (BodyError e)"
    and e: "err_message e = Ptr (framed (\<lambda>n. n) (length ?w) 0 ?w) 6"
    and con: "consume env P (length (wire_frame s CQL_OPCODE_ERROR ?w)) c =
      on_error env msg (conn_log CQL_LOG_DEBUG t (c\<lparr>c_incomming := message_new\<rparr>))"
    using consume_error [OF assms(1-3) _ assms(6), of env] assms(5) by auto
  moreover have "drop 6 (framed (\<lambda>n. n) (length ?w) 0 ?w) = map Some text"
    by (simp add: framed_def wire_error_def wire_string_def be32_def be16_def)
  then have "c_string (err_message e) = Inl OutOfBounds"
    using c_string_at_map [OF assms(4), of "[]"] by (simp add: e)
  ultimately show ?thesis using assms(7) by (simp add: on_error_def)
qed

theorem error_before_ready_witness:
  "consume (pool_env (\<lambda>n. n)) (Ptr (map Some (wire_frame 1 CQL_OPCODE_ERROR (wire_error 10 (str ''no'')))) 0)
     (length (wire_frame 1 CQL_OPCODE_ERROR (wire_error 10 (str ''no''))))
     (connection_new (pool_env (\<lambda>n. n)) None) = Inl OutOfBounds"
  by (rule error_before_ready)
    (simp_all add: connection_new_def state_order header_partial_new short_string_def str_def)

text \<open>
  An ERROR frame once the connection is ready is dropped: no request is made ready, no
  callback is called, and the stream the error came on stays in use.
\<close>

lemma error_after_ready:
  assumes "header_partial (c_incomming c) []"
    and "points_to P (wire_frame s CQL_OPCODE_ERROR (wire_error code text))"
    and "short_string text" and "\<And>n. n \<le> env_alloc env n" and "0 \<le> sint s"
    and "c_state c = CLIENT_STATE_READY"
  shows "\<exists>c'. consume env P (length (wire_frame s CQL_OPCODE_ERROR (wire_error code text))) c = Inr c' \<and>
     c_requests c' = c_requests c \<and> c_stream_storage c' = c_stream_storage c \<and>
     c_state c' = CLIENT_STATE_READY"
  using consume_error [OF assms(1-3) assms(4,5)] assms(6) by (auto simp: on_error_def)

text \<open>
  \<open>exec\<close> and \<open>prepare\<close> never get to send anything: the constructor of \<open>CallerRequest\<close>
  initialises a \<open>std::string\<close> from a null pointer. Closing a connection always ends in the
  assertion of \<open>event_received\<close>, which does not know the disconnected state.
\<close>

lemma exec_prepare_close_fault:
  "exec env m cb c = Inl NullDeref \<and> conn_prepare env p n cb c = Inl NullDeref \<and>
   on_close fuel env c = Inl AssertionFailed"
  by (simp add: exec_def conn_prepare_def request_new_def on_close_def event_received_def
      event_switch_def)

text \<open>
  The end of the SSL handshake goes unnoticed: when the session takes all the bytes that were
  read, the loop of \<open>on_read\<close> is left before the test of \<open>handshake_done\<close>, and the connection
  stays in its state even if the handshake is finished.
\<close>

lemma ssl_handshake_unnoticed:
  assumes "c_ssl c = Some session"
    and "ssl_read_write env P n session = Inr (session', n, None, out)"
    and "ssl_handshake_finished env session'"
  shows "\<exists>c'. on_read (Suc fuel) env eof (int n) P c = Inr c' \<and> c_state c' = c_state c \<and>
     c_ssl c' = Some session'"
  using assms by (auto simp: on_read_def Let_def split: option.split)

end
