(* ===== verification/Answers.thy ===== *)
theory Answers
  imports Connection_Props
begin

text \<open>
  Which requests of a client get an answer (\<^verbatim>\<open>include/cql_client_connection.hpp\<close> with
  \<^verbatim>\<open>include/cql_request.hpp\<close>). The states here are those that the public methods of a connection
  and the events of libuv can really reach: \<open>exec\<close> and \<open>prepare\<close> run the constructor of
  \<open>CallerRequest\<close>, which faults, so no request ever exists, and a client that calls
  \<open>send_message\<close> itself can only pass the null request.
\<close>

text \<open>
  The contract of callbacks that do not make up requests: called on a connection without requests,
  they return with none. Whatever methods of the connection a callback calls, it keeps this.
\<close>

locale quiet_callbacks = client_callbacks +
  assumes connect_quiet: "cb_connect env e c = Inr c' \<Longrightarrow> c_requests c = [] \<Longrightarrow> c_requests c' = []"
    and keyspace_quiet: "cb_keyspace env p n c = Inr c' \<Longrightarrow> c_requests c = [] \<Longrightarrow> c_requests c' = []"

text \<open>A result in which no request exists.\<close>

definition idle :: "'ssl connection result \<Rightarrow> bool" where
  "idle r \<longleftrightarrow> (\<forall>c. r = Inr c \<longrightarrow> c_requests c = [])"

lemma idle_simps [simp]: "idle (Inl e)" "idle (Inr c) \<longleftrightarrow> c_requests c = []"
  by (simp_all add: idle_def)

lemma idle_bind: "(\<And>x. m = Inr x \<Longrightarrow> idle (f x)) \<Longrightarrow> idle (bind_result m f)"
  by (cases m) simp_all

lemma idle_then: "idle m \<Longrightarrow> (\<And>c. c_requests c = [] \<Longrightarrow> idle (f c)) \<Longrightarrow> idle (bind_result m f)"
  by (cases m) simp_all

lemma idleD: "idle r \<Longrightarrow> r = Inr c \<Longrightarrow> c_requests c = []"
  by simp

named_theorems idle_rules \<open>operations that keep a connection without requests\<close>

lemma send_message_requests: "send_message env m r c = Inr (e, c') \<Longrightarrow> c_requests c' = c_requests c"
  by (auto simp: send_message_def Let_def split: option.splits)

lemma idle_sends [idle_rules]:
  assumes "c_requests c = []"
  shows "idle (send_options env c)" and "idle (send_startup env c)" and "idle (set_keyspace env k c)"
  using assms
  by (auto simp: send_options_def send_startup_def set_keyspace_def Let_def intro!: idle_bind
      split: option.split body.split dest!: send_message_requests)

lemma idle_finish_request [idle_rules]: "c_requests c = [] \<Longrightarrow> idle (finish_request env m p c)"
  by (auto simp: finish_request_def array_get_def intro!: idle_bind)

context quiet_callbacks
begin

lemma idle_notify [idle_rules]:
  assumes "c_requests c = []"
  shows "idle (notify_ready env c)" and "idle (notify_error env e c)"
  using assms connect_quiet unfolding idle_def notify_ready_def notify_error_def Let_def
  by (auto split: if_splits)

lemma idle_event_received_late [idle_rules]:
  "c_requests c = [] \<Longrightarrow> idle (event_received_late env c)"
  by (simp add: event_received_late_def event_switch_def Let_def resolve_def connect_def idle_rules
      split: client_connection_state.split)

lemma idle_on_prepared [idle_rules]: "c_requests c = [] \<Longrightarrow> idle (on_prepared env m res c)"
  by (auto simp: on_prepared_def Let_def array_get_def intro!: idle_bind idle_rules split: if_splits)

lemma idle_on_message [idle_rules]:
  assumes "c_requests c = []"
  shows "idle (on_message env m n k c)"
proof -
  have "idle (cb_connect env e d)" "idle (cb_keyspace env p sz d)" if "c_requests d = []" for e p sz d
    using that connect_quiet keyspace_quiet by (auto simp: idle_def)
  then show ?thesis
    using assms
    by (auto simp: on_message_def on_supported_def on_error_def on_ready_def on_result_def Let_def
        intro!: idle_bind idle_rules split: option.split body.split)
qed

lemma idle_consume_loop: "c_requests c = [] \<Longrightarrow> idle (consume_loop fuel env sz P k c)"
proof (induction fuel arbitrary: P k c)
  case (Suc fuel)
  then show ?case
    by (auto simp: Let_def intro!: idle_bind dest!: idleD [OF idle_on_message, rotated] split: if_splits)
qed simp

lemma idle_consume [idle_rules]: "c_requests c = [] \<Longrightarrow> idle (consume env P n c)"
  by (simp add: consume_def idle_consume_loop)

lemma idle_ssl_read_loop [idle_rules]: "c_requests c = [] \<Longrightarrow> idle (ssl_read_loop fuel env P n c)"
proof (induction fuel arbitrary: P n c)
  case (Suc fuel)
  then show ?case
    by (auto simp: Let_def intro!: idle_bind idle_rules
        dest!: idleD [OF idle_consume, rotated] idleD [OF idle_event_received_late, rotated]
        split: option.splits if_splits)
qed simp

lemma idle_on_read [idle_rules]: "c_requests c = [] \<Longrightarrow> idle (on_read fuel env eof n P c)"
  by (auto simp: on_read_def Let_def close_def intro!: idle_rules)

lemma idle_event_received [idle_rules]: "c_requests c = [] \<Longrightarrow> idle (event_received fuel env c)"
  by (auto simp: event_received_def event_switch_def ssl_handshake_def Let_def resolve_def connect_def
      intro!: idle_rules split: client_connection_state.split)

lemma idle_events [idle_rules]:
  assumes "c_requests c = []"
  shows "idle (on_close fuel env c)" and "idle (on_connect fuel env st c)"
    and "idle (on_resolve fuel env st fam a c)" and "idle (init fuel env cc kc c)"
  using assms
  by (auto simp: on_close_def on_connect_def on_resolve_def init_def Let_def intro!: idle_rules
      split: addr_family.split)

end

subsection \<open>What clients can reach\<close>

text \<open>
  The events of libuv and the public methods, in any order; \<open>on_close\<close>, \<open>exec\<close> and \<open>prepare\<close>
  are listed although they never return.
\<close>

inductive client_reachable :: "'ssl conn_env \<Rightarrow> 'ssl connection \<Rightarrow> bool" for env where
  start: "client_reachable env (connection_new env ssl)"
| init: "client_reachable env c \<Longrightarrow> init fuel env cc kc c = Inr c' \<Longrightarrow> client_reachable env c'"
| resolved: "client_reachable env c \<Longrightarrow> on_resolve fuel env st fam a c = Inr c' \<Longrightarrow> client_reachable env c'"
| connected: "client_reachable env c \<Longrightarrow> on_connect fuel env st c = Inr c' \<Longrightarrow> client_reachable env c'"
| read: "client_reachable env c \<Longrightarrow> on_read fuel env eof n P c = Inr c' \<Longrightarrow> client_reachable env c'"
| written: "client_reachable env c \<Longrightarrow> client_reachable env (on_write st c)"
| closed: "client_reachable env c \<Longrightarrow> on_close fuel env c = Inr c' \<Longrightarrow> client_reachable env c'"
| closing: "client_reachable env c \<Longrightarrow> client_reachable env (close c)"
| use_keyspace: "client_reachable env c \<Longrightarrow> set_keyspace env k c = Inr c' \<Longrightarrow> client_reachable env c'"
| send: "client_reachable env c \<Longrightarrow> send_message env m None c = Inr (e, c') \<Longrightarrow> client_reachable env c'"
| exec: "client_reachable env c \<Longrightarrow> exec env m cb c = Inr (i, c') \<Longrightarrow> client_reachable env c'"
| prepare: "client_reachable env c \<Longrightarrow> conn_prepare env P n cb c = Inr (i, c') \<Longrightarrow> client_reachable env c'"

context quiet_callbacks
begin

lemma client_reachable_ok: "client_reachable env c \<Longrightarrow> conn_inv c \<and> c_requests c = []"
proof (induction rule: client_reachable.induct)
  case start
  then show ?case by (simp add: conn_inv_def conn_ok_new) (simp add: connection_new_def)
next
  case (use_keyspace c k c')
  then show ?case
    using well_conn_inv [OF well_set_keyspace] idleD [OF idle_sends(3)] by blast
next
  case (send c m e c')
  then show ?case
    using send_message_keeps [OF send.hyps(2)] by (simp add: keeps_def conn_inv_def)
next
  case (exec c m cb i c')
  then show ?case by (simp add: exec_def request_new_def)
next
  case (prepare c P n cb i c')
  then show ?case by (simp add: conn_prepare_def request_new_def)
next
  case (init c fuel cc kc c')
  then show ?case using init_ok idleD [OF idle_events(4)] by blast
next
  case (resolved c fuel st fam a c')
  then show ?case using on_resolve_ok idleD [OF idle_events(3)] by blast
next
  case (connected c fuel st c')
  then show ?case using on_connect_ok idleD [OF idle_events(2)] by blast
next
  case (read c fuel eof n P c')
  then show ?case using on_read_ok idleD [OF idle_on_read] by blast
next
  case (closed c fuel c')
  then show ?case using on_close_ok idleD [OF idle_events(1)] by blast
qed (simp_all add: on_write_def close_def Let_def)

end

lemma on_result_null:
  assumes "conn_ok c" and "m_body msg = Some (BodyResult res)"
    and "r_kind res \<noteq> CQL_RESULT_KIND_SET_KEYSPACE"
    and "held_stream (c_stream_storage c) (sint (m_stream msg)) = Some None"
  shows "on_result env msg c = Inl NullDeref"
proof -
  have "streams_ok CQL_STREAM_ID_MAX (c_stream_storage c)" using assms(1) by (simp add: conn_ok_def)
  then obtain ss where "get_stream (sint (m_stream msg)) True (c_stream_storage c) = Inr (None, ss,
      Some None)"
    using get_stream_releases [OF _ assms(4)] by blast
  with assms(2,3) show ?thesis
    by (simp add: on_result_def on_prepared_def finish_request_def deref_request_def Let_def)
qed

interpretation pool: quiet_callbacks "pool_env alloc" for alloc
  by standard (simp_all add: pool_env_def pool_connect_callback_def)

subsection \<open>Properties\<close>

text \<open>
  C7: No request is ever answered. In every state that the public methods and the events of a
  connection can reach there is no request, and every stream in use stands for the null
  request, provided the client's callbacks do not make up requests. So a RESULT frame of any
  kind but set-keyspace, on any stream in use, makes the connection dereference the null
  pointer.
\<close>

theorem answers_never_delivered:
  assumes "quiet_callbacks env" and "client_reachable env c" and "\<And>n. n \<le> env_alloc env n"
    and "header_partial (c_incomming c) []"
    and "points_to P (wire_frame s CQL_OPCODE_RESULT bs)" and "length bs < 2147483640"
    and "parses_to env CQL_OPCODE_RESULT bs (BodyResult res)"
    and "r_kind res \<noteq> CQL_RESULT_KIND_SET_KEYSPACE"
    and "held_stream (c_stream_storage c) (sint s) \<noteq> None"
  shows "c_requests c = [] \<and> {p. \<exists>i. held_stream (c_stream_storage c) i = Some p} = {None} \<and>
     consume env P (length (wire_frame s CQL_OPCODE_RESULT bs)) c = Inl NullDeref"
proof -
  note ok = quiet_callbacks.client_reachable_ok [OF assms(1,2)]
  then have conn: "conn_ok c" by simp
  then have null: "p = None" if "held_stream (c_stream_storage c) i = Some p" for i p
    using ok that by (cases p) (auto simp: conn_ok_def)
  with assms(9) have held: "held_stream (c_stream_storage c) (sint s) = Some None" by auto
  have "streams_ok CQL_STREAM_ID_MAX (c_stream_storage c)" using conn by (simp add: conn_ok_def)
  then have "0 \<le> sint s" using held_range(1) [OF _ held] by fastforce
  then obtain msg t where "m_stream msg = s" "m_body msg = Some (BodyResult res)"
    "consume env P (length (wire_frame s CQL_OPCODE_RESULT bs)) c =
      on_result env msg (conn_log CQL_LOG_DEBUG t (c\<lparr>c_incomming := message_new\<rparr>))"
    using consume_result [OF assms(4,5,7,6,3)] by blast
  then show ?thesis
    using on_result_null [of _ msg res env] conn assms(8) held null ok by auto
qed

theorem answers_never_delivered_witness:
  "\<exists>c. bind_result (init 0 roomy True False (connection_new roomy None)) (\<lambda>c.
      bind_result (on_resolve 0 roomy 0 AF_INET [] c) (on_connect 0 roomy 0)) = Inr c \<and>
     c_requests c = [] \<and>
     consume roomy (Ptr (map Some (wire_frame 1 CQL_OPCODE_RESULT (be32 CQL_RESULT_KIND_VOID))) 0) 12 c =
       Inl NullDeref"
proof -
  let ?f = "wire_frame 1 CQL_OPCODE_RESULT (be32 CQL_RESULT_KIND_VOID)"
  have "8 \<le> env_alloc roomy 0" by simp
  from connect_phase [OF this, of 0 True False "[]"] obtain ss tr where
    run: "bind_result (init 0 roomy True False (connection_new roomy None)) (\<lambda>c.
      bind_result (on_resolve 0 roomy 0 AF_INET [] c) (on_connect 0 roomy 0)) =
      Inr (negotiating roomy True False [] CLIENT_STATE_HANDSHAKE ss tr)"
    and held: "held_stream ss = Map.empty(1 \<mapsto> None)" by (elim exE conjE) (rule that)
  let ?c = "negotiating roomy True False [] CLIENT_STATE_HANDSHAKE ss tr"
  obtain c1 c2 where "init 0 roomy True False (connection_new roomy None) = Inr c1"
    "on_resolve 0 roomy 0 AF_INET [] c1 = Inr c2" "on_connect 0 roomy 0 c2 = Inr ?c"
    using run unfolding bind_result_Inr_iff by blast
  then have "client_reachable roomy ?c"
    by (intro client_reachable.connected [OF client_reachable.resolved
      [OF client_reachable.init [OF client_reachable.start]]])
  moreover have "quiet_callbacks roomy" unfolding roomy_def by (rule pool.quiet_callbacks_axioms)
  moreover have "length ?f = 12" by (simp add: wire_frame_def)
  ultimately show ?thesis
    using answers_never_delivered [of roomy ?c "Ptr (map Some ?f) 0" 1 "be32 CQL_RESULT_KIND_VOID"
        "body_result_new\<lparr>r_kind := CQL_RESULT_KIND_VOID\<rparr>"] run held parses_void [of roomy]
    by (auto simp: header_partial_new result_kind_defs)
qed

end
