(* ===== verification/Frame_Stream.thy ===== *)
theory Frame_Stream
  imports Connection_Props
begin

text \<open>
  The reader of \<^verbatim>\<open>include/cql_client_connection.hpp\<close> against a reference that knows where the
  frames are. \<open>ClientConnection::consume\<close> finds the frames in a chunk byte by byte, with the state
  of \<open>Message::consume\<close> between the calls; \<open>handle_frames\<close> is given the frames as a list and
  hands each to the same handler.
\<close>

record frame =
  fr_version :: byte
  fr_flags :: byte
  fr_stream :: int8
  fr_opcode :: byte
  fr_payload :: bytes

definition frame_header :: "frame \<Rightarrow> bytes" where
  "frame_header fr = wire_header (fr_version fr) (fr_flags fr) (fr_stream fr) (fr_opcode fr)
     (of_nat (length (fr_payload fr)))"

definition frame_bytes :: "frame \<Rightarrow> bytes" where
  "frame_bytes fr = frame_header fr @ fr_payload fr"

text \<open>
  The message of a frame of which the message \<open>m\<close> may hold a first part of the header, when \<open>k\<close>
  bytes are left in the chunk.
\<close>

definition frame_message :: "allocator \<Rightarrow> message \<Rightarrow> nat \<Rightarrow> frame \<Rightarrow> message result" where
  "frame_message alloc m k fr =
     (let n = length (fr_payload fr); block = framed alloc n 0 (fr_payload fr) in
      bind_result (allocate_body (fr_opcode fr)) (\<lambda>b.
      bind_result (body_consume (Ptr block 0) n b) (\<lambda>(b', ok).
      Inr (frame_done
        (header_done alloc (m\<lparr>m_received := m_received m + of_nat k\<rparr>) (frame_header fr) n b)
        block n b' ok))))"

fun handle_frames ::
  "'ssl conn_env \<Rightarrow> nat \<Rightarrow> nat \<Rightarrow> frame list \<Rightarrow> 'ssl connection \<Rightarrow> 'ssl connection result" where
  "handle_frames env sz k [] c = Inr c"
| "handle_frames env sz k (fr # frs) c =
     bind_result (frame_message (env_alloc env) (c_incomming c) k fr) (\<lambda>message.
     bind_result (on_message env message sz (of_nat k) (c\<lparr>c_incomming := message_new\<rparr>))
       (handle_frames env sz (k + m_header_buffer_pos (c_incomming c) - length (frame_bytes fr)) frs))"

text \<open>A message that holds the bytes \<open>h\<close> of the next header and nothing else.\<close>

definition awaits :: "message \<Rightarrow> bytes \<Rightarrow> bool" where
  "awaits m h \<longleftrightarrow> header_partial m h \<and> \<not> m_body_ready m"

lemma awaits_new [simp]: "awaits message_new []"
  by (simp add: awaits_def header_partial_new) (simp add: message_new_def)

lemma length_frame_header [simp]: "length (frame_header fr) = 8"
  by (simp add: frame_header_def)

lemma on_message_incomming:
  assumes "client_callbacks env" and "on_message env msg sz k c = Inr c'"
  shows "c_incomming c' = c_incomming c"
  using client_callbacks.well_on_message [OF assms(1), of c msg sz k] assms(2)
  by (simp add: well_def keeps_def)

lemma message_consume_next:
  assumes m: "header_partial m h" and fr: "h @ hh = frame_header fr"
      and P: "points_to P (hh @ fr_payload fr @ rest)"
    and len: "length (hh @ fr_payload fr @ rest) < 2147483640" and alloc: "\<And>n. n \<le> alloc n"
  shows "message_consume alloc m P (length (hh @ fr_payload fr @ rest)) =
     bind_result (frame_message alloc m (length (hh @ fr_payload fr @ rest)) fr) (\<lambda>message.
     Inr (of_nat (length (hh @ fr_payload fr)), message))"
proof (cases "allocate_body (fr_opcode fr)")
  case (Inr b)
  have "length hh \<le> 8" using arg_cong [OF fr, of length] by simp
  with len have "8 + length (fr_payload fr) + length rest < 2147483648" by simp
  from message_consume_frame [OF m fr [unfolded frame_header_def] P Inr this alloc refl] show ?thesis
    by (simp add: frame_message_def Inr Let_def fr bind_result_assoc split_def del: length_append)
next
  case (Inl e)
  let ?k = "length (fr_payload fr @ rest)"
  have hh: "points_to P hh" using P by simp
  have sz: "length (hh @ fr_payload fr @ rest) = length hh + ?k" by simp
  have k: "?k < 2147483640" using len by simp
  have "\<not> sint (of_nat (length (fr_payload fr)) :: int32) < 0"
    using k by (simp add: sint_of_nat_32)
  with consume_header_eq [OF m fr [unfolded frame_header_def] hh sz, of alloc] k
  have "consume_header alloc (m\<lparr>m_received := m_received m + of_nat (length (hh @ fr_payload fr @ rest))\<rparr>) P
      (length (hh @ fr_payload fr @ rest)) = Inl e"
    by (simp add: Inl del: length_append)
  from message_consume_header_fault [OF m fr [unfolded frame_header_def] hh sz k this] show ?thesis
    by (simp add: frame_message_def Inl Let_def)
qed

lemma consume_loop_next:
  assumes m: "awaits (c_incomming c) h" and fr: "h @ hh = frame_header fr"
    and P: "points_to P (hh @ fr_payload fr @ rest)"
    and n: "n = length (hh @ fr_payload fr @ rest)" and len: "n < 2147483640"
    and alloc: "\<And>n. n \<le> env_alloc env n"
  shows "consume_loop (Suc fuel) env sz P (of_nat n) c =
     bind_result (frame_message (env_alloc env) (c_incomming c) n fr) (\<lambda>message.
     bind_result (on_message env message sz (of_nat n) (c\<lparr>c_incomming := message_new\<rparr>))
       (consume_loop fuel env sz (ptr_add P (length (hh @ fr_payload fr))) (of_nat (length rest))))"
proof -
  have part: "header_partial (c_incomming c) h" using m by (simp add: awaits_def)
  then have "hh \<noteq> []" using arg_cong [OF fr, of length] by (auto simp: header_partial_def)
  then have "P \<noteq> Null" "n \<noteq> 0" using P n by auto
  moreover have "n < 2147483648" using len by simp
  moreover have "(of_nat n :: int32) - of_nat (length (hh @ fr_payload fr)) = of_nat (length rest)"
    by (simp add: n)
  moreover have "sint (of_nat (length (hh @ fr_payload fr)) :: int32) = int (length (hh @ fr_payload fr))"
    using len n by (intro sint_of_nat_32) simp
  moreover have "m_body_ready msg"
    if "frame_message (env_alloc env) (c_incomming c) n fr = Inr msg" for msg
    using that by (auto simp: frame_message_def Let_def frame_done_def)
  ultimately show ?thesis
    using message_consume_next [OF part fr P len [unfolded n] alloc, folded n]
    by (cases "frame_message (env_alloc env) (c_incomming c) n fr")
      (simp_all add: unat_remaining of_nat_32_zero ptr_add_int_nat Let_def del: of_nat_add length_append)
qed

lemma consume_loop_tail:
  assumes m: "awaits (c_incomming c) h" and P: "points_to P chunk" and len: "length (h @ chunk) < 8"
    and fuel: "length chunk \<le> fuel"
  shows "\<exists>m. awaits m (h @ chunk) \<and>
     consume_loop fuel env sz P (of_nat (length chunk)) c = Inr (c\<lparr>c_incomming := m\<rparr>)"
proof (cases "chunk = []")
  case True
  then show ?thesis using m by (auto simp: consume_loop_done intro!: exI [of _ "c_incomming c"])
next
  case False
  then obtain f where f: "fuel = Suc f" using fuel by (cases fuel) auto
  have len': "length h + length chunk < 8" using len by simp
  have "header_partial (c_incomming c) h" "\<not> m_body_ready (c_incomming c)"
    using m by (simp_all add: awaits_def)
  with message_consume_header_part [OF _ P len', of "c_incomming c" "env_alloc env"] obtain m' where
    m': "message_consume (env_alloc env) (c_incomming c) P (length chunk) = Inr (of_nat (length chunk), m')"
      "awaits m' (h @ chunk)" "\<not> m_body_ready m'"
    by (auto simp: awaits_def)
  have "P \<noteq> Null" "length chunk < 2147483648" using P False len by auto
  then show ?thesis
    using m' False len by (intro exI [of _ m'])
      (simp add: f unat_remaining of_nat_32_zero ptr_add_int_nat sint_of_nat_32 consume_loop_done Let_def)
qed

lemma awaits_ex: "length tail < 8 \<Longrightarrow> \<exists>m. awaits m tail"
  using message_consume_header_part [OF header_partial_new, of "Ptr (map Some tail) 0" tail "\<lambda>n. n"]
    awaits_new
  by (auto simp: awaits_def)

lemma split_header:
  assumes "frame_header fr @ xs = h @ chunk" and "length h < 8"
  obtains hh where "h @ hh = frame_header fr" and "chunk = hh @ xs"
proof -
  have "h = take (length h) (frame_header fr)"
    using arg_cong [OF assms(1), of "take (length h)"] assms(2) by simp
  then have "h @ drop (length h) (frame_header fr) = frame_header fr"
    by (metis append_take_drop_id)
  moreover from this have "chunk = drop (length h) (frame_header fr) @ xs"
    using assms(1) by (metis append_assoc same_append_eq)
  ultimately show ?thesis by (rule that)
qed

lemma consume_loop_frames:
  assumes "client_callbacks env" and "\<And>n. n \<le> env_alloc env n"
    and "awaits (c_incomming c) h" and "concat (map frame_bytes frs) @ tail = h @ chunk"
    and "length tail < 8" and "points_to P chunk" and "length chunk < 2147483640" and "length chunk \<le> fuel"
  shows "\<exists>m. awaits m tail \<and> consume_loop fuel env sz P (of_nat (length chunk)) c =
     bind_result (handle_frames env sz (length chunk) frs c) (\<lambda>c. Inr (c\<lparr>c_incomming := m\<rparr>))"
  using assms(3-8)
proof (induction frs arbitrary: c h chunk P fuel)
  case Nil
  then show ?case using consume_loop_tail [OF Nil(1,4) _ Nil(6)] by simp
next
  case (Cons fr frs)
  let ?rest = "concat (map frame_bytes frs) @ tail"
  have h: "length h < 8" "m_header_buffer_pos (c_incomming c) = length h"
    using Cons.prems(1) by (simp_all add: awaits_def header_partial_def)
  have "frame_header fr @ fr_payload fr @ ?rest = h @ chunk"
    using Cons.prems(2) by (simp add: frame_bytes_def [of fr])
  from split_header [OF this h(1)] obtain hh where
    hh: "h @ hh = frame_header fr" "chunk = hh @ fr_payload fr @ ?rest" .
  have lhh: "length h + length hh = 8" using arg_cong [OF hh(1), of length] by simp
  with h have "chunk \<noteq> []" using hh(2) by auto
  with Cons.prems(6) obtain f where f: "fuel = Suc f" by (cases fuel) auto
  have k: "length chunk + length h - length (frame_bytes fr) = length ?rest"
    using lhh by (simp add: hh(2) frame_bytes_def)
  have P: "points_to P (hh @ fr_payload fr @ ?rest)" using Cons.prems(4) unfolding hh(2) .
  note step = consume_loop_next [OF Cons.prems(1) hh(1) P arg_cong [OF hh(2),
      of length] Cons.prems(5) assms(2)]
  let ?first = "bind_result (frame_message (env_alloc env) (c_incomming c) (length chunk) fr) (\<lambda>message.
     on_message env message sz (of_nat (length chunk)) (c\<lparr>c_incomming := message_new\<rparr>))"
  have loop: "consume_loop fuel env sz P (of_nat (length chunk)) c = bind_result ?first
      (consume_loop f env sz (ptr_add P (length (hh @ fr_payload fr))) (of_nat (length ?rest)))"
    unfolding f step by (simp only: bind_result_assoc)
  have frames: "handle_frames env sz (length chunk) (fr # frs) c =
      bind_result ?first (handle_frames env sz (length ?rest) frs)"
    by (simp only: handle_frames.simps h(2) k bind_result_assoc)
  show ?case
  proof (cases ?first)
    case (Inl e)
    then show ?thesis unfolding loop frames using awaits_ex [OF Cons.prems(3)] by simp
  next
    case (Inr c1)
    then have "c_incomming c1 = message_new"
      using on_message_incomming [OF assms(1)] by (auto simp del: handle_frames.simps)
    moreover have "points_to (ptr_add P (length (hh @ fr_payload fr))) ?rest"
      using P by (simp add: ptr_add_add)
    moreover have "length ?rest < 2147483640" "length ?rest \<le> f"
      using Cons.prems(5,6) \<open>chunk \<noteq> []\<close> lhh h(1) by (simp_all add: hh(2) f)
    ultimately show ?thesis
      unfolding loop frames Inr bind_result_simps by (intro Cons.IH [where h = "[]"] Cons.prems(3)) simp_all
  qed
qed

subsection \<open>Properties\<close>

text \<open>
  C2: A chunk of bytes is handled like the frames in it. Whatever the frames are (known or unknown
  opcodes, bodies that parse, that are rejected or that fault), if the chunk completes a header
  of which a part has arrived before, holds any number of whole frames and ends inside the
  header of the next one, then \<open>consume\<close> does what the reference does that hands the frames
  one by one to the handler: it has the same result or the same fault, and the connection keeps
  exactly the bytes of the unfinished header.
\<close>

theorem consume_frames:
  assumes "client_callbacks env" and "\<And>n. n \<le> env_alloc env n"
    and "awaits (c_incomming c) h" and "concat (map frame_bytes frs) @ tail = h @ chunk"
    and "length tail < 8" and "points_to P chunk" and "length chunk < 2147483640"
  shows "\<exists>m. awaits m tail \<and> consume env P (length chunk) c =
     bind_result (handle_frames env (length chunk) (length chunk) frs c) (\<lambda>c. Inr (c\<lparr>c_incomming := m\<rparr>))"
  unfolding consume_def by (rule consume_loop_frames [OF assms order_refl])

definition sample_frame :: "int8 \<Rightarrow> frame" where
  "sample_frame s = \<lparr>fr_version = 0x82, fr_flags = 0, fr_stream = s, fr_opcode = CQL_OPCODE_RESULT,
     fr_payload = be32 CQL_RESULT_KIND_VOID\<rparr>"

definition sample_chunk :: bytes where
  "sample_chunk = frame_bytes (sample_frame 1) @ frame_bytes (sample_frame 2) @ [0x82, 0, 3]"

theorem consume_frames_witness:
  "\<exists>m. awaits m [0x82, 0, 3] \<and>
     consume roomy (Ptr (map Some sample_chunk) 0) (length sample_chunk) (sample_conn (Some 0)) =
     bind_result (handle_frames roomy (length sample_chunk) (length sample_chunk)
       [sample_frame 1, sample_frame 2] (sample_conn (Some 0))) (\<lambda>c. Inr (c\<lparr>c_incomming := m\<rparr>))"
proof (rule consume_frames)
  show "client_callbacks roomy" unfolding roomy_def by (rule pool.client_callbacks_axioms)
  show "awaits (c_incomming (sample_conn (Some 0))) []" by (simp add: sample_conn_facts)
  show "concat (map frame_bytes [sample_frame 1, sample_frame 2]) @ [0x82, 0, 3] = [] @ sample_chunk"
    by (simp add: sample_chunk_def)
qed (simp_all add: sample_chunk_def frame_bytes_def sample_frame_def)

end
