(* ===== verification/Segmentation.thy ===== *)
theory Segmentation
  imports Frame_Stream
begin

text \<open>
  The reader of \<^verbatim>\<open>include/cql_client_connection.hpp\<close> does not depend on how the network cuts the
  bytes into chunks, as long as no cut falls inside a body. Only \<open>m_received\<close> of a message, the
  state of its buffers and what is logged depend on it.
\<close>

text \<open>What a message says, and what a frame says.\<close>

definition content :: "message \<Rightarrow> byte \<times> int8 \<times> int8 \<times> byte \<times> int32 \<times> body option \<times> bool" where
  "content m = (m_version m, m_flags m, m_stream m, m_opcode m, m_length m, m_body m, m_body_ready m)"

definition frame_content ::
  "allocator \<Rightarrow> frame \<Rightarrow> (byte \<times> int8 \<times> int8 \<times> byte \<times> int32 \<times> body option \<times> bool) result" where
  "frame_content alloc fr =
     (let n = length (fr_payload fr) in
      bind_result (allocate_body (fr_opcode fr)) (\<lambda>b.
      bind_result (body_consume (Ptr (framed alloc n 0 (fr_payload fr)) 0) n b) (\<lambda>(b', ok).
      Inr (fr_version fr, fr_flags fr, fr_stream fr, fr_opcode fr, of_nat n, Some b', True))))"

lemma frame_message_content:
  assumes "frame_content alloc fr = Inr x"
  shows "\<exists>msg. frame_message alloc m k fr = Inr msg \<and> content msg = x"
  using assms
  by (auto simp: frame_content_def frame_message_def content_def Let_def frame_done_def header_done_def
      frame_header_def wire_header_def)

subsection \<open>Reading chunk by chunk\<close>

fun consume_chunks :: "'ssl conn_env \<Rightarrow> bytes list \<Rightarrow> 'ssl connection \<Rightarrow> 'ssl connection result" where
  "consume_chunks env [] c = Inr c"
| "consume_chunks env (bs # chunks) c =
     bind_result (consume env (Ptr (map Some bs) 0) (length bs) c) (consume_chunks env chunks)"

text \<open>
  The chunks with the frames that end in them: a chunk completes the header of which \<open>h\<close> has
  arrived, holds whole frames, and ends inside a header.
\<close>

fun cut_in_headers :: "bytes \<Rightarrow> (bytes \<times> frame list) list \<Rightarrow> bytes \<Rightarrow> bool" where
  "cut_in_headers h [] tail \<longleftrightarrow> tail = h"
| "cut_in_headers h ((chunk, frs) # cs) tail \<longleftrightarrow>
     (\<exists>t. h @ chunk = concat (map frame_bytes frs) @ t \<and> length t < 8 \<and> cut_in_headers t cs tail)"

text \<open>The messages, each with the arguments that \<open>consume\<close> only logs.\<close>

fun handle_messages ::
  "'ssl conn_env \<Rightarrow> (message \<times> nat \<times> int32) list \<Rightarrow> 'ssl connection \<Rightarrow> 'ssl connection result" where
  "handle_messages env [] c = Inr c"
| "handle_messages env ((msg, sz, k) # ms) c =
     bind_result (on_message env msg sz k (c\<lparr>c_incomming := message_new\<rparr>)) (handle_messages env ms)"

definition stands_for :: "allocator \<Rightarrow> frame \<Rightarrow> message \<times> nat \<times> int32 \<Rightarrow> bool" where
  "stands_for alloc fr x \<longleftrightarrow> frame_content alloc fr = Inr (content (fst x))"

lemma stands_forI: "frame_content alloc fr = Inr (content msg) \<Longrightarrow> stands_for alloc fr (msg, sz, k)"
  by (simp add: stands_for_def)

lemma handle_messages_append:
  "handle_messages env (ms @ ms') = (\<lambda>c. bind_result (handle_messages env ms c) (handle_messages env ms'))"
proof (induction ms)
  case (Cons x ms)
  then show ?case by (intro ext, cases x) (simp add: bind_result_assoc)
qed (simp add: fun_eq_iff)

lemma handle_messages_incomming:
  "bind_result (handle_messages env ms (c\<lparr>c_incomming := x\<rparr>)) (\<lambda>c. Inr (c\<lparr>c_incomming := m\<rparr>)) =
   bind_result (handle_messages env ms c) (\<lambda>c. Inr (c\<lparr>c_incomming := m\<rparr>))"
  by (cases ms) auto

lemma handle_frames_messages:
  assumes "\<forall>fr \<in> set frs. \<exists>x. frame_content (env_alloc env) fr = Inr x"
  shows "\<exists>ms. list_all2 (stands_for (env_alloc env)) frs ms \<and> handle_frames env sz k frs c =
      handle_messages env ms c"
  using assms
proof (induction frs arbitrary: k c)
  case Nil
  then show ?case by (intro exI [of _ "[]"]) simp
next
  case (Cons fr frs)
  obtain msg where msg: "frame_message (env_alloc env) (c_incomming c) k fr = Inr msg"
    "frame_content (env_alloc env) fr = Inr (content msg)"
    using frame_message_content Cons.prems by (metis list.set_intros(1))
  let ?k = "k + m_header_buffer_pos (c_incomming c) - length (frame_bytes fr)"
  show ?case
  proof (cases "on_message env msg sz (of_nat k) (c\<lparr>c_incomming := message_new\<rparr>)")
    case (Inl e)
    have "\<exists>ms. list_all2 (stands_for (env_alloc env)) frs ms" using Cons by fastforce
    then obtain ms where "list_all2 (stands_for (env_alloc env)) frs ms" ..
    with msg Inl show ?thesis
      by (intro exI [of _ "(msg, sz, of_nat k) # ms"]) (simp add: stands_forI)
  next
    case (Inr c1)
    obtain ms where "list_all2 (stands_for (env_alloc env)) frs ms"
      "handle_frames env sz ?k frs c1 = handle_messages env ms c1"
      using Cons.IH [of ?k c1] Cons.prems by auto
    with msg Inr show ?thesis
      by (intro exI [of _ "(msg, sz, of_nat k) # ms"]) (simp add: stands_forI)
  qed
qed

lemma consume_chunks_messages:
  assumes cb: "client_callbacks env" and alloc: "\<And>n. n \<le> env_alloc env n"
    and "awaits (c_incomming c) h" and "cut_in_headers h cs tail"
    and "\<forall>(chunk, frs) \<in> set cs. length chunk < 2147483640 \<and>
      (\<forall>fr \<in> set frs. \<exists>x. frame_content (env_alloc env) fr = Inr x)"
  shows "\<exists>ms m. list_all2 (stands_for (env_alloc env)) (concat (map snd cs)) ms \<and> awaits m tail \<and>
     consume_chunks env (map fst cs) c =
       bind_result (handle_messages env ms c) (\<lambda>c. Inr (c\<lparr>c_incomming := m\<rparr>))"
  using assms(3-)
proof (induction cs arbitrary: c h)
  case Nil
  then show ?case by (intro exI [of _ "[]"] exI [of _ "c_incomming c"]) simp
next
  case (Cons x cs)
  obtain chunk frs where x: "x = (chunk, frs)" by (cases x)
  obtain t where t: "concat (map frame_bytes frs) @ t = h @ chunk" "length t < 8" "cut_in_headers t cs tail"
    using Cons.prems(2) by (auto simp: x)
  have chunk: "length chunk < 2147483640" "\<forall>fr \<in> set frs. \<exists>x. frame_content (env_alloc env) fr = Inr x"
    and rest: "\<forall>(chunk, frs) \<in> set cs. length chunk < 2147483640 \<and>
      (\<forall>fr \<in> set frs. \<exists>x. frame_content (env_alloc env) fr = Inr x)"
    using Cons.prems(3) by (simp_all add: x)
  obtain m1 where m1: "awaits m1 t" and first: "consume env (Ptr (map Some chunk) 0) (length chunk) c =
      bind_result (handle_frames env (length chunk) (length chunk) frs c) (\<lambda>c. Inr (c\<lparr>c_incomming := m1\<rparr>))"
    using consume_loop_frames [OF cb alloc Cons.prems(1) t(1,2) _ chunk(1) order_refl,
        of "Ptr (map Some chunk) 0" "length chunk"] unfolding consume_def by auto
  obtain ms1 where ms1: "list_all2 (stands_for (env_alloc env)) frs ms1"
    "handle_frames env (length chunk) (length chunk) frs c = handle_messages env ms1 c"
    using handle_frames_messages [OF chunk(2)] by blast
  show ?case
  proof (cases "handle_messages env ms1 c")
    case (Inl e)
    have "awaits (c_incomming (c\<lparr>c_incomming := m1\<rparr>)) t" using m1 by simp
    from Cons.IH [OF this t(3) rest] obtain ms2 m where
      "list_all2 (stands_for (env_alloc env)) (concat (map snd cs)) ms2" "awaits m tail" by blast
    with ms1 first Inl show ?thesis
      by (intro exI [of _ "ms1 @ ms2"] exI [of _ m])
        (simp add: x list_all2_appendI handle_messages_append)
  next
    case (Inr c1)
    have "awaits (c_incomming (c1\<lparr>c_incomming := m1\<rparr>)) t" using m1 by simp
    from Cons.IH [OF this t(3) rest] obtain ms2 m where
      "list_all2 (stands_for (env_alloc env)) (concat (map snd cs)) ms2" "awaits m tail"
      "consume_chunks env (map fst cs) (c1\<lparr>c_incomming := m1\<rparr>) =
        bind_result (handle_messages env ms2 (c1\<lparr>c_incomming := m1\<rparr>)) (\<lambda>c. Inr (c\<lparr>c_incomming := m\<rparr>))"
      by blast
    with ms1 first Inr handle_messages_incomming [where ms = ms2 and c = c1 and x = m1 and m =
      m] show ?thesis
      by (intro exI [of _ "ms1 @ ms2"] exI [of _ m])
        (simp add: x list_all2_appendI handle_messages_append)
  qed
qed

subsection \<open>Properties\<close>

text \<open>
  C3: Chunk boundaries do not matter, as long as no body is cut. Whatever bytes of a header have
  arrived, let the rest of a sequence of frames with known opcodes and bodies that can be parsed
  come in any number of chunks, each of which ends strictly inside a header or between frames: a
  chunk that ends in a body, or just before a body that is not empty, is left out, since such a
  body overflows its buffer. Then \<open>consume\<close>, called chunk by chunk, hands exactly these frames
  to the handlers, each once and in order, with the content they have on the wire, up to the first
  fault of a handler, and keeps the bytes of the unfinished header.
\<close>

theorem consume_any_chunks:
  assumes "client_callbacks env" and "\<And>n. n \<le> env_alloc env n"
    and "awaits (c_incomming c) h" and "cut_in_headers h cs tail"
    and "\<forall>(chunk, frs) \<in> set cs. length chunk < 2147483640 \<and>
      (\<forall>fr \<in> set frs. \<exists>x. frame_content (env_alloc env) fr = Inr x)"
  shows "\<exists>ms m. map (\<lambda>(msg, sz, k). Inr (content msg)) ms =
       map (frame_content (env_alloc env)) (concat (map snd cs)) \<and> awaits m tail \<and>
     consume_chunks env (map fst cs) c =
       bind_result (handle_messages env ms c) (\<lambda>c. Inr (c\<lparr>c_incomming := m\<rparr>))"
proof -
  have "map (\<lambda>(msg, sz, k). Inr (content msg)) ms = map (frame_content (env_alloc env)) frs"
    if "list_all2 (stands_for (env_alloc env)) frs ms" for ms :: "(message \<times> nat \<times> int32) list" and frs
    using that by (induction rule: list_all2_induct) (auto simp: stands_for_def)
  then show ?thesis using consume_chunks_messages [OF assms] by blast
qed

text \<open>Two frames in three chunks, cut inside both headers.\<close>

definition sample_chunks :: "(bytes \<times> frame list) list" where
  "sample_chunks =
     [([0x82, 0, 1], []),
      (drop 3 (frame_bytes (sample_frame 1)) @ take 5 (frame_header (sample_frame 2)), [sample_frame 1]),
      (drop 5 (frame_header (sample_frame 2)) @ fr_payload (sample_frame 2), [sample_frame 2])]"

lemma sample_frame_content: "\<exists>x. frame_content (env_alloc roomy) (sample_frame s) = Inr x"
proof -
  obtain b ok where "allocate_body CQL_OPCODE_RESULT = Inr b"
    "body_consume (Ptr (framed (env_alloc roomy) 4 0 (be32 CQL_RESULT_KIND_VOID)) 0) 4 b =
      Inr (BodyResult (body_result_new\<lparr>r_kind := CQL_RESULT_KIND_VOID\<rparr>), ok)"
    using parses_void [of roomy] by (auto simp: parses_to_def)
  then show ?thesis by (auto simp: frame_content_def sample_frame_def)
qed

theorem consume_any_chunks_witness:
  "\<exists>ms m. map (\<lambda>(msg, sz, k). Inr (content msg)) ms =
       map (frame_content (env_alloc roomy)) [sample_frame 1, sample_frame 2] \<and> awaits m [] \<and>
     consume_chunks roomy (map fst sample_chunks) (sample_conn (Some 0)) =
       bind_result (handle_messages roomy ms (sample_conn (Some 0))) (\<lambda>c. Inr (c\<lparr>c_incomming := m\<rparr>))"
proof -
  have cb: "client_callbacks roomy" unfolding roomy_def by (rule pool.client_callbacks_axioms)
  have new: "awaits (c_incomming (sample_conn (Some 0))) []" by (simp add: sample_conn_facts)
  have cut: "cut_in_headers [] sample_chunks []"
    by (simp add: sample_chunks_def sample_frame_def frame_bytes_def frame_header_def
      wire_header_def be32_def)
  have size: "\<forall>(chunk, frs) \<in> set sample_chunks. length chunk < 2147483640 \<and>
      (\<forall>fr \<in> set frs. \<exists>x. frame_content (env_alloc roomy) fr = Inr x)"
    using sample_frame_content
    by (simp add: sample_chunks_def sample_frame_def frame_bytes_def)
  from consume_any_chunks [OF cb _ new cut size] show ?thesis
    by (simp add: sample_chunks_def)
qed

end
