(* ===== verification/Stream_Exhaustion.thy ===== *)
theory Stream_Exhaustion
  imports Frame_Stream
begin

text \<open>
  What a server can do to the streams of a connection (\<^verbatim>\<open>include/cql_client_connection.hpp\<close> with
  \<^verbatim>\<open>include/cql_stream_storage.hpp\<close>): \<open>on_supported\<close> answers every SUPPORTED frame with a STARTUP
  frame on a new stream, in whatever state the connection is, and no answer gives that stream back.
\<close>

definition supported_frame :: "frame \<Rightarrow> bool" where
  "supported_frame fr \<longleftrightarrow> fr_opcode fr = CQL_OPCODE_SUPPORTED \<and> 0 \<le> sint (fr_stream fr) \<and>
     (\<exists>opts. map_ok opts \<and> list_all multimap_entry_ok opts \<and> length opts < 32768 \<and>
        fr_payload fr = wire_string_multimap opts)"

text \<open>The number of writes that were started.\<close>

definition writes :: "'ssl connection \<Rightarrow> nat" where
  "writes c = length (filter (\<lambda>e. case e of UvWrite _ _ \<Rightarrow> True | _ \<Rightarrow> False) (c_trace c))"

lemma writes_simps [simp]:
  "writes (conn_log l t c) = writes c"
  "writes (send_data b n c) = Suc (writes c)"
  "writes (c\<lparr>c_state := st\<rparr>) = writes c"
  "writes (c\<lparr>c_incomming := m\<rparr>) = writes c"
  "writes (c\<lparr>c_stream_storage := ss\<rparr>) = writes c"
  by (simp_all add: writes_def conn_log_def send_data_def emit_def)

text \<open>A step that takes a stream for a message, and keeps the requests.\<close>

definition stream_spent :: "'ssl connection \<Rightarrow> 'ssl connection \<Rightarrow> bool" where
  "stream_spent c c' \<longleftrightarrow> conn_ok c' \<and> c_state c' = CLIENT_STATE_SUPPORTED \<and>
     c_requests c' = c_requests c \<and> writes c' = Suc (writes c) \<and>
     Suc (conn_available_streams c') = conn_available_streams c"

lemma available_positive: "conn_ok c \<Longrightarrow> 0 < conn_available_streams c"
  by (simp add: conn_ok_def streams_ok_def conn_available_streams_def available_streams_def)

lemma send_startup_outcome:
  assumes ok: "conn_ok c" and alloc: "\<And>n. n \<le> env_alloc env n" and st: "c_state c = CLIENT_STATE_SUPPORTED"
  shows "if 1 < conn_available_streams c
    then \<exists>c'. send_startup env c = Inr c' \<and> stream_spent c c'
    else send_startup env c = Inl OutOfBounds"
proof -
  let ?su = "body_startup_new\<lparr>su_cql_version := c_cql_version c\<rparr>"
  let ?m = "message_new\<lparr>m_opcode := CQL_OPCODE_STARTUP, m_body := Some (BodyStartup ?su)\<rparr>"
  let ?c = "conn_log CQL_LOG_DEBUG (Literal ''send_startup'') c"
  have s: "streams_ok CQL_STREAM_ID_MAX (c_stream_storage c)" using ok by (simp add: conn_ok_def)
  have send: "send_startup env c = bind_result (send_message env ?m None ?c) (\<lambda>(_, c). Inr c)"
    by (simp add: send_startup_def message_make_def allocate_known Let_def)
  from s show ?thesis
  proof (cases rule: free_streams_cases)
    case (last i)
    then have "conn_available_streams c = 1" using available_free [OF ok] by simp
    then show ?thesis using set_stream_last [OF s last, of None] by (simp add: send send_message_def)
  next
    case (more i j "is")
    let ?m1 = "?m\<lparr>m_stream := of_int i, m_length := of_nat (length (startup_wire (c_cql_version c)))\<rparr>"
    obtain out where prep: "message_prepare (env_alloc env) (?m\<lparr>m_stream := of_int i\<rparr>) =
        Inr (?m1, Some out, 8 + length (startup_wire (c_cql_version c)), True)"
      using message_prepare_sends [of "?m\<lparr>m_stream := of_int i\<rparr>" "BodyStartup ?su" "env_alloc env"] alloc
      by (auto simp: startup_wire_def)
    obtain ss where ss: "send_message env ?m None ?c = Inr (None, send_data out
        (8 + length (startup_wire (c_cql_version c))) (conn_log CQL_LOG_DEBUG
          (Sending (str ''CQL_OPCODE_STARTUP'') (sint (m_stream ?m1)) (8 + length (startup_wire
            (c_cql_version c)))) (?c\<lparr>c_stream_storage := ss\<rparr>)))"
      "streams_ok CQL_STREAM_ID_MAX ss" "free_streams ss = j # is"
      "held_stream ss = (held_stream (c_stream_storage c))(i \<mapsto> None)"
      using send_message_takes [of ?c i j "is" env ?m ?m1 out _ _ "str ''CQL_OPCODE_STARTUP''" None]
        s more prep by (auto simp: opcode_to_string_known)
    have "1 < conn_available_streams c" using available_free [OF ok] more by simp
    moreover have "conn_ok (c\<lparr>c_stream_storage := ss\<rparr>)" using ok ss(2,4) by (auto simp: conn_ok_def)
    moreover have "Suc (available_streams CQL_STREAM_ID_MAX ss) = conn_available_streams c"
      using length_free [OF ss(2)] available_free [OF ok] ss(3) more by simp
    ultimately show ?thesis
      by (simp add: send ss(1) stream_spent_def st conn_available_streams_def)
        (simp add: conn_ok_def)
  qed
qed

lemma frame_message_supported:
  fixes env :: "'ssl conn_env"
  assumes "supported_frame fr"
  shows "\<exists>msg. frame_message (env_alloc env) m k fr = Inr msg \<and> m_opcode msg = CQL_OPCODE_SUPPORTED \<and>
     m_stream msg = fr_stream fr"
proof -
  obtain b where "parses_to env CQL_OPCODE_SUPPORTED (fr_payload fr) b"
    using assms parses_supported unfolding supported_frame_def by metis
  with assms show ?thesis
    by (auto simp: supported_frame_def parses_to_def frame_message_def Let_def frame_done_def
        header_done_def frame_header_def wire_header_def)
qed

lemma on_message_supported:
  assumes "conn_ok c" and "\<And>n. n \<le> env_alloc env n"
    and "m_opcode msg = CQL_OPCODE_SUPPORTED" and "0 \<le> sint (m_stream msg)"
  shows "if 1 < conn_available_streams c
    then \<exists>c'. on_message env msg sz n c = Inr c' \<and> stream_spent c c'
    else on_message env msg sz n c = Inl OutOfBounds"
proof -
  obtain t1 t2 t3 where *: "on_message env msg sz n c = send_startup env (conn_log CQL_LOG_DEBUG t1
      ((conn_log CQL_LOG_DEBUG t2 (conn_log CQL_LOG_DEBUG t3 c))\<lparr>c_state := CLIENT_STATE_SUPPORTED\<rparr>))"
    (is "_ = send_startup env ?c")
    using assms(3,4) by (simp add: on_message_def opcode_to_string_known on_supported_def
        event_received_late_def event_switch_def)
  have "conn_ok ?c" "conn_available_streams ?c = conn_available_streams c" "c_requests ?c = c_requests c"
    "writes ?c = writes c" "c_state ?c = CLIENT_STATE_SUPPORTED"
    using assms(1) by (simp_all add: conn_ok_def conn_available_streams_def)
  with send_startup_outcome [OF this(1) assms(2) this(5)] show ?thesis
    by (auto simp: * stream_spent_def split: if_splits)
qed

text \<open>Frames that arrive one after the other, each of which spends a stream.\<close>

definition streams_spent :: "nat \<Rightarrow> 'ssl connection \<Rightarrow> 'ssl connection \<Rightarrow> bool" where
  "streams_spent n c c' \<longleftrightarrow> (0 < n \<longrightarrow> c_state c' = CLIENT_STATE_SUPPORTED) \<and> c_requests c' = c_requests c \<and>
     writes c' = writes c + n \<and> conn_available_streams c' + n = conn_available_streams c"

lemma handle_supported:
  assumes "list_all supported_frame frs" and "conn_ok c" and alloc: "\<And>n. n \<le> env_alloc env n"
  shows "if length frs < conn_available_streams c
    then \<exists>c'. handle_frames env sz k frs c = Inr c' \<and> streams_spent (length frs) c c'
    else handle_frames env sz k frs c = Inl OutOfBounds"
  using assms(1,2)
proof (induction frs arbitrary: k c)
  case Nil
  then show ?case using available_positive [of c] by (simp add: streams_spent_def)
next
  case (Cons fr frs)
  let ?k = "k + m_header_buffer_pos (c_incomming c) - length (frame_bytes fr)"
  let ?c = "c\<lparr>c_incomming := message_new\<rparr>"
  obtain msg where msg: "frame_message (env_alloc env) (c_incomming c) k fr = Inr msg"
    "m_opcode msg = CQL_OPCODE_SUPPORTED" "m_stream msg = fr_stream fr"
    using frame_message_supported [of fr env] Cons.prems(1) by auto
  have step: "handle_frames env sz k (fr # frs) c =
      bind_result (on_message env msg sz (of_nat k) ?c) (handle_frames env sz ?k frs)"
    by (simp add: msg(1))
  have "conn_ok ?c" "0 \<le> sint (m_stream msg)"
    using Cons.prems msg(3) by (simp_all add: conn_ok_def supported_frame_def)
  note first = on_message_supported [OF this(1) alloc msg(2) this(2), of sz "of_nat k"]
  show ?case
  proof (cases "1 < conn_available_streams c")
    case False
    then show ?thesis
      using first available_positive [OF Cons.prems(2)] unfolding step by simp
  next
    case True
    with first obtain c1 where c1: "on_message env msg sz (of_nat k) ?c = Inr c1" "stream_spent ?c c1"
      by auto
    then have "conn_ok c1" by (simp add: stream_spent_def)
    from Cons.IH [OF _ this, of ?k] Cons.prems(1) c1 show ?thesis
      unfolding step by (auto simp: stream_spent_def streams_spent_def split: if_splits)
  qed
qed

subsection \<open>Properties\<close>

text \<open>
  C15: SUPPORTED frames use up the streams of a connection. In any state, a chunk of well-formed
  SUPPORTED frames makes \<open>consume\<close> start one write and give up one stream for each frame, and the
  connection falls back to \<open>CLIENT_STATE_SUPPORTED\<close>. With as many frames as there are streams
  available, the last of these writes behind the arrays of the stream storage.
\<close>

theorem supported_frames_exhaust:
  assumes "client_callbacks env" and "\<And>n. n \<le> env_alloc env n"
    and "conn_ok c" and "awaits (c_incomming c) []" and "list_all supported_frame frs"
    and "points_to P (concat (map frame_bytes frs))"
    and "n = length (concat (map frame_bytes frs))" and "n < 2147483640"
  shows "if length frs < conn_available_streams c
    then \<exists>c'. consume env P n c = Inr c' \<and> (frs \<noteq> [] \<longrightarrow> c_state c' = CLIENT_STATE_SUPPORTED) \<and>
      c_requests c' = c_requests c \<and> writes c' = writes c + length frs \<and>
      conn_available_streams c' + length frs = conn_available_streams c
    else consume env P n c = Inl OutOfBounds"
proof -
  let ?chunk = "concat (map frame_bytes frs)"
  obtain m where "consume env P n c = bind_result (handle_frames env n n frs c) (\<lambda>c.
      Inr (c\<lparr>c_incomming := m\<rparr>))"
    using consume_loop_frames [OF assms(1,2,4) _ _ assms(6), where frs = frs and tail = "[]" and fuel = n
      and sz = n] assms(7,8)
    unfolding consume_def by auto
  with handle_supported [OF assms(5,3,2), of n n] show ?thesis
    by (auto simp: streams_spent_def split: if_splits)
qed

definition supported_sample :: frame where
  "supported_sample = \<lparr>fr_version = 0x82, fr_flags = 0, fr_stream = 1, fr_opcode = CQL_OPCODE_SUPPORTED,
     fr_payload = wire_string_multimap []\<rparr>"

lemma supported_sample_facts:
  "supported_frame supported_sample" "length (frame_bytes supported_sample) = 10"
  by (auto simp: supported_sample_def supported_frame_def frame_bytes_def wire_string_multimap_def
      intro!: exI [of _ "[]"])

definition flood :: "nat \<Rightarrow> bytes" where
  "flood k = concat (map frame_bytes (replicate k supported_sample))"

lemma length_flood: "length (flood k) = 10 * k"
  by (induction k) (simp_all add: flood_def supported_sample_facts)

theorem supported_frames_exhaust_witness:
  "(\<exists>c'. consume roomy (Ptr (map Some (flood 126)) 0) 1260 (connection_new roomy None) = Inr c' \<and>
     c_state c' = CLIENT_STATE_SUPPORTED \<and> conn_available_streams c' = 1) \<and>
   consume roomy (Ptr (map Some (flood 127)) 0) 1270 (connection_new roomy None) = Inl OutOfBounds"
proof -
  let ?c = "connection_new roomy None :: unit connection"
  have cb: "client_callbacks roomy" unfolding roomy_def by (rule pool.client_callbacks_axioms)
  have new: "awaits (c_incomming ?c) []" "conn_available_streams ?c = 127"
    by (simp_all add: connection_new_def conn_available_streams_def CQL_STREAM_ID_MAX_def)
  have out: "if k < 127
      then \<exists>c'. consume roomy (Ptr (map Some (flood k)) 0) (10 * k) ?c = Inr c' \<and>
        (replicate k supported_sample \<noteq> [] \<longrightarrow> c_state c' = CLIENT_STATE_SUPPORTED) \<and>
        c_requests c' = c_requests ?c \<and> writes c' = writes ?c + k \<and>
        conn_available_streams c' + k = 127
      else consume roomy (Ptr (map Some (flood k)) 0) (10 * k) ?c = Inl OutOfBounds"
    if k: "10 * k < 2147483640" for k
  proof (rule supported_frames_exhaust [OF cb _ conn_ok_new new(1), of "replicate k supported_sample"
        "Ptr (map Some (flood k)) 0" "10 * k", unfolded new(2) length_replicate])
    show "list_all supported_frame (replicate k supported_sample)"
      by (simp add: list_all_length supported_sample_facts)
    show "points_to (Ptr (map Some (flood k)) 0) (concat (map frame_bytes (replicate k supported_sample)))"
      unfolding flood_def [symmetric] by simp
    show "10 * k = length (concat (map frame_bytes (replicate k supported_sample)))"
      unfolding flood_def [symmetric] by (simp add: length_flood)
  qed (use k in simp_all)
  have "\<exists>c'. consume roomy (Ptr (map Some (flood 126)) 0) 1260 ?c = Inr c' \<and>
      c_state c' = CLIENT_STATE_SUPPORTED \<and> conn_available_streams c' = 1"
    using out [of 126] by auto
  moreover have "consume roomy (Ptr (map Some (flood 127)) 0) 1270 ?c = Inl OutOfBounds"
    using out [of 127] by simp
  ultimately show ?thesis ..
qed

end
