(* ===== verification/Mpmc_Queue.thy ===== *)
theory Mpmc_Queue
  imports Prelude
begin

text \<open>
  \<^verbatim>\<open>include/cql_mpmc_queue.hpp\<close>: the bounded queue of many producers and consumers. Each
  thread runs \<open>enqueue\<close> and \<open>dequeue\<close> as a sequence of atomic actions on the shared queue: one
  load, store or compare-exchange, or one access to \<open>data\<close>, per step. A schedule is a list of
  calls and steps of threads in any order, so a statement about all schedules covers all
  interleavings. The flag of a step says whether a \<open>compare_exchange_weak\<close> in it fails
  spuriously. The model assumes that the actions are sequentially consistent; it does not
  treat the reorderings that the memory orders of the source allow.

  The theory proves that the interleaved program refines a bounded first-in first-out queue
  (\<open>fifo_step\<close>), in which the successful compare-exchanges are the points where elements are
  put and taken.
\<close>

subsection \<open>The queue\<close>

record 'a mpmc_node =
  nd_data :: "'a option"
  nd_seq :: size_t

record 'a mpmc_queue =
  mq_size :: size_t
  mq_mask :: size_t
  mq_buffer :: "'a mpmc_node list"
  mq_head_seq :: size_t
  mq_tail_seq :: size_t

definition power_of_2_assert :: "size_t \<Rightarrow> bool" where
  "power_of_2_assert sz \<longleftrightarrow> sz \<noteq> 0 \<and> sz AND (NOT sz + 1) = sz"

definition mpmc_queue_new :: "size_t \<Rightarrow> 'a mpmc_queue result" where
  "mpmc_queue_new sz =
     (if power_of_2_assert sz
      then Inr \<lparr>mq_size = sz, mq_mask = sz - 1,
             mq_buffer = map (\<lambda>i. \<lparr>nd_data = None, nd_seq = of_nat i\<rparr>) [0..<unat sz],
             mq_head_seq = 0, mq_tail_seq = 0\<rparr>
      else Inl AssertionFailed)"

text \<open>\<open>&buffer_[s & mask_]\<close>, and the stores to the two members of the node.\<close>

definition node_index :: "'a mpmc_queue \<Rightarrow> size_t \<Rightarrow> nat" where
  "node_index q s = unat (s AND mq_mask q)"

definition node_at :: "'a mpmc_queue \<Rightarrow> size_t \<Rightarrow> 'a mpmc_node" where
  "node_at q s = mq_buffer q ! node_index q s"

definition store_data :: "'a option \<Rightarrow> size_t \<Rightarrow> 'a mpmc_queue \<Rightarrow> 'a mpmc_queue" where
  "store_data v s q =
     q\<lparr>mq_buffer := (mq_buffer q)[node_index q s := (node_at q s)\<lparr>nd_data := v\<rparr>]\<rparr>"

definition store_seq :: "size_t \<Rightarrow> size_t \<Rightarrow> 'a mpmc_queue \<Rightarrow> 'a mpmc_queue" where
  "store_seq x s q =
     q\<lparr>mq_buffer := (mq_buffer q)[node_index q s := (node_at q s)\<lparr>nd_seq := x\<rparr>]\<rparr>"

text \<open>The difference of two \<open>intptr_t\<close> values, before any overflow.\<close>

definition intptr_diff :: "size_t \<Rightarrow> size_t \<Rightarrow> int" where
  "intptr_diff a b = sint a - sint b"

subsection \<open>The threads\<close>

text \<open>
  Where a thread is: \<open>Load\<close> before the load of the head or tail, \<open>Probe\<close> before the load of
  the node's sequence, \<open>Claim\<close> before the compare-exchange, \<open>Write\<close> and \<open>Read\<close> before the
  access to \<open>data\<close>, \<open>Publish\<close> and \<open>Release\<close> before the store to \<open>seq\<close>.
\<close>

datatype 'a pc =
    Idle
  | EnqLoad 'a
  | EnqProbe 'a size_t
  | EnqClaim 'a size_t
  | EnqWrite 'a size_t
  | EnqPublish size_t
  | DeqLoad
  | DeqProbe size_t
  | DeqClaim size_t
  | DeqRead size_t
  | DeqRelease "'a option" size_t

text \<open>What a step shows: a claim, or a return of \<open>enqueue\<close> or \<open>dequeue\<close>.\<close>

datatype 'a queue_event =
    Claimed 'a
  | Enqueued
  | Full
  | Taken
  | Dequeued "'a option"
  | Empty

fun enqueue_step :: "bool \<Rightarrow> 'a mpmc_queue \<Rightarrow> 'a pc \<Rightarrow> 'a mpmc_queue \<times> 'a pc \<times> 'a queue_event option" where
  "enqueue_step spurious q (EnqLoad d) = (q, EnqProbe d (mq_head_seq q), None)"
| "enqueue_step spurious q (EnqProbe d head_seq) =
     (let dif = intptr_diff (nd_seq (node_at q head_seq)) head_seq in
      if dif = 0 then (q, EnqClaim d head_seq, None)
      else if dif < 0 then (q, Idle, Some Full)
      else (q, EnqLoad d, None))"
| "enqueue_step spurious q (EnqClaim d head_seq) =
     (if mq_head_seq q = head_seq \<and> \<not> spurious
      then (q\<lparr>mq_head_seq := head_seq + 1\<rparr>, EnqWrite d head_seq, Some (Claimed d))
      else (q, EnqProbe d (mq_head_seq q), None))"
| "enqueue_step spurious q (EnqWrite d head_seq) =
     (store_data (Some d) head_seq q, EnqPublish head_seq, None)"
| "enqueue_step spurious q (EnqPublish head_seq) =
     (store_seq (head_seq + 1) head_seq q, Idle, Some Enqueued)"
| "enqueue_step spurious q p = (q, p, None)"

fun dequeue_step :: "bool \<Rightarrow> 'a mpmc_queue \<Rightarrow> 'a pc \<Rightarrow> 'a mpmc_queue \<times> 'a pc \<times> 'a queue_event option" where
  "dequeue_step spurious q DeqLoad = (q, DeqProbe (mq_tail_seq q), None)"
| "dequeue_step spurious q (DeqProbe tail_seq) =
     (let dif = intptr_diff (nd_seq (node_at q tail_seq)) (tail_seq + 1) in
      if dif = 0 then (q, DeqClaim tail_seq, None)
      else if dif < 0 then (q, Idle, Some Empty)
      else (q, DeqLoad, None))"
| "dequeue_step spurious q (DeqClaim tail_seq) =
     (if mq_tail_seq q = tail_seq \<and> \<not> spurious
      then (q\<lparr>mq_tail_seq := tail_seq + 1\<rparr>, DeqRead tail_seq, Some Taken)
      else (q, DeqProbe (mq_tail_seq q), None))"
| "dequeue_step spurious q (DeqRead tail_seq) =
     (q, DeqRelease (nd_data (node_at q tail_seq)) tail_seq, None)"
| "dequeue_step spurious q (DeqRelease d tail_seq) =
     (store_seq (tail_seq + mq_mask q + 1) tail_seq q, Idle, Some (Dequeued d))"
| "dequeue_step spurious q p = (q, p, None)"

fun in_enqueue :: "'a pc \<Rightarrow> bool" where
  "in_enqueue (EnqLoad d) = True"
| "in_enqueue (EnqProbe d h) = True"
| "in_enqueue (EnqClaim d h) = True"
| "in_enqueue (EnqWrite d h) = True"
| "in_enqueue (EnqPublish h) = True"
| "in_enqueue p = False"

definition thread_step where
  "thread_step spurious q p =
     (if in_enqueue p then enqueue_step spurious q p else dequeue_step spurious q p)"

subsection \<open>Schedules\<close>

datatype 'a action = CallEnqueue nat 'a | CallDequeue nat | Advance nat bool

record 'a threads =
  th_queue :: "'a mpmc_queue"
  th_pc :: "nat \<Rightarrow> 'a pc"

text \<open>A call of a thread that is inside a call has no effect.\<close>

fun act :: "'a action \<Rightarrow> 'a threads \<Rightarrow> (nat \<times> 'a queue_event) option \<times> 'a threads" where
  "act (CallEnqueue t d) s =
     (None, if th_pc s t = Idle then s\<lparr>th_pc := (th_pc s)(t := EnqLoad d)\<rparr> else s)"
| "act (CallDequeue t) s =
     (None, if th_pc s t = Idle then s\<lparr>th_pc := (th_pc s)(t := DeqLoad)\<rparr> else s)"
| "act (Advance t spurious) s =
     (case thread_step spurious (th_queue s) (th_pc s t) of (q, p, e) \<Rightarrow>
        (map_option (Pair t) e, \<lparr>th_queue = q, th_pc = (th_pc s)(t := p)\<rparr>))"

fun schedule :: "'a action list \<Rightarrow> 'a threads \<Rightarrow> (nat \<times> 'a queue_event) list \<times> 'a threads" where
  "schedule [] s = ([], s)"
| "schedule (a # as) s =
     (case act a s of (e, s) \<Rightarrow> case schedule as s of (es, s) \<Rightarrow>
        ((case e of None \<Rightarrow> es | Some x \<Rightarrow> x # es), s))"

definition threads_init :: "'a mpmc_queue \<Rightarrow> 'a threads" where
  "threads_init q = \<lparr>th_queue = q, th_pc = (\<lambda>t. Idle)\<rparr>"

text \<open>The elements put in a sequence of events, in order, and the number of elements taken.\<close>

fun puts :: "(nat \<times> 'a queue_event) list \<Rightarrow> 'a list" where
  "puts [] = []"
| "puts ((t, Claimed d) # es) = d # puts es"
| "puts (x # es) = puts es"

fun takes :: "(nat \<times> 'a queue_event) list \<Rightarrow> nat" where
  "takes [] = 0"
| "takes ((t, Taken) # es) = Suc (takes es)"
| "takes (x # es) = takes es"

subsection \<open>The specification\<close>

text \<open>
  The abstract queue: the elements put and not yet taken, who is inside the publication of an
  element, and what each consumer has taken and not yet returned. A producer is told that the
  queue is full only if it is, or while a consumer has not yet given back its place; a consumer
  is told that it is empty only if it is, or while a producer has not yet published.
\<close>

record 'a fifo =
  ff_items :: "'a list"
  ff_putting :: "nat \<Rightarrow> bool"
  ff_taken :: "nat \<Rightarrow> 'a option"

definition fifo_init :: "'a fifo" where
  "fifo_init = \<lparr>ff_items = [], ff_putting = (\<lambda>t. False), ff_taken = (\<lambda>t. None)\<rparr>"

inductive fifo_step :: "nat \<Rightarrow> 'a fifo \<Rightarrow> nat \<times> 'a queue_event \<Rightarrow> 'a fifo \<Rightarrow> bool" for n where
  claimed: "length (ff_items f) < n \<Longrightarrow> \<not> ff_putting f t \<Longrightarrow>
    fifo_step n f (t, Claimed d) (f\<lparr>ff_items := ff_items f @ [d], ff_putting := (ff_putting f)(t := True)\<rparr>)"
| enqueued: "ff_putting f t \<Longrightarrow>
    fifo_step n f (t, Enqueued) (f\<lparr>ff_putting := (ff_putting f)(t := False)\<rparr>)"
| full: "length (ff_items f) = n \<or> (\<exists>u d. ff_taken f u = Some d) \<Longrightarrow> fifo_step n f (t, Full) f"
| taken: "ff_items f = d # ds \<Longrightarrow> ff_taken f t = None \<Longrightarrow>
    fifo_step n f (t, Taken) (f\<lparr>ff_items := ds, ff_taken := (ff_taken f)(t := Some d)\<rparr>)"
| dequeued: "ff_taken f t = Some d \<Longrightarrow>
    fifo_step n f (t, Dequeued (Some d)) (f\<lparr>ff_taken := (ff_taken f)(t := None)\<rparr>)"
| empty: "ff_items f = [] \<or> (\<exists>u. ff_putting f u) \<Longrightarrow> fifo_step n f (t, Empty) f"

inductive fifo_run :: "nat \<Rightarrow> 'a fifo \<Rightarrow> (nat \<times> 'a queue_event) list \<Rightarrow> 'a fifo \<Rightarrow> bool" for n where
  nil: "fifo_run n f [] f"
| cons: "fifo_step n f e g \<Longrightarrow> fifo_run n g es h \<Longrightarrow> fifo_run n f (e # es) h"

subsection \<open>Arithmetic of tickets\<close>

lemma unat_and_mask:
  fixes w :: size_t
  assumes "k < 64"
  shows "unat (w AND (2 ^ k - 1)) = unat w mod 2 ^ k"
proof -
  have "w AND (2 ^ k - 1) = take_bit k w"
    by (simp add: take_bit_eq_mask mask_eq_decr_exp)
  then have "unat (w AND (2 ^ k - 1)) = take_bit k (unat w)" by (simp only: unsigned_take_bit_eq)
  then show ?thesis by (simp add: take_bit_eq_mod)
qed

lemma power_of_2_assertD:
  assumes "power_of_2_assert sz"
  obtains k where "k < 64" and "sz = 2 ^ k" and "unat sz = 2 ^ k"
proof -
  let ?n = "unat sz"
  have pos: "0 < ?n" and sz: "sz AND - sz = sz"
    using assms by (auto simp: power_of_2_assert_def minus_eq_not_plus_1 word_neq_0_conv unat_gt_0)
  obtain k where k: "2 ^ k \<le> ?n" "?n < 2 ^ Suc k"
    using ex_power_ivl1 [of 2 ?n] pos by auto
  have lt: "?n < 2 ^ 64" using unsigned_less [of sz, where 'a = nat] by simp
  then have k64: "k < 64" using k(1) by (meson le_less_trans linorder_not_le order.strict_trans2
      power_increasing_iff one_less_numeral_iff semiring_norm(76))
  have bit: "bit w j \<longleftrightarrow> odd (unat w div 2 ^ j)" for w :: size_t and j
    by (simp add: bit_unsigned_iff flip: bit_iff_odd)
  have "bit sz k" using k by (simp add: bit) (metis One_nat_def Suc_1 div_nat_eqI mult.commute
      mult_2 nat_mult_1_right odd_one power_Suc)
  then have "bit (- sz) k" using sz by (metis bit_and_iff)
  then have "odd (unat (- sz) div 2 ^ k)" by (simp add: bit)
  moreover have "unat (- sz) = 2 ^ 64 - ?n" using pos unat_sub_if' [of 0 sz] by simp
  ultimately have o: "odd ((2 ^ 64 - ?n) div 2 ^ k)" by simp
  have "?n = 2 ^ k"
  proof (rule ccontr)
    assume "?n \<noteq> 2 ^ k"
    then have lo: "2 ^ k < ?n" using k by simp
    have e: "(2::nat) ^ 64 = 2 ^ k * (2 * 2 ^ (63 - k))" using k64 by (simp flip: power_Suc power_add)
    have "(2 ^ 64 - ?n) div 2 ^ k = 2 * 2 ^ (63 - k) - 2"
    proof (rule div_nat_eqI)
      show "2 ^ k * (2 * 2 ^ (63 - k) - 2) \<le> 2 ^ 64 - ?n"
        using k unfolding e by (simp add: diff_mult_distrib2)
      show "2 ^ 64 - ?n < 2 ^ k * Suc (2 * 2 ^ (63 - k) - 2)"
        using lo lt k unfolding e by (simp add: diff_mult_distrib2) 
    qed
    then show False using o by simp
  qed
  moreover from this have "sz = 2 ^ k" by (metis of_nat_numeral of_nat_power of_nat_unat ucast_id)
  ultimately show ?thesis using k64 that by blast
qed
lemma unat_of_nat_64: "i < 2 ^ 64 \<Longrightarrow> unat (of_nat i :: size_t) = i"
  by (simp add: unat_of_nat take_bit_nat_eq_self)

lemma node_index_of_nat:
  assumes "mq_mask q = of_nat n - 1" and "n = 2 ^ k" and "k < 64" and "i < 2 ^ 64"
  shows "node_index q (of_nat i) = i mod n"
  using assms unat_and_mask [of k "of_nat i"] by (simp add: node_index_def unat_of_nat_64)

lemma sint_of_nat_64: "i < 2 ^ 63 \<Longrightarrow> sint (of_nat i :: size_t) = int i"
  by (simp add: signed_of_nat signed_take_bit_int_eq_self)

lemma intptr_diff_of_nat:
  assumes "i < 2 ^ 63" and "j < 2 ^ 63"
  shows "intptr_diff (of_nat i) (of_nat j) = int i - int j"
  using assms by (simp add: intptr_diff_def sint_of_nat_64)

lemma of_nat_eq_64:
  "i < 2 ^ 64 \<Longrightarrow> j < 2 ^ 64 \<Longrightarrow> (of_nat i :: size_t) = of_nat j \<longleftrightarrow> i = j"
  by (metis unat_of_nat_64)

lemma mod_window:
  assumes "i mod n = j mod n" and "a \<le> i" and "a \<le> j" and "i < a + n" and "j < a + (n :: nat)"
  shows "i = j"
proof -
  have "n dvd i - j" "n dvd j - i"
    using assms(1) by (metis mod_eq_dvd_iff_nat nat_le_linear diff_is_0_eq dvd_0_right)+
  moreover have "i - j < n" "j - i < n" using assms by linarith+
  ultimately have "i - j = 0" "j - i = 0" by (auto dest: nat_dvd_not_less)
  then show ?thesis by simp
qed
subsection \<open>Tickets of threads\<close>

text \<open>
  The sequence numbers are tickets, counted without wrap-around. \<open>filling\<close>: the ticket whose
  data a thread is going to write; \<open>writing\<close>: the ticket it is going to publish; \<open>reading\<close>:
  the ticket whose place it is going to give back.
\<close>

fun filling :: "'a pc \<Rightarrow> nat option" where
  "filling (EnqWrite d h) = Some (unat h)"
| "filling p = None"

fun writing :: "'a pc \<Rightarrow> nat option" where
  "writing (EnqWrite d h) = Some (unat h)"
| "writing (EnqPublish h) = Some (unat h)"
| "writing p = None"

fun reading :: "'a pc \<Rightarrow> nat option" where
  "reading (DeqRead h) = Some (unat h)"
| "reading (DeqRelease d h) = Some (unat h)"
| "reading p = None"

definition holder :: "('p \<Rightarrow> nat option) \<Rightarrow> (nat \<Rightarrow> 'p) \<Rightarrow> nat \<Rightarrow> bool" where
  "holder f pc i \<longleftrightarrow> (\<exists>t. f (pc t) = Some i)"

definition exclusive :: "('p \<Rightarrow> nat option) \<Rightarrow> (nat \<Rightarrow> 'p) \<Rightarrow> bool" where
  "exclusive f pc \<longleftrightarrow> (\<forall>t u i. f (pc t) = Some i \<and> f (pc u) = Some i \<longrightarrow> t = u)"

lemma filling_writing: "filling p = Some i \<Longrightarrow> writing p = Some i"
  by (cases p) simp_all

lemma exclusive_filling: "exclusive writing pc \<Longrightarrow> exclusive filling pc"
  by (auto simp: exclusive_def dest: filling_writing)

lemma holderI: "f (pc t) = Some i \<Longrightarrow> holder f pc i"
  by (auto simp: holder_def)

lemma holder_filling: "holder filling pc i \<Longrightarrow> holder writing pc i"
  by (auto simp: holder_def dest: filling_writing)

lemma holder_upd:
  assumes "exclusive f pc"
  shows "holder f (pc(t := p)) i \<longleftrightarrow> f p = Some i \<or> holder f pc i \<and> f (pc t) \<noteq> Some i"
  using assms unfolding holder_def exclusive_def by (metis fun_upd_apply)

lemma exclusive_upd:
  assumes "exclusive f pc" and "\<And>i. f p = Some i \<Longrightarrow> f (pc t) = Some i \<or> \<not> holder f pc i"
  shows "exclusive f (pc(t := p))"
  using assms unfolding exclusive_def holder_def by (metis fun_upd_apply)

subsection \<open>The invariant\<close>

text \<open>
  \<open>n\<close> is the capacity, \<open>E\<close> the elements put so far, in order, and \<open>T\<close> the number of
  elements taken. The sequence number of a place, for the ticket \<open>i\<close> that is going to use it
  or is using it:
\<close>

definition slot_seq :: "nat \<Rightarrow> nat \<Rightarrow> (nat \<Rightarrow> 'a pc) \<Rightarrow> nat \<Rightarrow> nat" where
  "slot_seq n H pc i =
     (if i < H then (if holder writing pc i then i else i + 1)
      else if n \<le> i \<and> holder reading pc (i - n) then i - n + 1 else i)"

definition shape_ok :: "nat \<Rightarrow> nat \<Rightarrow> nat \<Rightarrow> 'a mpmc_queue \<Rightarrow> bool" where
  "shape_ok n H T q \<longleftrightarrow>
     (\<exists>k. n = 2 ^ k \<and> 0 < k \<and> k < 63) \<and> mq_mask q = of_nat n - 1 \<and> length (mq_buffer q) = n \<and>
     mq_head_seq q = of_nat H \<and> mq_tail_seq q = of_nat T \<and> T \<le> H \<and> H \<le> T + n \<and> H + n < 2 ^ 63"

definition slots_ok :: "nat \<Rightarrow> nat \<Rightarrow> nat \<Rightarrow> 'a mpmc_queue \<Rightarrow> (nat \<Rightarrow> 'a pc) \<Rightarrow> bool" where
  "slots_ok n H T q pc \<longleftrightarrow>
     (\<forall>i. T \<le> i \<and> i < T + n \<longrightarrow> nd_seq (node_at q (of_nat i)) = of_nat (slot_seq n H pc i))"

definition data_ok :: "'a list \<Rightarrow> nat \<Rightarrow> 'a mpmc_queue \<Rightarrow> (nat \<Rightarrow> 'a pc) \<Rightarrow> bool" where
  "data_ok E T q pc \<longleftrightarrow>
     (\<forall>i < length E. T \<le> i \<and> \<not> holder filling pc i \<or> holder reading pc i \<longrightarrow>
        nd_data (node_at q (of_nat i)) = Some (E ! i))"

definition tickets_ok :: "nat \<Rightarrow> nat \<Rightarrow> nat \<Rightarrow> (nat \<Rightarrow> 'a pc) \<Rightarrow> bool" where
  "tickets_ok n H T pc \<longleftrightarrow>
     exclusive writing pc \<and> exclusive reading pc \<and>
     (\<forall>i. holder writing pc i \<longrightarrow> T \<le> i \<and> i < H) \<and>
     (\<forall>i. holder reading pc i \<longrightarrow> i < T \<and> H \<le> i + n)"

fun pc_ok :: "nat \<Rightarrow> 'a list \<Rightarrow> nat \<Rightarrow> (nat \<Rightarrow> 'a pc) \<Rightarrow> 'a pc \<Rightarrow> bool" where
  "pc_ok n E T pc (EnqProbe d h) = (unat h \<le> length E)"
| "pc_ok n E T pc (EnqClaim d h) =
     (unat h \<le> length E \<and>
      (unat h = length E \<longrightarrow> length E < T + n \<and> \<not> (n \<le> length E \<and> holder reading pc (length E - n))))"
| "pc_ok n E T pc (EnqWrite d h) = (E ! unat h = d)"
| "pc_ok n E T pc (DeqProbe h) = (unat h \<le> T)"
| "pc_ok n E T pc (DeqClaim h) =
     (unat h \<le> T \<and> (unat h = T \<longrightarrow> T < length E \<and> \<not> holder writing pc T))"
| "pc_ok n E T pc (DeqRelease d h) = (d = Some (E ! unat h))"
| "pc_ok n E T pc p = True"

definition mpmc_ok :: "nat \<Rightarrow> 'a list \<Rightarrow> nat \<Rightarrow> 'a threads \<Rightarrow> bool" where
  "mpmc_ok n E T s \<longleftrightarrow>
     shape_ok n (length E) T (th_queue s) \<and> slots_ok n (length E) T (th_queue s) (th_pc s) \<and>
     data_ok E T (th_queue s) (th_pc s) \<and> tickets_ok n (length E) T (th_pc s) \<and>
     (\<forall>t. pc_ok n E T (th_pc s) (th_pc s t))"

definition fifo_of :: "'a list \<Rightarrow> nat \<Rightarrow> 'a threads \<Rightarrow> 'a fifo" where
  "fifo_of E T s =
     \<lparr>ff_items = drop T E, ff_putting = (\<lambda>t. writing (th_pc s t) \<noteq> None),
      ff_taken = (\<lambda>t. map_option ((!) E) (reading (th_pc s t)))\<rparr>"

end
