(* ===== verification/Queue_Contract.thy ===== *)
theory Queue_Contract
  imports Mpmc_Queue "HOL-Library.Multiset"
begin

text \<open>
  What a user of the queue may rely on. The locale \<open>fifo_object\<close> is the contract between
  \<^verbatim>\<open>include/cql_mpmc_queue.hpp\<close> and its user \<^verbatim>\<open>include/cql_session.hpp\<close>: every run of the object
  is a run of the abstract queue. The lemmas in it follow from the abstract queue alone:
  the elements that leave the queue are those that entered it, in order, none lost and none
  handed out twice.
\<close>

text \<open>The elements that calls of \<open>dequeue\<close> returned, in the order of the returns.\<close>

fun returned :: "(nat \<times> 'a queue_event) list \<Rightarrow> 'a list" where
  "returned [] = []"
| "returned ((t, Dequeued (Some d)) # es) = d # returned es"
| "returned (x # es) = returned es"

text \<open>The elements consumers have taken and not yet returned.\<close>

definition in_hand :: "'a fifo \<Rightarrow> 'a multiset" where
  "in_hand f = (\<Sum>t | ff_taken f t \<noteq> None. {#the (ff_taken f t)#})"

definition fifo_quiet :: "'a fifo \<Rightarrow> bool" where
  "fifo_quiet f \<longleftrightarrow> (\<forall>t. ff_taken f t = None)"

lemma in_hand_quiet: "fifo_quiet f \<Longrightarrow> in_hand f = {#}"
  by (simp add: fifo_quiet_def in_hand_def)

lemma in_hand_take:
  assumes "finite {t. ff_taken f t \<noteq> None}" and "ff_taken f t = None"
  shows "in_hand (f\<lparr>ff_items := ds, ff_taken := (ff_taken f)(t := Some d)\<rparr>) = add_mset d (in_hand f)"
proof -
  have "{u. ((ff_taken f)(t := Some d)) u \<noteq> None} = insert t {u. ff_taken f u \<noteq> None}" by auto
  moreover have "(\<Sum>u | ff_taken f u \<noteq> None. {#the (((ff_taken f)(t := Some d)) u)#}) = in_hand f"
    unfolding in_hand_def using assms(2) by (intro sum.cong) auto
  ultimately show ?thesis using assms by (simp add: in_hand_def)
qed

lemma in_hand_return:
  assumes "finite {t. ff_taken f t \<noteq> None}" and "ff_taken f t = Some d"
  shows "in_hand f = add_mset d (in_hand (f\<lparr>ff_taken := (ff_taken f)(t := None)\<rparr>))"
proof -
  let ?g = "f\<lparr>ff_taken := (ff_taken f)(t := None)\<rparr>"
  have "finite {u. ff_taken ?g u \<noteq> None}"
    by (rule finite_subset [OF _ assms(1)]) auto
  then have "in_hand (?g\<lparr>ff_items := ff_items f, ff_taken := (ff_taken ?g)(t := Some d)\<rparr>) =
      add_mset d (in_hand ?g)"
    by (rule in_hand_take) simp
  moreover have "?g\<lparr>ff_items := ff_items f, ff_taken := (ff_taken ?g)(t := Some d)\<rparr> = f"
    using assms(2) by (simp add: fun_upd_idem)
  ultimately show ?thesis by simp
qed

lemma finite_taken_step:
  assumes "fifo_step n f e g" and "finite {t. ff_taken f t \<noteq> None}"
  shows "finite {t. ff_taken g t \<noteq> None}"
proof -
  have "{t. ff_taken g t \<noteq> None} \<subseteq> insert (fst e) {t. ff_taken f t \<noteq> None}"
    using assms(1) by (cases rule: fifo_step.cases) auto
  then show ?thesis using assms(2) finite_subset by blast
qed

lemma fifo_run_items:
  assumes "fifo_run n f es g"
  shows "ff_items g = drop (takes es) (ff_items f @ puts es)"
    and "takes es \<le> length (ff_items f @ puts es)"
    and "length (ff_items f) \<le> n \<longrightarrow> length (ff_items g) \<le> n"
  using assms
proof (induction rule: fifo_run.induct)
  case (cons f e g es h)
  { case 1 then show ?case using cons by (cases rule: fifo_step.cases) auto }
  { case 2 then show ?case using cons by (cases rule: fifo_step.cases) auto }
  { case 3 then show ?case using cons by (cases rule: fifo_step.cases) auto }
qed simp_all

lemma fifo_run_conserves:
  assumes "fifo_run n f es g" and "finite {t. ff_taken f t \<noteq> None}"
  shows "in_hand f + mset (take (takes es) (ff_items f @ puts es)) = mset (returned es) + in_hand g"
  using assms
proof (induction rule: fifo_run.induct)
  case (cons f e g es h)
  have IH: "in_hand g + mset (take (takes es) (ff_items g @ puts es)) = mset (returned es) + in_hand h"
    by (rule cons.IH) (rule finite_taken_step [OF cons.hyps(1) cons.prems])
  from cons.hyps(1) show ?case
  proof (cases rule: fifo_step.cases)
    case (taken d xs t)
    then show ?thesis using IH in_hand_take [OF cons.prems, of t] by simp
  next
    case (dequeued t d)
    then show ?thesis using IH in_hand_return [OF cons.prems, of t] by simp
  qed (use IH in \<open>simp_all add: in_hand_def\<close>)
qed simp

locale fifo_object =
  fixes runs :: "'s \<Rightarrow> (nat \<times> 'a queue_event) list \<Rightarrow> bool"
    and idle :: "'s \<Rightarrow> bool"
    and capacity :: nat
  assumes refines: "runs s es \<Longrightarrow> \<exists>f. fifo_run capacity fifo_init es f \<and> (idle s \<longrightarrow> fifo_quiet f)"
begin

lemma within_capacity: "runs s es \<Longrightarrow> takes es \<le> length (puts es) \<and> length (puts es) \<le> takes es + capacity"
  using refines fifo_run_items by (fastforce simp: fifo_init_def)

lemma nothing_lost:
  assumes "runs s es" and "idle s"
  shows "mset (returned es) = mset (take (takes es) (puts es))"
proof -
  obtain f where f: "fifo_run capacity fifo_init es f" "fifo_quiet f"
    using refines [OF assms(1)] assms(2) by blast
  have init: "in_hand (fifo_init :: 'a fifo) = {#}" by (rule in_hand_quiet) (simp add: fifo_init_def
      fifo_quiet_def)
  show ?thesis
    using fifo_run_conserves [OF f(1)] in_hand_quiet [OF f(2)] init by (simp add: fifo_init_def)
qed

lemma returned_was_put:
  assumes "runs s es"
  shows "mset (returned es) \<subseteq># mset (puts es)"
proof -
  obtain f where f: "fifo_run capacity fifo_init es f"
    using refines [OF assms] by blast
  have init: "in_hand (fifo_init :: 'a fifo) = {#}" by (rule in_hand_quiet) (simp add: fifo_init_def
      fifo_quiet_def)
  have "mset (returned es) \<subseteq># mset (take (takes es) (puts es))"
    using fifo_run_conserves [OF f] init by (simp add: fifo_init_def)
  also have "\<dots> \<subseteq># mset (puts es)"
    by (metis append_take_drop_id mset_append mset_subset_eq_add_left)
  finally show ?thesis .
qed

end

end
