(* ===== verification/Mpmc_Props.thy ===== *)
theory Mpmc_Props
  imports Queue_Contract
begin

text \<open>
  Proofs about the queue of \<^verbatim>\<open>include/cql_mpmc_queue.hpp\<close>: every step of every thread keeps
  the invariant of \<open>Mpmc_Queue\<close> and simulates the abstract queue (\<open>simulates\<close>), which gives
  the refinement, the behaviour of a thread that runs alone, and what goes wrong at capacity one.
\<close>

subsection \<open>Preservation of the invariant\<close>

lemma holder_same:
  assumes "f p = f (pc t)"
  shows "holder f (pc(t := p)) = holder f pc"
  using assms by (auto simp: holder_def fun_eq_iff)

lemma exclusive_same:
  assumes "f p = f (pc t)"
  shows "exclusive f (pc(t := p)) = exclusive f pc"
proof -
  have "f ((pc(t := p)) u) = f (pc u)" for u using assms by simp
  then show ?thesis by (simp only: exclusive_def)
qed

lemma pc_ok_cong:
  assumes "holder reading pc = holder reading pc'" and "holder writing pc = holder writing pc'"
  shows "pc_ok n E T pc p = pc_ok n E T pc' p"
  using assms by (cases p) simp_all

lemma quiet_step:
  assumes ok: "mpmc_ok n E T s"
    and p: "writing p = writing (th_pc s t)" "reading p = reading (th_pc s t)"
      "filling p = filling (th_pc s t)" "pc_ok n E T (th_pc s) p"
  shows "mpmc_ok n E T (s\<lparr>th_pc := (th_pc s)(t := p)\<rparr>)"
    and "fifo_of E T (s\<lparr>th_pc := (th_pc s)(t := p)\<rparr>) = fifo_of E T s"
proof -
  note same = holder_same [of writing p "th_pc s" t, OF p(1)] holder_same [of reading p "th_pc s" t,
      OF p(2)]
    holder_same [of filling p "th_pc s" t, OF p(3)] exclusive_same [of writing p "th_pc s" t, OF p(1)]
    exclusive_same [of reading p "th_pc s" t, OF p(2)]
  have "pc_ok n E T ((th_pc s)(t := p)) u' = pc_ok n E T (th_pc s) u'" for u'
    by (rule pc_ok_cong) (simp_all add: same)
  then show "mpmc_ok n E T (s\<lparr>th_pc := (th_pc s)(t := p)\<rparr>)"
    using ok p(4) by (simp add: mpmc_ok_def slots_ok_def data_ok_def tickets_ok_def slot_seq_def same)
  show "fifo_of E T (s\<lparr>th_pc := (th_pc s)(t := p)\<rparr>) = fifo_of E T s"
    using p by (auto simp: fifo_of_def fun_eq_iff)
qed

lemma node_index_shape:
  assumes "shape_ok n H T q" and "i < 2 ^ 64"
  shows "node_index q (of_nat i) = i mod n"
  using assms by (auto simp: shape_ok_def intro!: node_index_of_nat)

text \<open>The slot of a ticket is used again \<open>n\<close> tickets later.\<close>

lemma node_at_wrap:
  assumes "shape_ok n H T q"
  shows "node_at q (of_nat (T + n)) = node_at q (of_nat T)"
proof -
  have "T + n < 2 ^ 64" using assms by (auto simp: shape_ok_def)
  then show ?thesis
    using node_index_shape [OF assms, of "T + n"] node_index_shape [OF assms, of T]
    by (simp add: node_at_def)
qed

lemma node_at_store_seq:
  assumes "shape_ok n H T q" and "i < 2 ^ 64" and "j < 2 ^ 64"
  shows "node_at (store_seq x (of_nat j) q) (of_nat i) =
    (if i mod n = j mod n then (node_at q (of_nat i))\<lparr>nd_seq := x\<rparr> else node_at q (of_nat i))"
proof -
  have "node_index (store_seq x (of_nat j) q) w = node_index q w" for w
    by (simp add: node_index_def store_seq_def)
  moreover have "j mod n < length (mq_buffer q)" using assms(1) by (auto simp: shape_ok_def)
  ultimately show ?thesis
    using assms by (simp add: node_at_def store_seq_def node_index_shape)
qed

lemma node_at_store_data:
  assumes "shape_ok n H T q" and "i < 2 ^ 64" and "j < 2 ^ 64"
  shows "node_at (store_data x (of_nat j) q) (of_nat i) =
    (if i mod n = j mod n then (node_at q (of_nat i))\<lparr>nd_data := x\<rparr> else node_at q (of_nat i))"
proof -
  have "node_index (store_data x (of_nat j) q) w = node_index q w" for w
    by (simp add: node_index_def store_data_def)
  moreover have "j mod n < length (mq_buffer q)" using assms(1) by (auto simp: shape_ok_def)
  ultimately show ?thesis
    using assms by (simp add: node_at_def store_data_def node_index_shape)
qed

lemma shape_ok_store [simp]:
  "shape_ok n H T (store_seq x w q) = shape_ok n H T q"
  "shape_ok n H T (store_data d w q) = shape_ok n H T q"
  by (simp_all add: shape_ok_def store_seq_def store_data_def)

lemma mpmc_okD:
  assumes "mpmc_ok n E T s"
  shows "shape_ok n (length E) T (th_queue s)" and "T \<le> length E" and "length E \<le> T + n"
    and "length E + n < 2 ^ 63" and "2 \<le> n"
    and "mq_head_seq (th_queue s) = of_nat (length E)" and "mq_tail_seq (th_queue s) = of_nat T"
    and "exclusive writing (th_pc s)" and "exclusive reading (th_pc s)" and "exclusive filling (th_pc s)"
    and "\<And>i. holder writing (th_pc s) i \<Longrightarrow> T \<le> i \<and> i < length E"
    and "\<And>i. holder reading (th_pc s) i \<Longrightarrow> i < T \<and> length E \<le> i + n"
    and "\<And>t. pc_ok n E T (th_pc s) (th_pc s t)"
  using assms exclusive_filling [of "th_pc s"]
  by (auto simp: mpmc_ok_def shape_ok_def tickets_ok_def gr0_conv_Suc)

lemma enqueue_claim_ok:
  assumes ok: "mpmc_ok n E T s" and pc: "th_pc s t = EnqClaim d h" and h: "mq_head_seq (th_queue s) = h"
    and bound: "length E + 1 + n < 2 ^ 63"
  shows "mpmc_ok n (E @ [d]) T
    \<lparr>th_queue = (th_queue s)\<lparr>mq_head_seq := h + 1\<rparr>, th_pc = (th_pc s)(t := EnqWrite d h)\<rparr>"
proof -
  let ?H = "length E" and ?pc = "(th_pc s)(t := EnqWrite d h)"
  note inv = mpmc_okD [OF ok]
  have head: "h = of_nat ?H" and uh: "unat h = ?H"
    using inv(6) h bound by (auto simp: unat_of_nat_64)
  have free: "?H < T + n" "\<not> (n \<le> ?H \<and> holder reading (th_pc s) (?H - n))"
    using inv(13) [of t] pc uh by auto
  have hold: "holder writing ?pc i \<longleftrightarrow> i = ?H \<or> holder writing (th_pc s) i"
    "holder filling ?pc i \<longleftrightarrow> i = ?H \<or> holder filling (th_pc s) i"
    "holder reading ?pc i \<longleftrightarrow> holder reading (th_pc s) i" for i
    using inv(8-10) pc uh by (auto simp: holder_upd)
  have "shape_ok n (length (E @ [d])) T ((th_queue s)\<lparr>mq_head_seq := h + 1\<rparr>)"
    using inv(1) head free(1) bound by (auto simp: shape_ok_def)
  moreover have "slots_ok n (length (E @ [d])) T ((th_queue s)\<lparr>mq_head_seq := h + 1\<rparr>) ?pc"
    using ok free by (auto simp: mpmc_ok_def slots_ok_def slot_seq_def hold node_at_def
      node_index_def less_Suc_eq)
  moreover have "data_ok (E @ [d]) T ((th_queue s)\<lparr>mq_head_seq := h + 1\<rparr>) ?pc"
    using ok inv(2) inv(12) [of ?H]
    by (auto simp: mpmc_ok_def data_ok_def hold node_at_def node_index_def less_Suc_eq nth_append)
  moreover have "tickets_ok n (length (E @ [d])) T ?pc"
  proof -
    have "exclusive writing ?pc"
      using inv(11) [of ?H] uh by (intro exclusive_upd inv(8)) auto
    moreover have "exclusive reading ?pc"
      using inv(9) pc by (simp add: exclusive_same)
    moreover have "Suc ?H \<le> i + n" if "holder reading (th_pc s) i" for i
      using inv(12) [OF that] free(2) that by (cases "?H = i + n") auto
    ultimately show ?thesis
      using inv(2) inv(11,12) by (force simp: tickets_ok_def hold)
  qed
  moreover have "pc_ok n (E @ [d]) T ?pc (?pc u)" for u
    using inv(13) [of u] inv(2) inv(11) [OF holderI, of u] inv(12) [OF holderI, of u] uh
    by (cases "th_pc s u") (auto simp: hold nth_append)
  ultimately show ?thesis by (simp add: mpmc_ok_def)
qed

lemma enqueue_claim_fifo:
  assumes ok: "mpmc_ok n E T s" and pc: "th_pc s t = EnqClaim d h" and h: "mq_head_seq (th_queue s) = h"
  shows "fifo_step n (fifo_of E T s) (t, Claimed d) (fifo_of (E @ [d]) T
    \<lparr>th_queue = (th_queue s)\<lparr>mq_head_seq := h + 1\<rparr>, th_pc = (th_pc s)(t := EnqWrite d h)\<rparr>)"
proof -
  note inv = mpmc_okD [OF ok]
  have "unat h = length E" using inv(4,6) h by (auto simp: unat_of_nat_64)
  then have room: "length E < T + n" using inv(13) [of t] pc by auto
  have "reading (th_pc s u) = Some i \<Longrightarrow> i < length E" for u i
    using inv(2) inv(12) [OF holderI, of u i] by simp
  then have "map_option ((!) (E @ [d])) (reading (th_pc s u)) =
      map_option ((!) E) (reading (th_pc s u))" for u
    by (cases "reading (th_pc s u)") (auto simp: nth_append)
  then have "fifo_of (E @ [d]) T
      \<lparr>th_queue = (th_queue s)\<lparr>mq_head_seq := h + 1\<rparr>, th_pc = (th_pc s)(t := EnqWrite d h)\<rparr> =
    (fifo_of E T s)\<lparr>ff_items := ff_items (fifo_of E T s) @ [d], ff_putting :=
      (ff_putting (fifo_of E T s))(t := True)\<rparr>"
    using pc inv(2) by (auto simp: fifo_of_def fun_eq_iff)
  moreover have "fifo_step n (fifo_of E T s) (t, Claimed d) ((fifo_of E T s)
      \<lparr>ff_items := ff_items (fifo_of E T s) @ [d], ff_putting := (ff_putting (fifo_of E T s))(t := True)\<rparr>)"
    using room pc inv(2) by (intro fifo_step.claimed) (auto simp: fifo_of_def)
  ultimately show ?thesis by simp
qed

lemma enqueue_write_ok:
  assumes ok: "mpmc_ok n E T s" and pc: "th_pc s t = EnqWrite d h"
  shows "mpmc_ok n E T
      \<lparr>th_queue = store_data (Some d) h (th_queue s), th_pc = (th_pc s)(t := EnqPublish h)\<rparr>"
    and "fifo_of E T \<lparr>th_queue = store_data (Some d) h (th_queue s), th_pc = (th_pc s)(t := EnqPublish h)\<rparr> =
      fifo_of E T s"
proof -
  let ?H = "length E" and ?pc = "(th_pc s)(t := EnqPublish h)"
  note inv = mpmc_okD [OF ok]
  obtain j where h: "h = of_nat j" and uh: "unat h = j"
    by (metis of_nat_unat ucast_id)
  have j: "T \<le> j" "j < ?H" and d: "E ! j = d"
    using inv(11) [OF holderI, of t j] inv(13) [of t] pc uh by auto
  have hold: "holder writing ?pc = holder writing (th_pc s)" "holder reading ?pc = holder reading (th_pc s)"
    "holder filling ?pc i \<longleftrightarrow> holder filling (th_pc s) i \<and> i \<noteq> j" for i
    using inv(10) pc uh by (auto simp: holder_same holder_upd)
  have node: "node_at (store_data (Some d) h (th_queue s)) (of_nat i) =
      (if i mod n = j mod n then (node_at (th_queue s) (of_nat i))\<lparr>nd_data := Some d\<rparr>
        else node_at (th_queue s) (of_nat i))"
    if "i < 2 ^ 64" for i
    using node_at_store_data [OF inv(1) that, of j "Some d"] inv(4) j h by simp
  have seq: "nd_seq (node_at (store_data (Some d) h (th_queue s)) (of_nat i)) =
      nd_seq (node_at (th_queue s) (of_nat i))"
    if "i < 2 ^ 64" for i
    by (simp add: node [OF that])
  have "slots_ok n ?H T (store_data (Some d) h (th_queue s)) ?pc"
    using ok inv(2,4) seq by (simp add: mpmc_ok_def slots_ok_def slot_seq_def hold)
  moreover have "data_ok E T (store_data (Some d) h (th_queue s)) ?pc"
    unfolding data_ok_def
  proof (intro allI impI)
    fix i assume i: "i < ?H" and a: "T \<le> i \<and> \<not> holder filling ?pc i \<or> holder reading ?pc i"
    have i64: "i < 2 ^ 64" using i inv(4) by simp
    have "?H \<le> i + n" using a inv(3) inv(12) [of i] by (auto simp: hold)
    then have "i = j" if "i mod n = j mod n"
      using mod_window [OF that, of "?H - n"] i j inv(3) by simp
    then show "nd_data (node_at (store_data (Some d) h (th_queue s)) (of_nat i)) = Some (E ! i)"
      using ok i a d by (auto simp: node [OF i64] mpmc_ok_def data_ok_def hold)
  qed
  moreover have "tickets_ok n ?H T ?pc"
    using inv(8,9,11,12) pc by (simp add: tickets_ok_def hold exclusive_same)
  moreover have "pc_ok n E T ?pc (?pc u)" for u
    using inv(13) [of u] pc_ok_cong [of ?pc "th_pc s"] by (simp add: hold)
  ultimately show "mpmc_ok n E T
      \<lparr>th_queue = store_data (Some d) h (th_queue s), th_pc = (th_pc s)(t := EnqPublish h)\<rparr>"
    using inv(1) by (simp add: mpmc_ok_def)
  show "fifo_of E T \<lparr>th_queue = store_data (Some d) h (th_queue s), th_pc = (th_pc s)(t := EnqPublish h)\<rparr> =
      fifo_of E T s"
    using pc by (auto simp: fifo_of_def fun_eq_iff)
qed

lemma enqueue_publish_ok:
  assumes ok: "mpmc_ok n E T s" and pc: "th_pc s t = EnqPublish h"
  shows "mpmc_ok n E T \<lparr>th_queue = store_seq (h + 1) h (th_queue s), th_pc = (th_pc s)(t := Idle)\<rparr>"
proof -
  let ?H = "length E" and ?pc = "(th_pc s)(t := Idle)" and ?q = "store_seq (h + 1) h (th_queue s)"
  note inv = mpmc_okD [OF ok]
  obtain j where h: "h = of_nat j" and uh: "unat h = j"
    by (metis of_nat_unat ucast_id)
  have j: "T \<le> j" "j < ?H"
    using inv(11) [OF holderI, of t j] pc uh by auto
  have hold: "holder writing ?pc i \<longleftrightarrow> holder writing (th_pc s) i \<and> i \<noteq> j"
    "holder reading ?pc = holder reading (th_pc s)" "holder filling ?pc = holder filling (th_pc s)" for i
    using inv(8) pc uh by (auto simp: holder_same holder_upd)
  have node: "node_at ?q (of_nat i) = (if i mod n = j mod n
      then (node_at (th_queue s) (of_nat i))\<lparr>nd_seq := of_nat (Suc j)\<rparr>
      else node_at (th_queue s) (of_nat i))" if "i < 2 ^ 64" for i
    using node_at_store_seq [OF inv(1) that, of j "of_nat (Suc j)"] inv(4) j h by (simp add: add.commute)
  have "slots_ok n ?H T ?q ?pc"
    unfolding slots_ok_def
  proof (intro allI impI)
    fix i assume i: "T \<le> i \<and> i < T + n"
    then have i64: "i < 2 ^ 64" using inv(2,4) by simp
    have "i = j" if "i mod n = j mod n"
      using mod_window [OF that, of T] i j inv(3) by simp
    then show "nd_seq (node_at ?q (of_nat i)) = of_nat (slot_seq n ?H ?pc i)"
      using ok i j by (auto simp: node [OF i64] mpmc_ok_def slots_ok_def slot_seq_def hold)
  qed
  moreover have "data_ok E T ?q ?pc"
    using ok inv(4) node by (auto simp: mpmc_ok_def data_ok_def hold)
  moreover have "tickets_ok n ?H T ?pc"
    using inv(8,9,11,12) pc by (auto simp: tickets_ok_def hold exclusive_same intro: exclusive_upd)
  moreover have "pc_ok n E T ?pc (?pc u)" for u
    using inv(13) [of u] by (cases "th_pc s u") (auto simp: hold)
  ultimately show ?thesis
    using inv(1) by (simp add: mpmc_ok_def)
qed

lemma enqueue_publish_fifo:
  assumes "th_pc s t = EnqPublish h"
  shows "fifo_step n (fifo_of E T s) (t, Enqueued) (fifo_of E T \<lparr>th_queue = q, th_pc =
      (th_pc s)(t := Idle)\<rparr>)"
proof -
  have "fifo_of E T \<lparr>th_queue = q, th_pc = (th_pc s)(t := Idle)\<rparr> =
      (fifo_of E T s)\<lparr>ff_putting := (ff_putting (fifo_of E T s))(t := False)\<rparr>"
    using assms by (auto simp: fifo_of_def fun_eq_iff)
  moreover have "fifo_step n (fifo_of E T s) (t, Enqueued) ((fifo_of E T s)\<lparr>ff_putting :=
      (ff_putting (fifo_of E T s))(t := False)\<rparr>)"
    using assms by (intro fifo_step.enqueued) (auto simp: fifo_of_def)
  ultimately show ?thesis by simp
qed

lemma dequeue_claim_ok:
  assumes ok: "mpmc_ok n E T s" and pc: "th_pc s t = DeqClaim h" and h: "mq_tail_seq (th_queue s) = h"
  shows "mpmc_ok n E (Suc T)
    \<lparr>th_queue = (th_queue s)\<lparr>mq_tail_seq := h + 1\<rparr>, th_pc = (th_pc s)(t := DeqRead h)\<rparr>"
proof -
  let ?H = "length E" and ?pc = "(th_pc s)(t := DeqRead h)" and ?q = "(th_queue s)\<lparr>mq_tail_seq := h + 1\<rparr>"
  note inv = mpmc_okD [OF ok]
  have tail: "h = of_nat T" and uh: "unat h = T"
    using inv(2,4,7) h by (auto simp: unat_of_nat_64)
  have pub: "T < ?H" "\<not> holder writing (th_pc s) T"
    using inv(13) [of t] pc uh by auto
  have hold: "holder reading ?pc i \<longleftrightarrow> i = T \<or> holder reading (th_pc s) i"
    "holder writing ?pc = holder writing (th_pc s)" "holder filling ?pc = holder filling (th_pc s)" for i
    using inv(9) pc uh by (auto simp: holder_same holder_upd)
  have node: "node_at ?q w = node_at (th_queue s) w" for w
    by (simp add: node_at_def node_index_def)
  have "shape_ok n ?H (Suc T) ?q"
    using inv(1) tail pub(1) by (auto simp: shape_ok_def)
  moreover have "slots_ok n ?H (Suc T) ?q ?pc"
    unfolding slots_ok_def
  proof (intro allI impI)
    fix i assume i: "Suc T \<le> i \<and> i < Suc T + n"
    have old: "nd_seq (node_at (th_queue s) (of_nat k)) = of_nat (slot_seq n ?H (th_pc s) k)"
      if "T \<le> k" "k < T + n" for k
      using ok that by (simp add: mpmc_ok_def slots_ok_def)
    show "nd_seq (node_at ?q (of_nat i)) = of_nat (slot_seq n ?H ?pc i)"
    proof (cases "i = T + n")
      case True
      then have "node_at (th_queue s) (of_nat i) = node_at (th_queue s) (of_nat T)"
        using node_at_wrap [OF inv(1)] by simp
      then show ?thesis
        using True old [of T] pub inv(3,5) by (simp add: node slot_seq_def hold)
    next
      case False
      then show ?thesis
        using old [of i] i by (auto simp: node slot_seq_def hold)
    qed
  qed
  moreover have "data_ok E (Suc T) ?q ?pc"
    using ok pub holder_filling [of "th_pc s" T] by (auto simp: mpmc_ok_def data_ok_def hold node)
  moreover have "tickets_ok n ?H (Suc T) ?pc"
  proof -
    have "exclusive reading ?pc"
      using inv(12) [of T] uh by (intro exclusive_upd inv(9)) auto
    moreover have "Suc T \<le> i" if "holder writing (th_pc s) i" for i
      using inv(11) [OF that] pub(2) that by (cases "i = T") auto
    ultimately show ?thesis
      using inv(3,8,11) inv(12) pc by (auto simp: tickets_ok_def hold exclusive_same less_Suc_eq)
  qed
  moreover have "pc_ok n E (Suc T) ?pc (?pc u)" for u
    using inv(13) [of u] inv(2) by (cases "th_pc s u") (auto simp: hold)
  ultimately show ?thesis by (simp add: mpmc_ok_def)
qed

lemma dequeue_claim_fifo:
  assumes ok: "mpmc_ok n E T s" and pc: "th_pc s t = DeqClaim h" and h: "mq_tail_seq (th_queue s) = h"
  shows "fifo_step n (fifo_of E T s) (t, Taken) (fifo_of E (Suc T)
    \<lparr>th_queue = q, th_pc = (th_pc s)(t := DeqRead h)\<rparr>)"
proof -
  note inv = mpmc_okD [OF ok]
  have uh: "unat h = T" using inv(2,4,7) h by (auto simp: unat_of_nat_64)
  then have items: "drop T E = E ! T # drop (Suc T) E"
    using inv(13) [of t] pc by (auto simp: Cons_nth_drop_Suc)
  have "fifo_of E (Suc T) \<lparr>th_queue = q, th_pc = (th_pc s)(t := DeqRead h)\<rparr> =
    (fifo_of E T s)\<lparr>ff_items := drop (Suc T) E, ff_taken := (ff_taken (fifo_of E T s))(t := Some (E ! T))\<rparr>"
    using pc uh by (auto simp: fifo_of_def fun_eq_iff)
  moreover have "fifo_step n (fifo_of E T s) (t, Taken)
      ((fifo_of E T s)\<lparr>ff_items := drop (Suc T) E, ff_taken := (ff_taken (fifo_of E T s))(t :=
        Some (E ! T))\<rparr>)"
    using pc items by (intro fifo_step.taken) (auto simp: fifo_of_def)
  ultimately show ?thesis by simp
qed

lemma dequeue_release_ok:
  assumes ok: "mpmc_ok n E T s" and pc: "th_pc s t = DeqRelease d h"
  shows "mpmc_ok n E T
    \<lparr>th_queue = store_seq (h + mq_mask (th_queue s) + 1) h (th_queue s), th_pc = (th_pc s)(t := Idle)\<rparr>"
proof -
  let ?H = "length E" and ?pc = "(th_pc s)(t := Idle)"
    and ?q = "store_seq (h + mq_mask (th_queue s) + 1) h (th_queue s)"
  note inv = mpmc_okD [OF ok]
  obtain j where h: "h = of_nat j" and uh: "unat h = j"
    by (metis of_nat_unat ucast_id)
  have j: "j < T" "?H \<le> j + n"
    using inv(12) [OF holderI, of t j] pc uh by auto
  have hold: "holder reading ?pc i \<longleftrightarrow> holder reading (th_pc s) i \<and> i \<noteq> j"
    "holder writing ?pc = holder writing (th_pc s)" "holder filling ?pc = holder filling (th_pc s)" for i
    using inv(9) pc uh by (auto simp: holder_same holder_upd)
  have x: "h + mq_mask (th_queue s) + 1 = of_nat (j + n)"
    using inv(1) h by (simp add: shape_ok_def)
  have node: "node_at ?q (of_nat i) = (if i mod n = j mod n
      then (node_at (th_queue s) (of_nat i))\<lparr>nd_seq := of_nat (j + n)\<rparr>
      else node_at (th_queue s) (of_nat i))" if "i < 2 ^ 64" for i
    using node_at_store_seq [OF inv(1) that, of j "of_nat (j + n)"] inv(2,4) j h unfolding x by simp
  have "slots_ok n ?H T ?q ?pc"
    unfolding slots_ok_def
  proof (intro allI impI)
    fix i assume i: "T \<le> i \<and> i < T + n"
    then have i64: "i < 2 ^ 64" using inv(2,4) by simp
    have "i mod n = j mod n \<longleftrightarrow> i = j + n"
      using mod_window [of i n "j + n" T] i j inv(2) by auto
    then show "nd_seq (node_at ?q (of_nat i)) = of_nat (slot_seq n ?H ?pc i)"
      using ok i j by (auto simp: node [OF i64] mpmc_ok_def slots_ok_def slot_seq_def hold)
  qed
  moreover have "data_ok E T ?q ?pc"
    using ok inv(4) node by (auto simp: mpmc_ok_def data_ok_def hold)
  moreover have "tickets_ok n ?H T ?pc"
    using inv(8,9,11,12) pc by (auto simp: tickets_ok_def hold exclusive_same intro: exclusive_upd)
  moreover have "pc_ok n E T ?pc (?pc u)" for u
    using inv(13) [of u] by (cases "th_pc s u") (auto simp: hold)
  ultimately show ?thesis
    using inv(1) by (simp add: mpmc_ok_def)
qed

lemma dequeue_release_fifo:
  assumes ok: "mpmc_ok n E T s" and pc: "th_pc s t = DeqRelease d h"
  shows "fifo_step n (fifo_of E T s) (t, Dequeued d) (fifo_of E T \<lparr>th_queue = q, th_pc =
      (th_pc s)(t := Idle)\<rparr>)"
proof -
  have d: "d = Some (E ! unat h)" using mpmc_okD(13) [OF ok, of t] pc by simp
  have "fifo_of E T \<lparr>th_queue = q, th_pc = (th_pc s)(t := Idle)\<rparr> =
      (fifo_of E T s)\<lparr>ff_taken := (ff_taken (fifo_of E T s))(t := None)\<rparr>"
    using pc by (auto simp: fifo_of_def fun_eq_iff)
  moreover have "fifo_step n (fifo_of E T s) (t, Dequeued d) ((fifo_of E T s)\<lparr>ff_taken :=
      (ff_taken (fifo_of E T s))(t := None)\<rparr>)"
    using pc unfolding d by (intro fifo_step.dequeued) (simp add: fifo_of_def)
  ultimately show ?thesis by simp
qed

lemma probe_seq:
  assumes ok: "mpmc_ok n E T s" and j: "j < T + n"
  obtains x where "nd_seq (node_at (th_queue s) (of_nat j)) = of_nat x" and "x < 2 ^ 63"
    and "j < T \<Longrightarrow> j < x" and "T \<le> j \<Longrightarrow> x = slot_seq n (length E) (th_pc s) j"
proof -
  note inv = mpmc_okD [OF ok]
  define i where "i = (if T \<le> j then j else T + (j + n * T - T) mod n)"
  have n: "0 < n" using inv(5) by simp
  have i: "T \<le> i" "i < T + n" using j n by (auto simp: i_def)
  have "i mod n = j mod n"
  proof (cases "T \<le> j")
    case False
    have "T \<le> j + n * T" using n by (simp add: trans_le_add2)
    then have "i mod n = (j + n * T) mod n" using False by (simp add: i_def mod_add_right_eq)
    then show ?thesis by simp
  qed (simp add: i_def)
  then have "node_at (th_queue s) (of_nat j) = node_at (th_queue s) (of_nat i)"
    using node_index_shape [OF inv(1), of i] node_index_shape [OF inv(1), of j] i j inv(2,4)
    by (simp add: node_at_def)
  then have x: "nd_seq (node_at (th_queue s) (of_nat j)) = of_nat (slot_seq n (length E) (th_pc s) i)"
    using ok i by (simp add: mpmc_ok_def slots_ok_def)
  have "slot_seq n (length E) (th_pc s) i < 2 ^ 63"
    using i inv(2,4,5) by (auto simp: slot_seq_def)
  moreover have "j < slot_seq n (length E) (th_pc s) i" if "j < T"
  proof -
    have "j + n \<le> i"
      using \<open>i mod n = j mod n\<close> mod_window [of j n i j] that i by (cases "j + n \<le> i") auto
    then show ?thesis using n by (auto simp: slot_seq_def)
  qed
  ultimately show ?thesis
    using x that [of "slot_seq n (length E) (th_pc s) i"] by (auto simp: i_def)
qed

lemma enqueue_probe:
  assumes ok: "mpmc_ok n E T s" and pc: "th_pc s t = EnqProbe d h"
  defines "dif \<equiv> intptr_diff (nd_seq (node_at (th_queue s) h)) h"
  shows "dif = 0 \<Longrightarrow> pc_ok n E T (th_pc s) (EnqClaim d h)"
    and "dif < 0 \<Longrightarrow> fifo_step n (fifo_of E T s) (t, Full) (fifo_of E T s)"
proof -
  note inv = mpmc_okD [OF ok]
  obtain j where h: "h = of_nat j" and uh: "unat h = j"
    by (metis of_nat_unat ucast_id)
  have j: "j \<le> length E" using inv(13) [of t] pc uh by simp
  obtain x where x: "nd_seq (node_at (th_queue s) h) = of_nat x" "x < 2 ^ 63"
    "j < length E \<Longrightarrow> j \<le> x"
    "j = length E \<Longrightarrow> j < T + n \<Longrightarrow> x = slot_seq n (length E) (th_pc s) j"
    "j = length E \<Longrightarrow> j = T + n \<Longrightarrow> x < j"
  proof (cases "j < T + n")
    case True
    from probe_seq [OF ok True] obtain x where
      "nd_seq (node_at (th_queue s) (of_nat j)) = of_nat x" "x < 2 ^ 63"
      "j < T \<Longrightarrow> j < x" "T \<le> j \<Longrightarrow> x = slot_seq n (length E) (th_pc s) j" by blast
    moreover from this have "j < length E \<Longrightarrow> j \<le> x" by (cases "j < T") (auto simp: slot_seq_def)
    ultimately show ?thesis using that [of x] h inv(2) True by auto
  next
    case False
    then have jT: "j = T + n" "j = length E" using j inv(3) by auto
    have "T < T + n" using inv(5) by simp
    from probe_seq [OF ok this] obtain x where
      "nd_seq (node_at (th_queue s) (of_nat T)) = of_nat x" "x < 2 ^ 63" "x =
        slot_seq n (length E) (th_pc s) T"
      by blast
    moreover have "node_at (th_queue s) (of_nat j) = node_at (th_queue s) (of_nat T)"
      using node_at_wrap [OF inv(1)] jT by simp
    ultimately show ?thesis using that [of x] h jT inv(5) by (auto simp: slot_seq_def)
  qed
  have dif: "dif = int x - int j"
    unfolding dif_def x(1) unfolding h using x(2) j inv(4) by (intro intptr_diff_of_nat) auto
  show "pc_ok n E T (th_pc s) (EnqClaim d h)" if "dif = 0"
    using that dif x(4,5) j uh inv(3,5) by (cases "j < T + n") (auto simp: slot_seq_def split: if_splits)
  show "fifo_step n (fifo_of E T s) (t, Full) (fifo_of E T s)" if "dif < 0"
  proof (rule fifo_step.full)
    have "j = length E" using that dif x(3) j by (cases "j < length E") auto
    moreover have "\<exists>u. reading (th_pc s u) \<noteq> None" if "j < T + n"
      using x(4) that \<open>j = length E\<close> dif \<open>dif < 0\<close> by (auto simp: slot_seq_def holder_def split: if_splits)
    ultimately show "length (ff_items (fifo_of E T s)) = n \<or> (\<exists>u d. ff_taken (fifo_of E T s) u = Some d)"
      using inv(3) by (cases "j < T + n") (auto simp: fifo_of_def)
  qed
qed

lemma dequeue_probe:
  assumes ok: "mpmc_ok n E T s" and pc: "th_pc s t = DeqProbe h"
  defines "dif \<equiv> intptr_diff (nd_seq (node_at (th_queue s) h)) (h + 1)"
  shows "dif = 0 \<Longrightarrow> pc_ok n E T (th_pc s) (DeqClaim h)"
    and "dif < 0 \<Longrightarrow> fifo_step n (fifo_of E T s) (t, Empty) (fifo_of E T s)"
proof -
  note inv = mpmc_okD [OF ok]
  obtain j where h: "h = of_nat j" and uh: "unat h = j"
    by (metis of_nat_unat ucast_id)
  have j: "j \<le> T" using inv(13) [of t] pc uh by simp
  then have "j < T + n" using inv(5) by simp
  from probe_seq [OF ok this] obtain x where x: "nd_seq (node_at (th_queue s) h) = of_nat x" "x < 2 ^ 63"
    "j < T \<Longrightarrow> j < x" "T \<le> j \<Longrightarrow> x = slot_seq n (length E) (th_pc s) j" unfolding h by blast
  have h1: "h + 1 = of_nat (Suc j)" by (simp add: h add.commute)
  have dif: "dif = int x - int (Suc j)"
    unfolding dif_def x(1) h1 using x(2) j inv(2,4,5) by (intro intptr_diff_of_nat) auto
  show "pc_ok n E T (th_pc s) (DeqClaim h)" if "dif = 0"
  proof -
    have "x = Suc j" using that dif by simp
    then show ?thesis using x(4) j uh inv(2,5) by (auto simp: slot_seq_def split: if_splits)
  qed
  show "fifo_step n (fifo_of E T s) (t, Empty) (fifo_of E T s)" if "dif < 0"
  proof (rule fifo_step.empty)
    have "j = T" using that dif x(3) j by (cases "j < T") auto
    moreover have "\<exists>u. writing (th_pc s u) \<noteq> None" if "T < length E"
      using x(4) that \<open>j = T\<close> dif \<open>dif < 0\<close> by (auto simp: slot_seq_def holder_def split: if_splits)
    ultimately show "ff_items (fifo_of E T s) = [] \<or> (\<exists>u. ff_putting (fifo_of E T s) u)"
      by (cases "T < length E") (auto simp: fifo_of_def)
  qed
qed

subsection \<open>Simulation\<close>

lemma puts_append [simp]: "puts (es @ es') = puts es @ puts es'"
  by (induction es rule: puts.induct) simp_all

lemma takes_append [simp]: "takes (es @ es') = takes es + takes es'"
  by (induction es rule: takes.induct) simp_all

lemma fifo_run_append: "fifo_run n f es g \<Longrightarrow> fifo_run n g es' h \<Longrightarrow> fifo_run n f (es @ es') h"
  by (induction rule: fifo_run.induct) (auto intro: fifo_run.cons)

lemma fifo_run_single: "fifo_step n f x g \<Longrightarrow> fifo_run n f [x] g"
  by (rule fifo_run.cons [OF _ fifo_run.nil])

text \<open>The concrete run from \<open>s\<close> to \<open>s'\<close> with the events \<open>es\<close> simulates the abstract queue.\<close>

definition simulates :: "nat \<Rightarrow> 'a list \<Rightarrow> nat \<Rightarrow> 'a threads \<Rightarrow> (nat \<times> 'a queue_event) list \<Rightarrow> 'a threads
    \<Rightarrow> bool" where
  "simulates n E T s es s' \<longleftrightarrow>
     mpmc_ok n (E @ puts es) (T + takes es) s' \<and>
     fifo_run n (fifo_of E T s) es (fifo_of (E @ puts es) (T + takes es) s')"

lemma simulates_trans:
  "simulates n E T s es s' \<Longrightarrow> simulates n (E @ puts es) (T + takes es) s' es' s'' \<Longrightarrow>
   simulates n E T s (es @ es') s''"
  by (auto simp: simulates_def add.assoc intro: fifo_run_append)

lemma simulatesI:
  "mpmc_ok n E T s' \<Longrightarrow> fifo_of E T s' = fifo_of E T s \<Longrightarrow> simulates n E T s [] s'"
  "mpmc_ok n (E @ puts [x]) (T + takes [x]) s' \<Longrightarrow>
     fifo_step n (fifo_of E T s) x (fifo_of (E @ puts [x]) (T + takes [x]) s') \<Longrightarrow> simulates n E T s [x] s'"
  unfolding simulates_def by (simp_all add: fifo_run.nil fifo_run_single)

lemma threads_eta: "\<lparr>th_queue = th_queue s, th_pc = p\<rparr> = (s :: 'a threads)\<lparr>th_pc := p\<rparr>"
  by simp

lemma simulates_quiet:
  assumes "mpmc_ok n E T s" and "writing p = writing (th_pc s t)" and "reading p = reading (th_pc s t)"
    and "filling p = filling (th_pc s t)" and "pc_ok n E T (th_pc s) p"
  shows "simulates n E T s [] (s\<lparr>th_pc := (th_pc s)(t := p)\<rparr>)"
  by (rule simulatesI(1)) (rule quiet_step [OF assms])+

lemma simulates_return:
  assumes "mpmc_ok n E T s" and "writing (th_pc s t) = None" and "reading (th_pc s t) = None"
    and "fifo_step n (fifo_of E T s) x (fifo_of E T s)" and "puts [x] = []" and "takes [x] = 0"
  shows "simulates n E T s [x] (s\<lparr>th_pc := (th_pc s)(t := Idle)\<rparr>)"
proof -
  have "filling (th_pc s t) = None" using assms(2) by (cases "th_pc s t") simp_all
  with assms quiet_step [OF assms(1), of Idle t] show ?thesis
    by (intro simulatesI(2)) simp_all
qed

definition events_of :: "nat \<Rightarrow> 'a queue_event option \<Rightarrow> (nat \<times> 'a queue_event) list" where
  "events_of t e = (case e of None \<Rightarrow> [] | Some x \<Rightarrow> [(t, x)])"

lemma events_of_simps [simp]: "events_of t None = []" "events_of t (Some x) = [(t, x)]"
  by (simp_all add: events_of_def)

lemma enqueue_step_simulates:
  assumes ok: "mpmc_ok n E T s" and step: "thread_step spurious (th_queue s) (th_pc s t) = (q, p, e)"
    and bound: "length E + 1 + n < 2 ^ 63"
    and "in_enqueue (th_pc s t)"
  shows "simulates n E T s (events_of t e) \<lparr>th_queue = q, th_pc = (th_pc s)(t := p)\<rparr>"
proof -
  note inv = mpmc_okD [OF ok]
  have heads: "unat (mq_head_seq (th_queue s)) \<le> length E" "unat (mq_tail_seq (th_queue s)) \<le> T"
    using inv(2,4,6,7) by (simp_all add: unat_of_nat_64)
  show ?thesis
  proof (cases "th_pc s t")
    case (EnqLoad d)
    then show ?thesis
      using step heads simulates_quiet [OF ok, of "EnqProbe d (mq_head_seq (th_queue s))" t]
      by (auto simp: thread_step_def threads_eta)
  next
    case (EnqProbe d h)
    then show ?thesis
      using step enqueue_probe [OF ok EnqProbe] simulates_quiet [OF ok, of "EnqClaim d h" t]
        simulates_quiet [OF ok, of "EnqLoad d" t] simulates_return [OF ok, of t "(t, Full)"]
      by (auto simp: thread_step_def threads_eta Let_def split: if_splits)
  next
    case (EnqClaim d h)
    then show ?thesis
      using step heads simulates_quiet [OF ok, of "EnqProbe d (mq_head_seq (th_queue s))" t]
        simulatesI(2) [of n E "(t, Claimed d)" T, simplified, OF enqueue_claim_ok [OF ok EnqClaim _
          bound] enqueue_claim_fifo [OF ok EnqClaim]]
      by (auto simp: thread_step_def threads_eta split: if_splits)
  next
    case (EnqWrite d h)
    then show ?thesis
      using step simulatesI(1) [OF enqueue_write_ok [OF ok EnqWrite]]
      by (auto simp: thread_step_def)
  next
    case (EnqPublish h)
    then show ?thesis
      using step simulatesI(2) [of n E "(t, Enqueued)" T, simplified,
        OF enqueue_publish_ok [OF ok EnqPublish] enqueue_publish_fifo [OF EnqPublish]]
      by (auto simp: thread_step_def)
  qed (use assms(4) in simp_all)
qed

lemma dequeue_step_simulates:
  assumes ok: "mpmc_ok n E T s" and step: "thread_step spurious (th_queue s) (th_pc s t) = (q, p, e)"
    and bound: "length E + 1 + n < 2 ^ 63"
    and "\<not> in_enqueue (th_pc s t)"
  shows "simulates n E T s (events_of t e) \<lparr>th_queue = q, th_pc = (th_pc s)(t := p)\<rparr>"
proof -
  note inv = mpmc_okD [OF ok]
  have heads: "unat (mq_head_seq (th_queue s)) \<le> length E" "unat (mq_tail_seq (th_queue s)) \<le> T"
    using inv(2,4,6,7) by (simp_all add: unat_of_nat_64)
  show ?thesis
  proof (cases "th_pc s t")
    case Idle
    then show ?thesis
      using step simulates_quiet [OF ok, of Idle t] by (auto simp: thread_step_def threads_eta)
  next
    case DeqLoad
    then show ?thesis
      using step heads simulates_quiet [OF ok, of "DeqProbe (mq_tail_seq (th_queue s))" t]
      by (auto simp: thread_step_def threads_eta)
  next
    case (DeqProbe h)
    then show ?thesis
      using step dequeue_probe [OF ok DeqProbe] simulates_quiet [OF ok, of "DeqClaim h" t]
        simulates_quiet [OF ok, of DeqLoad t] simulates_return [OF ok, of t "(t, Empty)"]
      by (auto simp: thread_step_def threads_eta Let_def split: if_splits)
  next
    case (DeqClaim h)
    then show ?thesis
      using step heads simulates_quiet [OF ok, of "DeqProbe (mq_tail_seq (th_queue s))" t]
        simulatesI(2) [of n E "(t, Taken)" T, simplified, OF dequeue_claim_ok [OF ok DeqClaim]
          dequeue_claim_fifo [OF ok DeqClaim]]
      by (auto simp: thread_step_def threads_eta split: if_splits)
  next
    case (DeqRead h)
    have "holder reading (th_pc s) (unat h)" by (rule holderI [of _ _ t]) (simp add: DeqRead)
    moreover have "data_ok E T (th_queue s) (th_pc s)" using ok by (simp add: mpmc_ok_def)
    ultimately have "nd_data (node_at (th_queue s) (of_nat (unat h))) = Some (E ! unat h)"
      using inv(2) inv(12) [of "unat h"] unfolding data_ok_def by (auto dest: spec [of _ "unat h"])
    then have "nd_data (node_at (th_queue s) h) = Some (E ! unat h)" by simp
    then show ?thesis
      using step DeqRead simulates_quiet [OF ok, of "DeqRelease (nd_data (node_at (th_queue s) h)) h" t]
      by (auto simp: thread_step_def threads_eta)
  next
    case (DeqRelease d h)
    then show ?thesis
      using step simulatesI(2) [of n E "(t, Dequeued d)" T, simplified,
        OF dequeue_release_ok [OF ok DeqRelease] dequeue_release_fifo [OF ok DeqRelease]]
      by (auto simp: thread_step_def)
  qed (use assms(4) in simp_all)
qed

lemma thread_step_simulates:
  assumes ok: "mpmc_ok n E T s" and step: "thread_step spurious (th_queue s) (th_pc s t) = (q, p, e)"
    and bound: "length E + 1 + n < 2 ^ 63"
  shows "simulates n E T s (events_of t e) \<lparr>th_queue = q, th_pc = (th_pc s)(t := p)\<rparr>"
  using enqueue_step_simulates [OF assms] dequeue_step_simulates [OF assms] by blast

lemma schedule_Cons:
  assumes "act a s = (e, s')"
  shows "schedule (a # as) s = ((case e of None \<Rightarrow> [] | Some x \<Rightarrow> [x]) @ fst (schedule as s'),
      snd (schedule as s'))"
  using assms by (simp split: prod.splits option.splits)

lemma act_simulates:
  assumes ok: "mpmc_ok n E T s" and act: "act a s = (e, s')" and bound: "length E + 1 + n < 2 ^ 63"
  shows "simulates n E T s (case e of None \<Rightarrow> [] | Some x \<Rightarrow> [x]) s'"
proof (cases a)
  case (CallEnqueue t d)
  then show ?thesis
    using act ok simulates_quiet [OF ok, of "EnqLoad d" t]
      by (auto simp: simulates_def fifo_run.nil split: if_splits)
next
  case (CallDequeue t)
  then show ?thesis
    using act ok simulates_quiet [OF ok, of DeqLoad t]
      by (auto simp: simulates_def fifo_run.nil split: if_splits)
next
  case (Advance t spurious)
  obtain q p x where step: "thread_step spurious (th_queue s) (th_pc s t) = (q, p, x)"
    by (cases "thread_step spurious (th_queue s) (th_pc s t)") auto
  then show ?thesis
    using act Advance thread_step_simulates [OF ok step bound] by (cases x) auto
qed

lemma schedule_simulates:
  assumes "mpmc_ok n E T s" and "schedule as s = (es, s')" and "length E + length (puts es) + 1 + n
      < 2 ^ 63"
  shows "simulates n E T s es s'"
  using assms
proof (induction as arbitrary: E T s es)
  case Nil
  then show ?case by (simp add: simulates_def fifo_run.nil)
next
  case (Cons a as)
  obtain e u where act: "act a s = (e, u)" by (cases "act a s")
  let ?e = "case e of None \<Rightarrow> [] | Some x \<Rightarrow> [x]"
  have es: "es = ?e @ fst (schedule as u)" and s': "schedule as u = (fst (schedule as u), s')"
    using Cons.prems(2) schedule_Cons [OF act, of as] by (auto split: option.splits)
  have first: "simulates n E T s ?e u"
    using Cons.prems(3) by (intro act_simulates [OF Cons.prems(1) act]) simp
  have "simulates n (E @ puts ?e) (T + takes ?e) u (fst (schedule as u)) s'"
    using first Cons.prems(3) es by (intro Cons.IH s') (simp_all add: simulates_def)
  with first es show ?case using simulates_trans by metis
qed

lemma mpmc_ok_init:
  assumes "mpmc_queue_new sz = Inr q" and "sz \<noteq> 1" and "unat sz < 2 ^ 63"
  shows "mpmc_ok (unat sz) [] 0 (threads_init q)" and "fifo_of [] 0 (threads_init q) = fifo_init"
proof -
  have "power_of_2_assert sz"
    using assms(1) by (simp add: mpmc_queue_new_def split: if_splits)
  then obtain k where k: "k < 64" "sz = 2 ^ k" "unat sz = 2 ^ k" by (rule power_of_2_assertD)
  have "(2 :: nat) ^ k < 2 ^ 63" using k(3) assms(3) by simp
  then have "k < 63" by (simp only: power_strict_increasing_iff)
  then have k0: "0 < k" "k < 63" using k assms(2) by (auto intro!: gr0I)
  have q: "q = \<lparr>mq_size = sz, mq_mask = sz - 1,
             mq_buffer = map (\<lambda>i. \<lparr>nd_data = None, nd_seq = of_nat i\<rparr>) [0..<unat sz],
             mq_head_seq = 0, mq_tail_seq = 0\<rparr>"
    using assms(1) by (simp add: mpmc_queue_new_def split: if_splits)
  have none: "\<not> holder writing (\<lambda>t. Idle) i" "\<not> holder reading (\<lambda>t. Idle) i" for i
    by (simp_all add: holder_def)
  have shape: "shape_ok (unat sz) 0 0 q"
    using k k0 assms(3) by (auto simp: shape_ok_def q)
  moreover have "slots_ok (unat sz) 0 0 q (\<lambda>t. Idle)"
    using node_index_shape [OF shape] assms(3) by (auto simp: slots_ok_def slot_seq_def none node_at_def q)
  ultimately show "mpmc_ok (unat sz) [] 0 (threads_init q)"
    by (simp add: mpmc_ok_def threads_init_def data_ok_def tickets_ok_def none exclusive_def)
  show "fifo_of [] 0 (threads_init q) = fifo_init"
    by (simp add: fifo_of_def threads_init_def fifo_init_def)
qed

lemma mpmc_reachable_ok:
  assumes "mpmc_queue_new sz = Inr q" and "sz \<noteq> 1" and "schedule as (threads_init q) = (es, s)"
    and "length (puts es) + unat sz + 1 < 2 ^ 63"
  shows "simulates (unat sz) [] 0 (threads_init q) es s" and "mpmc_ok (unat sz) (puts es) (takes es) s"
    and "fifo_of [] 0 (threads_init q) = fifo_init"
proof -
  have "unat sz < 2 ^ 63" using assms(4) by simp
  note init = mpmc_ok_init [OF assms(1,2) this]
  show "simulates (unat sz) [] 0 (threads_init q) es s"
    using assms(4) by (intro schedule_simulates [OF init(1) assms(3)]) simp
  then show "mpmc_ok (unat sz) (puts es) (takes es) s" by (simp add: simulates_def)
  show "fifo_of [] 0 (threads_init q) = fifo_init" by (rule init(2))
qed

text \<open>
  The contract of the queue holds for the code: \<open>mpmc_runs sz s es\<close> says that some schedule on a
  fresh queue of size \<open>sz\<close> shows the events \<open>es\<close> and ends in \<open>s\<close>.
\<close>

definition mpmc_runs :: "size_t \<Rightarrow> 'a threads \<Rightarrow> (nat \<times> 'a queue_event) list \<Rightarrow> bool" where
  "mpmc_runs sz s es \<longleftrightarrow>
     (\<exists>q as. mpmc_queue_new sz = Inr q \<and> schedule as (threads_init q) = (es, s)) \<and>
     sz \<noteq> 1 \<and> length (puts es) + unat sz + 1 < 2 ^ 63"

definition all_idle :: "'a threads \<Rightarrow> bool" where
  "all_idle s \<longleftrightarrow> th_pc s = (\<lambda>u. Idle)"

lemma fifo_of_idle: "all_idle s \<Longrightarrow> fifo_quiet (fifo_of E T s)"
  by (simp add: all_idle_def fifo_quiet_def fifo_of_def)

lemma mpmc_runs_refines:
  assumes "mpmc_runs sz s es"
  shows "fifo_run (unat sz) fifo_init es (fifo_of (puts es) (takes es) s)"
proof -
  obtain q as where run: "mpmc_queue_new sz = Inr q" "schedule as (threads_init q) = (es, s)"
    and sz: "sz \<noteq> 1" "length (puts es) + unat sz + 1 < 2 ^ 63"
    using assms unfolding mpmc_runs_def by blast
  note reach = mpmc_reachable_ok [OF run(1) sz(1) run(2) sz(2)]
  show ?thesis using reach(1) reach(3) by (simp add: simulates_def)
qed

interpretation mpmc_fifo: fifo_object "mpmc_runs sz" all_idle "unat sz" for sz
  by unfold_locales (blast intro: mpmc_runs_refines fifo_of_idle)

subsection \<open>Properties\<close>

text \<open>
  C6: The queue refines a bounded first-in first-out queue. For every schedule of any number of
  producers and consumers on a queue whose capacity is a power of two other than one, the events
  are a run of the abstract queue: elements are taken in the order in which they were put, each
  once, never more than the capacity are inside, \<open>dequeue\<close> returns what it took, and the answers
  "full" and "empty" are given only when the abstract queue allows them. The bound says that the
  sequence numbers have not reached the sign bit of \<open>intptr_t\<close>.
\<close>

theorem mpmc_refines_fifo:
  assumes "mpmc_queue_new sz = Inr q" and "sz \<noteq> 1" and "schedule as (threads_init q) = (es, s)"
    and "length (puts es) + unat sz + 1 < 2 ^ 63"
  shows "\<exists>f. fifo_run (unat sz) fifo_init es f \<and> ff_items f = drop (takes es) (puts es) \<and>
     length (ff_items f) \<le> unat sz"
proof -
  have "mpmc_runs sz s es" using assms unfolding mpmc_runs_def by blast
  from mpmc_runs_refines [OF this] fifo_run_items [OF mpmc_runs_refines [OF this]] show ?thesis
    by (auto simp: fifo_init_def)
qed

theorem mpmc_refines_fifo_witness:
  "\<exists>f. fifo_run 2 fifo_init
     [(0, Claimed (7 :: nat)), (1, Claimed 8), (2, Empty), (1, Enqueued), (0, Enqueued), (2, Taken),
       (2, Dequeued (Some 7))] f \<and>
     ff_items f = [8]"
proof -
  let ?q = "\<lparr>mq_size = 2, mq_mask = 1, mq_buffer = [\<lparr>nd_data = None, nd_seq = 0\<rparr>, \<lparr>nd_data = None,
      nd_seq = 1\<rparr>],
    mq_head_seq = 0, mq_tail_seq = 0\<rparr>"
  let ?as = "[CallEnqueue 0 7, CallEnqueue 1 8, Advance 0 False, Advance 1 False, Advance 1 False,
      Advance 0 False,
    Advance 0 False, Advance 1 False, Advance 1 False, Advance 1 False, CallDequeue 2,
      Advance 2 False, Advance 2 False,
    Advance 1 False, Advance 1 False, Advance 0 False, Advance 0 False, CallDequeue 2, Advance 2 False,
    Advance 2 False, Advance 2 False, Advance 2 False, Advance 2 False]"
  let ?es = "[(0, Claimed (7 :: nat)), (1, Claimed 8), (2, Empty), (1, Enqueued), (0, Enqueued),
      (2, Taken), (2, Dequeued (Some 7))]"
  have "fst (schedule ?as (threads_init ?q)) = ?es"
    by (simp add: threads_init_def thread_step_def node_at_def node_index_def intptr_diff_def
      store_data_def store_seq_def)
  then have "schedule ?as (threads_init ?q) = (?es, snd (schedule ?as (threads_init ?q)))"
    by (metis prod.collapse)
  moreover have "mpmc_queue_new 2 = Inr ?q"
    by (simp add: mpmc_queue_new_def power_of_2_assert_def upt_conv_Cons)
  ultimately show ?thesis
    using mpmc_refines_fifo [of 2 ?q ?as ?es] by auto
qed

lemma mpmc_idle_step:
  assumes ok: "mpmc_ok n E T s" and idle: "th_pc s = (\<lambda>u. Idle)"
  shows "fst (schedule (CallEnqueue t d # replicate 5 (Advance t False)) s) =
      (if length E < T + n then [(t, Claimed d), (t, Enqueued)] else [(t, Full)])"
    and "fst (schedule (CallDequeue t # replicate 5 (Advance t False)) s) =
      (if T < length E then [(t, Taken), (t, Dequeued (Some (E ! T)))] else [(t, Empty)])"
proof -
  let ?q = "th_queue s" and ?H = "length E"
  note inv = mpmc_okD [OF ok]
  have none: "\<not> holder writing (th_pc s) i" "\<not> holder reading (th_pc s) i" "\<not> holder filling (th_pc
      s) i" for i
    by (simp_all add: holder_def idle)
  have seq: "nd_seq (node_at ?q (of_nat i)) = of_nat (if i < ?H then Suc i
      else i)" if "T \<le> i" "i < T + n" for i
    using ok that none by (simp add: mpmc_ok_def slots_ok_def slot_seq_def)
  have data: "nd_data (node_at ?q (mq_tail_seq ?q)) = Some (E ! T)" if "T < ?H"
    using ok that none inv(7) by (simp add: mpmc_ok_def data_ok_def)
  have diff: "intptr_diff (of_nat i) (of_nat j) = int i - int j" if "i \<le> ?H + n" "j \<le> ?H + n" for i j
    using that inv(4) by (intro intptr_diff_of_nat) auto
  have enq: "intptr_diff (nd_seq (node_at ?q (mq_head_seq ?q))) (mq_head_seq ?q) =
      (if ?H < T + n then 0 else 1 - int n)"
  proof (cases "?H < T + n")
    case True
    then show ?thesis using seq [of ?H] diff [of ?H ?H] inv(2,6) by simp
  next
    case False
    then have H: "?H = T + n" using inv(3) by simp
    then have "node_at ?q (of_nat ?H) = node_at ?q (of_nat T)"
      using node_at_wrap [OF inv(1)] by simp
    then show ?thesis using seq [of T] diff [of "Suc T" ?H] inv(2,5,6) H by simp
  qed
  have deq: "intptr_diff (nd_seq (node_at ?q (mq_tail_seq ?q))) (mq_tail_seq ?q + 1) =
      (if T < ?H then 0 else - 1)"
    using seq [of T] diff [of "Suc T" "Suc T"] diff [of T "Suc T"] inv(2,5,7)
    by (auto simp: add.commute split: if_splits)
  have q: "node_at (?q\<lparr>mq_tail_seq := x\<rparr>) w = node_at ?q w" for x w
    by (simp add: node_at_def node_index_def)
  show "fst (schedule (CallEnqueue t d # replicate 5 (Advance t False)) s) =
      (if length E < T + n then [(t, Claimed d), (t, Enqueued)] else [(t, Full)])"
    using inv(5) by (simp add: eval_nat_numeral thread_step_def idle enq)
  show "fst (schedule (CallDequeue t # replicate 5 (Advance t False)) s) =
      (if T < length E then [(t, Taken), (t, Dequeued (Some (E ! T)))] else [(t, Empty)])"
    using data by (simp add: eval_nat_numeral thread_step_def idle deq q)
qed

text \<open>
  C24: A thread that runs alone after any history that left no call unfinished: \<open>enqueue\<close> and
  \<open>dequeue\<close> return within five steps; \<open>enqueue\<close> succeeds exactly if there is room, and
  \<open>dequeue\<close> returns the oldest element exactly if there is one.
\<close>

theorem mpmc_sequential:
  assumes "mpmc_queue_new sz = Inr q" and "sz \<noteq> 1" and "schedule as (threads_init q) = (es, s)"
    and "length (puts es) + unat sz + 1 < 2 ^ 63" and "th_pc s = (\<lambda>u. Idle)"
  shows "fst (schedule (CallEnqueue t d # replicate 5 (Advance t False)) s) =
      (if length (drop (takes es) (puts es)) < unat sz then [(t, Claimed d), (t, Enqueued)]
        else [(t, Full)]) \<and>
    fst (schedule (CallDequeue t # replicate 5 (Advance t False)) s) =
      (case drop (takes es) (puts es) of [] \<Rightarrow> [(t, Empty)] | x # xs \<Rightarrow> [(t, Taken), (t, Dequeued (Some x))])"
proof -
  note ok = mpmc_reachable_ok(2) [OF assms(1-4)]
  have "(if takes es < length (puts es) then [(t, Taken), (t, Dequeued (Some (puts es ! takes es)))]
      else [(t, Empty)]) =
      (case drop (takes es) (puts es) of [] \<Rightarrow> [(t, Empty)] | x # xs \<Rightarrow> [(t, Taken), (t, Dequeued (Some x))])"
    by (simp flip: Cons_nth_drop_Suc)
  moreover have "length (puts es) < takes es + unat sz \<longleftrightarrow> length (drop (takes es) (puts es)) < unat sz"
    using mpmc_okD(2) [OF ok] by auto
  ultimately show ?thesis
    unfolding mpmc_idle_step [OF ok assms(5)] by simp
qed

theorem mpmc_sequential_witness:
  "\<exists>q :: nat mpmc_queue. mpmc_queue_new 1024 = Inr q \<and>
     fst (schedule (CallEnqueue 3 7 # replicate 5 (Advance 3 False)) (threads_init q)) =
       [(3, Claimed 7), (3, Enqueued)] \<and>
     fst (schedule (CallDequeue 3 # replicate 5 (Advance 3 False)) (threads_init q)) = [(3, Empty)]"
proof -
  obtain q :: "nat mpmc_queue" where q: "mpmc_queue_new 1024 = Inr q"
    by (simp add: mpmc_queue_new_def power_of_2_assert_def)
  have "th_pc (threads_init q) = (\<lambda>u. Idle)" by (simp add: threads_init_def)
  with mpmc_sequential [OF q _ schedule.simps(1), of 3 7] q show ?thesis
    by (auto simp del: schedule.simps(2))
qed

lemma schedule_append:
  "schedule (as @ bs) s =
     (fst (schedule as s) @ fst (schedule bs (snd (schedule as s))),
       snd (schedule bs (snd (schedule as s))))"
  by (induction as arbitrary: s) (auto split: prod.splits option.splits)

lemma dequeue_spins:
  assumes "intptr_diff (nd_seq (node_at (th_queue s) (mq_tail_seq (th_queue s)))) (mq_tail_seq
      (th_queue s) + 1) > 0"
    and "th_pc s t = DeqLoad \<or> th_pc s t = DeqProbe (mq_tail_seq (th_queue s))"
  shows "fst (schedule (replicate k (Advance t False)) s) = []"
  using assms
proof (induction k arbitrary: s)
  case (Suc k)
  let ?p = "if th_pc s t = DeqLoad then DeqProbe (mq_tail_seq (th_queue s)) else DeqLoad"
  let ?s = "s\<lparr>th_pc := (th_pc s)(t := ?p)\<rparr>"
  have "act (Advance t False) s = (None, ?s)"
    using Suc.prems by (auto simp: thread_step_def Let_def)
  moreover have "fst (schedule (replicate k (Advance t False)) ?s) = []"
    using Suc.prems by (intro Suc.IH) auto
  ultimately show ?case by (simp del: act.simps split: prod.splits)
qed simp

text \<open>
  C39: The capacity one passes the assertion of the constructor but does not work: a second
  \<open>enqueue\<close> into the full queue succeeds and overwrites the first element, and a \<open>dequeue\<close>
  after it does not return in any number of steps.
\<close>

theorem mpmc_size_one:
  "\<exists>q. mpmc_queue_new 1 = Inr q \<and>
     fst (schedule (CallEnqueue 0 a # replicate 5 (Advance 0 False) @
       CallEnqueue 0 b # replicate 5 (Advance 0 False) @
       CallDequeue 0 # replicate k (Advance 0 False)) (threads_init q)) =
     [(0, Claimed a), (0, Enqueued), (0, Claimed b), (0, Enqueued)]"
proof -
  let ?q = "\<lparr>mq_size = 1, mq_mask = 0, mq_buffer = [\<lparr>nd_data = None, nd_seq = 0\<rparr>], mq_head_seq = 0,
      mq_tail_seq = 0\<rparr>"
  let ?as = "CallEnqueue 0 a # replicate 5 (Advance 0 False) @ CallEnqueue 0 b # replicate 5
      (Advance 0 False)"
  let ?s = "\<lparr>th_queue = \<lparr>mq_size = 1, mq_mask = 0, mq_buffer = [\<lparr>nd_data = Some b, nd_seq = 2\<rparr>],
    mq_head_seq = 2, mq_tail_seq = 0\<rparr>, th_pc = (\<lambda>t. Idle)\<rparr>"
  note defs = thread_step_def node_at_def node_index_def intptr_diff_def store_data_def store_seq_def
  have new: "mpmc_queue_new 1 = Inr ?q"
    by (simp add: mpmc_queue_new_def power_of_2_assert_def)
  have run: "schedule ?as (threads_init ?q) = ([(0, Claimed a), (0, Enqueued), (0, Claimed b),
      (0, Enqueued)], ?s)"
    by (simp add: eval_nat_numeral threads_init_def defs fun_eq_iff)
  have "fst (schedule (CallDequeue 0 # replicate k (Advance 0 False)) ?s) = []"
    using dequeue_spins [of "?s\<lparr>th_pc := (th_pc ?s)(0 := DeqLoad)\<rparr>" 0 k]
    by (simp add: node_at_def node_index_def intptr_diff_def split: prod.splits)
  then have "fst (schedule (?as @ CallDequeue 0 # replicate k (Advance 0 False)) (threads_init ?q)) =
      [(0, Claimed a), (0, Enqueued), (0, Claimed b), (0, Enqueued)]"
    by (simp only: schedule_append run fst_conv snd_conv append_Nil2)
  with new show ?thesis by (simp only: append_Cons append_assoc) blast
qed

end
