(* ===== verification/Mpmc_Progress.thy ===== *)
theory Mpmc_Progress
  imports Mpmc_Props
begin

text \<open>
  Progress of the queue of \<^verbatim>\<open>include/cql_mpmc_queue.hpp\<close>. No thread waits for another: a thread
  that runs alone finishes its call whatever the others have left undone, and however
  threads are scheduled, a thread cannot take four steps without some call getting further.
\<close>

subsection \<open>Between two events\<close>

text \<open>
  The probe of the current head and of the current tail never finds a sequence number that is
  ahead, so the loops do not start over for them.
\<close>

definition not_ahead :: "'a mpmc_queue \<Rightarrow> bool" where
  "not_ahead q \<longleftrightarrow>
     intptr_diff (nd_seq (node_at q (mq_head_seq q))) (mq_head_seq q) \<le> 0 \<and>
     intptr_diff (nd_seq (node_at q (mq_tail_seq q))) (mq_tail_seq q + 1) \<le> 0"

lemma mpmc_not_ahead:
  assumes ok: "mpmc_ok n E T s"
  shows "not_ahead (th_queue s)"
proof -
  let ?q = "th_queue s" and ?H = "length E"
  note inv = mpmc_okD [OF ok]
  have diff: "intptr_diff (of_nat i) (of_nat j) = int i - int j" if "i \<le> ?H + n" "j \<le> ?H + n" for i j
    using that inv(4) by (intro intptr_diff_of_nat) auto
  have seq: "nd_seq (node_at ?q (of_nat i)) = of_nat (slot_seq n ?H (th_pc s) i)"
    if "T \<le> i" "i < T + n" for i
    using ok that by (simp add: mpmc_ok_def slots_ok_def)
  have slot: "slot_seq n ?H (th_pc s) i \<le> Suc i" "slot_seq n ?H (th_pc s) ?H \<le> ?H" for i
    using inv(5) by (auto simp: slot_seq_def)
  have "\<exists>x \<le> ?H. nd_seq (node_at ?q (of_nat ?H)) = of_nat x"
  proof (cases "?H < T + n")
    case True
    then show ?thesis using seq [of ?H] inv(2) slot(2) by blast
  next
    case False
    then have "?H = T + n" using inv(3) by simp
    then show ?thesis
      using seq [of T] node_at_wrap [OF inv(1)] inv(5) slot(1) [of T]
      by (intro exI [of _ "slot_seq n ?H (th_pc s) T"]) simp
  qed
  then have "intptr_diff (nd_seq (node_at ?q (mq_head_seq ?q))) (mq_head_seq ?q) \<le> 0"
    using diff [of _ ?H] inv(6) by fastforce
  moreover have "\<exists>x \<le> Suc T. nd_seq (node_at ?q (of_nat T)) = of_nat x"
    using seq [of T] inv(5) slot(1) [of T] by auto
  then have "intptr_diff (nd_seq (node_at ?q (mq_tail_seq ?q))) (mq_tail_seq ?q + 1) \<le> 0"
    using diff [of _ "Suc T"] inv(2,5,7) by (fastforce simp: add.commute)
  ultimately show ?thesis by (simp add: not_ahead_def)
qed

text \<open>Queues that differ in the data only.\<close>

definition same_control :: "'a mpmc_queue \<Rightarrow> 'a mpmc_queue \<Rightarrow> bool" where
  "same_control q q' \<longleftrightarrow> mq_head_seq q' = mq_head_seq q \<and> mq_tail_seq q' = mq_tail_seq q \<and>
     (\<forall>w. nd_seq (node_at q' w) = nd_seq (node_at q w))"

lemma same_control_refl [simp]: "same_control q q"
  by (simp add: same_control_def)

lemma same_control_data [simp]: "same_control q (store_data d h q)"
  by (cases "node_index q h < length (mq_buffer q)")
    (auto simp: same_control_def store_data_def node_at_def node_index_def nth_list_update
      list_update_beyond)

lemma not_ahead_control: "same_control q q' \<Longrightarrow> not_ahead q' = not_ahead q"
  by (simp add: same_control_def not_ahead_def)

text \<open>How many steps a thread inside a call can take until something happens.\<close>

fun patience :: "'a mpmc_queue \<Rightarrow> 'a pc \<Rightarrow> nat" where
  "patience q (EnqLoad d) = 3"
| "patience q (EnqProbe d h) = (if h = mq_head_seq q then 2 else 4)"
| "patience q (EnqClaim d h) = (if h = mq_head_seq q then 1 else 3)"
| "patience q (EnqWrite d h) = 2"
| "patience q DeqLoad = 3"
| "patience q (DeqProbe h) = (if h = mq_tail_seq q then 2 else 4)"
| "patience q (DeqClaim h) = (if h = mq_tail_seq q then 1 else 3)"
| "patience q (DeqRead h) = 2"
| "patience q p = 1"

lemma patience_control: "same_control q q' \<Longrightarrow> patience q' p = patience q p"
  by (cases p) (simp_all add: same_control_def)

lemma patience_range: "0 < patience q p" "patience q p \<le> 4"
  by (cases p; simp)+

lemma quiet_thread_step:
  assumes "not_ahead q" and "p \<noteq> Idle" and "thread_step False q p = (q', p', None)"
  shows "same_control q q' \<and> p' \<noteq> Idle \<and> patience q' p' < patience q p"
  using assms
  by (cases p) (auto simp: thread_step_def Let_def not_ahead_def same_control_def [of _ "store_data _ _ _"]
      split: if_splits)

subsection \<open>Schedules without events\<close>

definition no_spurious :: "'a action list \<Rightarrow> bool" where
  "no_spurious as \<longleftrightarrow> (\<forall>u. Advance u True \<notin> set as)"

lemma act_quiet:
  assumes "not_ahead (th_queue s)" and "th_pc s t \<noteq> Idle" and "\<And>u. a \<noteq> Advance u True"
      and "act a s = (None, s')"
  shows "same_control (th_queue s) (th_queue s') \<and> th_pc s' t \<noteq> Idle \<and>
     patience (th_queue s') (th_pc s' t) + count_list [a] (Advance t False) \<le> patience (th_queue s)
       (th_pc s t)"
proof (cases a)
  case (Advance u b)
  then have b: "b = False" using assms(3) [of u] by (cases b) simp_all
  obtain q p where step: "thread_step False (th_queue s) (th_pc s u) = (q, p, None)"
    and s': "s' = \<lparr>th_queue = q, th_pc = (th_pc s)(u := p)\<rparr>"
    using assms(4) by (auto simp: Advance b split: prod.splits)
  show ?thesis
  proof (cases "th_pc s u = Idle")
    case True
    then have "q = th_queue s" "p = Idle" using step by (simp_all add: thread_step_def)
    then show ?thesis using assms(2) True by (auto simp: s' Advance)
  next
    case False
    then show ?thesis
      using quiet_thread_step [OF assms(1) False step] assms(2)
        patience_control [of "th_queue s" q "th_pc s t"]
      by (auto simp: s' Advance b)
  qed
qed (use assms in \<open>auto split: if_splits\<close>)

lemma schedule_quiet:
  assumes "not_ahead (th_queue s)" and "th_pc s t \<noteq> Idle" and "no_spurious as"
      and "fst (schedule as s) = []"
  shows "count_list as (Advance t False) < patience (th_queue s) (th_pc s t)"
  using assms
proof (induction as arbitrary: s)
  case Nil
  then show ?case by (simp add: patience_range)
next
  case (Cons a as)
  obtain s' where a: "act a s = (None, s')" and as: "fst (schedule as s') = []"
    using Cons.prems(4) by (auto split: prod.splits option.splits)
  have "a \<noteq> Advance u True" for u using Cons.prems(3) by (auto simp: no_spurious_def)
  note q = act_quiet [OF Cons.prems(1,2) this a]
  then have "not_ahead (th_queue s')" using not_ahead_control Cons.prems(1) by blast
  moreover have "no_spurious as" using Cons.prems(3) by (simp add: no_spurious_def)
  ultimately have "count_list as (Advance t False) < patience (th_queue s') (th_pc s' t)"
    using Cons.IH q as by blast
  then show ?case using q by auto
qed

subsection \<open>A thread that runs alone\<close>

fun solo :: "nat \<Rightarrow> 'a mpmc_queue \<Rightarrow> 'a pc \<Rightarrow> 'a pc" where
  "solo 0 q p = p"
| "solo (Suc k) q p = (case thread_step False q p of (q, p, e) \<Rightarrow> solo k q p)"

lemma schedule_solo: "th_pc (snd (schedule (replicate k (Advance t False)) s)) t =
    solo k (th_queue s) (th_pc s t)"
proof (induction k arbitrary: s)
  case (Suc k)
  obtain q p e where "thread_step False (th_queue s) (th_pc s t) = (q, p, e)" by (metis prod_cases3)
  then show ?case
    using Suc [of "\<lparr>th_queue = q, th_pc = (th_pc s)(t := p)\<rparr>"] by (simp add: split_def)
qed simp

lemma solo_idle [simp]: "solo k q Idle = Idle"
  by (induction k) (simp_all add: thread_step_def)

lemma solo_returns:
  assumes "not_ahead q"
  shows "solo 6 q p = Idle"
proof -
  have head: "intptr_diff (nd_seq (node_at q (mq_head_seq q))) (mq_head_seq q) \<le> 0"
    and tail: "intptr_diff (nd_seq (node_at q (mq_tail_seq q))) (mq_tail_seq q + 1) \<le> 0"
    using assms by (simp_all add: not_ahead_def)
  show ?thesis
    using head tail by (cases p) (auto simp: eval_nat_numeral thread_step_def Let_def)
qed

subsection \<open>Properties\<close>

text \<open>
  C23: The queue is lock-free. Take any state that threads can have brought about, with any number
  of calls left unfinished, and a thread inside a call. If it runs alone, its call returns within
  six steps. If it does not, then however the others are scheduled, by the time it has made four
  steps, some call has claimed or taken an element or has returned. Compare-exchanges that fail
  for no reason are excluded.
\<close>

theorem mpmc_lock_free:
  assumes "mpmc_queue_new sz = Inr q" and "sz \<noteq> 1" and "schedule as (threads_init q) = (es, s)"
    and "length (puts es) + unat sz + 1 < 2 ^ 63" and "th_pc s t \<noteq> Idle"
  shows "th_pc (snd (schedule (replicate 6 (Advance t False)) s)) t = Idle \<and>
     (\<forall>bs. no_spurious bs \<and> 4 \<le> count_list bs (Advance t False) \<longrightarrow> fst (schedule bs s) \<noteq> [])"
proof -
  have ahead: "not_ahead (th_queue s)"
    using mpmc_not_ahead [OF mpmc_reachable_ok(2) [OF assms(1-4)]] .
  have "count_list bs (Advance t False) < 4" if "no_spurious bs" "fst (schedule bs s) = []" for bs
    using schedule_quiet [OF ahead assms(5) that] patience_range(2) [of "th_queue s" "th_pc s t"]
      by linarith
  then show ?thesis using solo_returns [OF ahead] by (fastforce simp: schedule_solo)
qed

text \<open>
  A queue of four places: one thread has claimed the first place and stopped; another is at the
  compare-exchange for it.
\<close>

theorem mpmc_lock_free_witness:
  "\<exists>q s. mpmc_queue_new 4 = Inr q \<and>
     schedule [CallEnqueue 0 (7 :: nat), CallEnqueue 1 8, Advance 0 False, Advance 0 False, Advance 1 False,
       Advance 1 False, Advance 0 False] (threads_init q) = ([(0, Claimed 7)], s) \<and>
     th_pc s 1 = EnqClaim 8 0 \<and>
     th_pc (snd (schedule (replicate 6 (Advance 1 False)) s)) 1 = Idle \<and>
     fst (schedule (replicate 4 (Advance 1 False)) s) \<noteq> []"
proof -
  obtain q :: "nat mpmc_queue" where q: "mpmc_queue_new 4 = Inr q"
    by (simp add: mpmc_queue_new_def power_of_2_assert_def)
  let ?as = "[CallEnqueue 0 (7 :: nat), CallEnqueue 1 8, Advance 0 False, Advance 0 False, Advance 1 False,
      Advance 1 False, Advance 0 False]"
  have run: "schedule ?as (threads_init q) = ([(0, Claimed 7)], snd (schedule ?as (threads_init q)))"
    "th_pc (snd (schedule ?as (threads_init q))) 1 = EnqClaim 8 0"
    using q by (auto simp: mpmc_queue_new_def power_of_2_assert_def threads_init_def thread_step_def
        node_at_def node_index_def intptr_diff_def upt_conv_Cons)
  from run(2) have "th_pc (snd (schedule ?as (threads_init q))) 1 \<noteq> Idle" by simp
  note free = mpmc_lock_free [OF q _ run(1) _ this]
  have "no_spurious (replicate 4 (Advance 1 False) :: nat action list)"
    "4 \<le> count_list (replicate 4 (Advance 1 False) :: nat action list) (Advance 1 False)"
    by (simp_all add: no_spurious_def eval_nat_numeral)
  with free q run show ?thesis
    by (intro exI [of _ q] exI [of _ "snd (schedule ?as (threads_init q))"]) (simp del: schedule.simps)
qed

end
