(* ===== verification/Host_Pool.thy ===== *)
theory Host_Pool
  imports Connection_Props
begin

text \<open>
  \<^verbatim>\<open>include/cql_pool.hpp\<close>: the connections to one host. The connections of a pool live in two
  lists, and each is a value of the model of \<open>ClientConnection\<close>. The pointer \<open>ssl_context_\<close> is
  \<open>None\<close> when it was never set, and else tells whether it is non-null; \<open>session\<close> is what
  \<open>session_new\<close> of the context returns. The callback that the pool passes to its connections is
  \<open>pool_connect_callback\<close> of \<open>Connection_Lemmas\<close>.
\<close>

subsection \<open>The pool\<close>

record 'ssl host_pool =
  hp_ssl_context :: "bool option"
  hp_address :: bytes
  hp_core_connections_per_host :: nat
  hp_max_connections_per_host :: nat
  hp_max_simultaneous_creation :: nat
  hp_connections :: "'ssl connection list"
  hp_connections_pending :: "'ssl connection list"

text \<open>A new connection is in the state where \<open>event_received\<close> needs no fuel.\<close>

definition spawn_connection :: "'ssl conn_env \<Rightarrow> 'ssl \<Rightarrow> 'ssl host_pool \<Rightarrow> 'ssl host_pool result" where
  "spawn_connection env session p =
     (case hp_ssl_context p of
        None \<Rightarrow> Inl Indeterminate
      | Some ssl \<Rightarrow>
          bind_result (init 0 env True False (connection_new env (if ssl then Some session else None)))
            (\<lambda>connection. Inr (p\<lparr>hp_connections_pending := hp_connections_pending p @ [connection]\<rparr>)))"

definition pool_new ::
  "'ssl conn_env \<Rightarrow> 'ssl \<Rightarrow> bool option \<Rightarrow> bytes \<Rightarrow> nat \<Rightarrow> nat \<Rightarrow> nat \<Rightarrow> 'ssl host_pool result" where
  "pool_new env session ssl_context address core mx simultaneous =
     for_loop 0 core (\<lambda>i. spawn_connection env session)
       \<lparr>hp_ssl_context = ssl_context, hp_address = address, hp_core_connections_per_host = core,
        hp_max_connections_per_host = mx, hp_max_simultaneous_creation = simultaneous,
        hp_connections = [], hp_connections_pending = []\<rparr>"

definition maybe_spawn_connection :: "'ssl conn_env \<Rightarrow> 'ssl \<Rightarrow> 'ssl host_pool \<Rightarrow> 'ssl host_pool result" where
  "maybe_spawn_connection env session p =
     (if length (hp_connections_pending p) \<ge> hp_max_simultaneous_creation p then Inr p
      else if length (hp_connections p) + length (hp_connections_pending p) \<ge> hp_max_connections_per_host p
      then Inr p
      else spawn_connection env session p)"

definition least_busy_comp :: "'ssl connection \<Rightarrow> 'ssl connection \<Rightarrow> bool" where
  "least_busy_comp a b \<longleftrightarrow> conn_available_streams a < conn_available_streams b"

text \<open>\<open>std::max_element\<close>: the position of the first largest element, or the end.\<close>

fun max_loop :: "('a \<Rightarrow> 'a \<Rightarrow> bool) \<Rightarrow> 'a list \<Rightarrow> nat \<Rightarrow> nat list \<Rightarrow> nat" where
  "max_loop cmp xs largest [] = largest"
| "max_loop cmp xs largest (i # is) =
     max_loop cmp xs (if cmp (xs ! largest) (xs ! i) then i else largest) is"

definition max_element :: "('a \<Rightarrow> 'a \<Rightarrow> bool) \<Rightarrow> 'a list \<Rightarrow> nat" where
  "max_element cmp xs = (if xs = [] then 0 else max_loop cmp xs 0 [1..<length xs])"

text \<open>The result is the position of a connection, or null.\<close>

definition find_least_busy :: "'ssl host_pool \<Rightarrow> nat option result" where
  "find_least_busy p =
     (let it = max_element least_busy_comp (hp_connections p) in
      bind_result (array_get (hp_connections p) (int it)) (\<lambda>c.
      Inr (if conn_available_streams c \<noteq> 0 then Some it else None)))"

text \<open>
  \<open>output\<close> is the address of the caller's pointer; \<open>Some\<close> unless it is null. The result is
  the error and what was stored there.
\<close>

definition borrow_connection :: "unit option \<Rightarrow> 'ssl host_pool
    \<Rightarrow> (cql_error option \<times> nat option) result" where
  "borrow_connection output p =
     bind_result (find_least_busy p) (\<lambda>found.
     (case output of
        None \<Rightarrow> Inl NullDeref
      | Some _ \<Rightarrow>
          if output \<noteq> None then Inr (None, found)
          else if length (hp_connections p) \<ge> hp_max_connections_per_host p
          then Inr (Some (error_make CQL_ERROR_SOURCE_LIBRARY CQL_ERROR_LIB_MAX_CONNECTIONS
                 (str ''all connections busy'') (str ''cql_pool.hpp'') 159), found)
          else Inr (None, found)))"

text \<open>The methods with empty bodies, and the destructor with the connections it deletes.\<close>

definition pool_prepare :: "'ssl host_pool \<Rightarrow> 'ssl host_pool" where "pool_prepare p = p"
definition pool_execute :: "'ssl host_pool \<Rightarrow> 'ssl host_pool" where "pool_execute p = p"
definition pool_shutdown :: "'ssl host_pool \<Rightarrow> 'ssl host_pool" where "pool_shutdown p = p"
definition pool_set_keyspace :: "'ssl host_pool \<Rightarrow> 'ssl host_pool" where "pool_set_keyspace p = p"

definition pool_delete :: "'ssl host_pool \<Rightarrow> 'ssl connection list" where
  "pool_delete p = hp_connections p"

subsection \<open>What a pool can become\<close>

text \<open>
  The operations that change a pool, and the events of its connections, which replace a
  connection by another.
\<close>

inductive pool_reachable :: "'ssl conn_env \<Rightarrow> 'ssl \<Rightarrow> nat \<Rightarrow> nat \<Rightarrow> nat \<Rightarrow> 'ssl host_pool \<Rightarrow> bool"
  for env session core mx simultaneous where
  start: "pool_new env session ctx address core mx simultaneous = Inr p \<Longrightarrow>
    pool_reachable env session core mx simultaneous p"
| spawn: "pool_reachable env session core mx simultaneous p \<Longrightarrow>
    maybe_spawn_connection env session p = Inr p' \<Longrightarrow> pool_reachable env session core mx simultaneous p'"
| event: "pool_reachable env session core mx simultaneous p \<Longrightarrow>
    pool_reachable env session core mx simultaneous
      (p\<lparr>hp_connections_pending := (hp_connections_pending p)[i := c]\<rparr>)"

lemma spawn_connection_Inr:
  assumes "spawn_connection env session p = Inr p'"
  shows "\<exists>c. p' = p\<lparr>hp_connections_pending := hp_connections_pending p @ [c]\<rparr>"
  using assms by (auto simp: spawn_connection_def split: option.splits)

definition pool_ok :: "nat \<Rightarrow> nat \<Rightarrow> nat \<Rightarrow> 'ssl host_pool \<Rightarrow> bool" where
  "pool_ok core mx simultaneous p \<longleftrightarrow>
     hp_max_connections_per_host p = mx \<and> hp_max_simultaneous_creation p = simultaneous \<and>
     hp_connections p = [] \<and> core \<le> length (hp_connections_pending p) \<and>
     length (hp_connections_pending p) \<le> max core (min mx simultaneous)"

lemma pool_new_ok:
  assumes "pool_new env session ctx address core mx simultaneous = Inr p"
  shows "pool_ok core mx simultaneous p"
proof -
  let ?P = "\<lambda>i q. hp_max_connections_per_host q = mx \<and> hp_max_simultaneous_creation q = simultaneous \<and>
    hp_connections q = [] \<and> length (hp_connections_pending q) = i"
  have "?P (0 + core) p"
  proof (rule for_loop_invariant [OF assms [unfolded pool_new_def]])
    fix j and x y :: "'a host_pool"
    assume "?P j x" and "spawn_connection env session x = Inr y"
    then show "?P (Suc j) y" using spawn_connection_Inr by fastforce
  qed simp
  then show ?thesis by (auto simp: pool_ok_def)
qed

lemma pool_reachable_ok:
  "pool_reachable env session core mx simultaneous p \<Longrightarrow> pool_ok core mx simultaneous p"
proof (induction rule: pool_reachable.induct)
  case (start ctx address p)
  then show ?case by (rule pool_new_ok)
next
  case (spawn p p')
  then show ?case
    by (auto simp: maybe_spawn_connection_def pool_ok_def dest!: spawn_connection_Inr split: if_splits)
next
  case (event p i c)
  then show ?case by (simp add: pool_ok_def)
qed

subsection \<open>The largest element\<close>

lemma max_loop_best:
  assumes "\<forall>j \<le> k. (f (xs ! j) :: nat) \<le> f (xs ! largest)" and "largest \<le> k" and "k < length xs"
  shows "let m = max_loop (\<lambda>a b. f a < f b) xs largest [Suc k..<length xs] in
     m < length xs \<and> (\<forall>j < length xs. f (xs ! j) \<le> f (xs ! m))"
  using assms
proof (induction "length xs - Suc k" arbitrary: k largest)
  case 0
  then show ?case by (auto simp: Let_def)
next
  case (Suc n)
  let ?l = "if f (xs ! largest) < f (xs ! Suc k) then Suc k else largest"
  have upt: "[Suc k..<length xs] = Suc k # [Suc (Suc k)..<length xs]"
    using Suc.hyps(2) by (intro upt_conv_Cons) simp
  have "\<forall>j \<le> Suc k. f (xs ! j) \<le> f (xs ! ?l)"
  proof (intro allI impI)
    fix j assume "j \<le> Suc k"
    then consider "j \<le> k" | "j = Suc k" by linarith
    then show "f (xs ! j) \<le> f (xs ! ?l)"
      using Suc.prems(1) by cases (force dest: spec [of _ j])+
  qed
  then show ?case
    using Suc.hyps(1) [of "Suc k" ?l] Suc.hyps(2) Suc.prems(2,3) unfolding upt by auto
qed

lemma max_element_best:
  assumes "xs \<noteq> []"
  shows "max_element (\<lambda>a b. f a < f b) xs < length xs"
    and "\<forall>j < length xs. (f (xs ! j) :: nat) \<le> f (xs ! max_element (\<lambda>a b. f a < f b) xs)"
  using max_loop_best [of 0 f xs 0] assms by (simp_all add: max_element_def Let_def)

subsection \<open>Properties\<close>

text \<open>
  C32: A pool stays within its bounds but lends nothing. In every reachable state there are at
  least the core connections and no more than the core connections or both limits allow, all of
  them pending: no operation moves a connection to the list that \<open>borrow_connection\<close> searches,
  so that it dereferences the end of an empty list, and that the destructor goes through, so that it
  deletes none of them.
\<close>

theorem pool_pending_only:
  assumes "pool_reachable env session core mx simultaneous p"
  shows "hp_connections p = [] \<and> core \<le> length (hp_connections_pending p) \<and>
     length (hp_connections_pending p) \<le> max core (min mx simultaneous) \<and>
     borrow_connection output p = Inl OutOfBounds \<and> pool_delete p = []"
  using pool_reachable_ok [OF assms]
  by (simp add: pool_ok_def pool_delete_def borrow_connection_def find_least_busy_def
      max_element_def array_get_def)

lemma pool_new_reachable:
  "\<exists>p. pool_reachable (pool_env alloc) () 2 8 1 p \<and>
     pool_new (pool_env alloc) () (Some False) [] 2 8 1 = Inr p"
proof -
  have "\<exists>p. pool_new (pool_env alloc) () (Some False) [] 2 8 1 = Inr p"
    by (simp add: pool_new_def eval_nat_numeral spawn_connection_def init_def event_received_def
        event_switch_def connection_new_def Let_def)
  then show ?thesis by (blast intro: pool_reachable.start)
qed

theorem pool_pending_only_witness:
  "\<exists>p. pool_new (pool_env (\<lambda>n. n)) () (Some False) [] 2 8 1 = Inr p \<and>
     length (hp_connections_pending p) = 2 \<and> borrow_connection (Some ()) p = Inl OutOfBounds"
proof -
  obtain p where p: "pool_reachable (pool_env (\<lambda>n. n)) () 2 8 1 p"
    "pool_new (pool_env (\<lambda>n. n)) () (Some False) [] 2 8 1 = Inr p"
    using pool_new_reachable by blast
  with pool_pending_only [OF p(1), of "Some ()"] show ?thesis by auto
qed

text \<open>
  C28: The choice of a connection, for every list of connections. From a list that is not empty
  \<open>find_least_busy\<close> returns a connection with the most available streams, and null exactly if no
  connection has one left; \<open>borrow_connection\<close> stores it and reports no error in either case,
  because it tests the address of the result and not the result. From the empty list, the only one
  that occurs because no operation fills it, both dereference the end of the list.
\<close>

theorem find_least_busy_best:
  "if hp_connections p = []
   then find_least_busy p = Inl OutOfBounds \<and> borrow_connection output p = Inl OutOfBounds
   else \<exists>r. find_least_busy p = Inr r \<and>
     borrow_connection output p = (if output = None then Inl NullDeref else Inr (None, r)) \<and>
     (r = None \<longleftrightarrow> (\<forall>c \<in> set (hp_connections p). conn_available_streams c = 0)) \<and>
     (\<forall>i. r = Some i \<longrightarrow> i < length (hp_connections p) \<and> (\<forall>c \<in> set (hp_connections p).
        conn_available_streams c \<le> conn_available_streams (hp_connections p ! i)))"
proof (cases "hp_connections p = []")
  case True
  then show ?thesis
    by (simp add: borrow_connection_def find_least_busy_def max_element_def array_get_def)
next
  case False
  let ?cs = "hp_connections p" and ?m = "max_element least_busy_comp (hp_connections p)"
  have comp: "least_busy_comp = (\<lambda>a b. conn_available_streams a < conn_available_streams b)"
    by (simp add: fun_eq_iff least_busy_comp_def)
  have m: "?m < length ?cs" "\<forall>c \<in> set ?cs. conn_available_streams c \<le> conn_available_streams (?cs ! ?m)"
    using max_element_best [OF False, of conn_available_streams] by (auto simp: comp in_set_conv_nth)
  let ?r = "if conn_available_streams (?cs ! ?m) \<noteq> 0 then Some ?m else None"
  have "find_least_busy p = Inr ?r"
    using m(1) by (simp add: find_least_busy_def Let_def array_get_def)
  moreover have "?r = None \<longleftrightarrow> (\<forall>c \<in> set ?cs. conn_available_streams c = 0)"
    using m by (force simp: in_set_conv_nth)
  ultimately show ?thesis
    using m False
    by (simp only: if_False, intro exI [of _ ?r])
      (auto simp: borrow_connection_def split: if_splits option.splits)
qed

theorem find_least_busy_best_witness:
  "\<exists>r. find_least_busy \<lparr>hp_ssl_context = Some False, hp_address = [], hp_core_connections_per_host = 1,
       hp_max_connections_per_host = 8, hp_max_simultaneous_creation = 1,
       hp_connections = [sample_conn (Some 0), connection_new roomy None], hp_connections_pending =
         []\<rparr> = Inr (Some r) \<and>
     conn_available_streams (connection_new roomy None) \<le>
       conn_available_streams ([sample_conn (Some 0), connection_new roomy None] ! r)"
proof -
  let ?p = "\<lparr>hp_ssl_context = Some False, hp_address = [], hp_core_connections_per_host = 1,
       hp_max_connections_per_host = 8, hp_max_simultaneous_creation = 1,
       hp_connections = [sample_conn (Some 0), connection_new roomy None], hp_connections_pending = []\<rparr>"
  have "conn_available_streams (connection_new roomy None) \<noteq> 0"
    by (simp add: conn_available_streams_def available_streams_def connection_new_def
        stream_storage_new_def CQL_STREAM_ID_MAX_def)
  with find_least_busy_best [of ?p] show ?thesis by fastforce
qed

end
