(* ===== verification/Session.thy ===== *)
theory Session
  imports Host_Pool Mpmc_Props
begin

text \<open>
  \<^verbatim>\<open>include/cql_session.hpp\<close>: the threads that run the event loops, each with its pools, and the
  queue of requests of a session. Calls of libuv's loop and thread functions, and what is printed,
  are recorded in order. \<open>std::unordered_map\<close> is an association list whose \<open>insert\<close> keeps an
  existing entry. A \<open>CallerRequest*\<close> in the queue is a number.
\<close>

datatype worker_effect =
    UvLoopNew nat
  | UvRun nat
  | UvThreadCreate nat
  | UvStop nat
  | UvThreadJoin nat
  | UvLoopDelete nat

text \<open>The constructor sets \<open>loop\<close> only; \<open>ssl_context\<close> stays indeterminate (\<open>None\<close>).\<close>

record 'ssl io_worker =
  iw_loop :: nat
  iw_ssl_context :: "bool option"
  iw_pools :: "(bytes \<times> 'ssl host_pool) list"
  iw_effects :: "worker_effect list"

definition io_worker_new :: "nat \<Rightarrow> 'ssl io_worker" where
  "io_worker_new loop =
     \<lparr>iw_loop = loop, iw_ssl_context = None, iw_pools = [], iw_effects = [UvLoopNew loop]\<rparr>"

definition add_pool ::
  "'ssl conn_env \<Rightarrow> 'ssl \<Rightarrow> bytes \<Rightarrow> nat \<Rightarrow> nat \<Rightarrow> 'ssl io_worker \<Rightarrow> 'ssl io_worker result" where
  "add_pool env session host core_connections_per_host max_connections_per_host w =
     bind_result (pool_new env session (iw_ssl_context w) host core_connections_per_host
         max_connections_per_host 1) (\<lambda>p.
     Inr (if map_of (iw_pools w) host = None then w\<lparr>iw_pools := iw_pools w @ [(host, p)]\<rparr> else w))"

definition worker_emit :: "worker_effect \<Rightarrow> 'ssl io_worker \<Rightarrow> 'ssl io_worker" where
  "worker_emit e w = w\<lparr>iw_effects := iw_effects w @ [e]\<rparr>"

definition worker_run :: "'ssl io_worker \<Rightarrow> 'ssl io_worker" where
  "worker_run w = worker_emit (UvRun (iw_loop w)) w"

definition run_async :: "'ssl io_worker \<Rightarrow> 'ssl io_worker" where
  "run_async w = worker_emit (UvThreadCreate (iw_loop w)) w"

definition worker_stop :: "'ssl io_worker \<Rightarrow> 'ssl io_worker" where
  "worker_stop w = worker_emit (UvStop (iw_loop w)) w"

definition worker_join :: "'ssl io_worker \<Rightarrow> 'ssl io_worker" where
  "worker_join w = worker_emit (UvThreadJoin (iw_loop w)) w"

definition worker_delete :: "'ssl io_worker \<Rightarrow> 'ssl io_worker" where
  "worker_delete w = worker_emit (UvLoopDelete (iw_loop w)) w"

subsection \<open>The session\<close>

record 'ssl session =
  sn_io_loops :: "'ssl io_worker option list"
  sn_ssl_context :: "bool option"
  sn_queue :: "nat mpmc_queue"
  sn_output :: "bytes list"

text \<open>The vector starts with null pointers, and the loop fills it.\<close>

definition fill_loop :: "nat \<Rightarrow> 'ssl session \<Rightarrow> 'ssl session result" where
  "fill_loop i s =
     bind_result (array_set (sn_io_loops s) (int i) (Some (io_worker_new i))) (\<lambda>loops.
     Inr (s\<lparr>sn_io_loops := loops\<rparr>))"

definition session_make :: "nat \<Rightarrow> 'ssl session result" where
  "session_make io_loop_count =
     bind_result (mpmc_queue_new 1024) (\<lambda>queue.
     let s = \<lparr>sn_io_loops = replicate io_loop_count None, sn_ssl_context = None, sn_queue = queue,
       sn_output = []\<rparr> in
     for_loop 0 (length (sn_io_loops s)) fill_loop s)"

definition ssl_session_new :: "'ssl \<Rightarrow> 'ssl session \<Rightarrow> 'ssl option result" where
  "ssl_session_new fresh s =
     (case sn_ssl_context s of
        None \<Rightarrow> Inl Indeterminate
      | Some True \<Rightarrow> Inr (Some fresh)
      | Some False \<Rightarrow> Inr None)"

definition session_log :: "int \<Rightarrow> bytes \<Rightarrow> 'ssl session \<Rightarrow> 'ssl session" where
  "session_log level message s = s\<lparr>sn_output := sn_output s @ [message @ [10]]\<rparr>"

definition session_prepare :: "'ssl session \<Rightarrow> nat option" where
  "session_prepare s = None"

definition session_execute :: "'ssl session \<Rightarrow> nat option" where
  "session_execute s = None"

text \<open>The methods with empty bodies.\<close>

definition shutdown :: "'ssl session \<Rightarrow> 'ssl session" where "shutdown s = s"
definition session_set_keyspace :: "'ssl session \<Rightarrow> 'ssl session" where "session_set_keyspace s = s"

subsection \<open>Lemmas\<close>

lemma fill_loops:
  assumes "for_loop i n fill_loop s = Inr t"
  shows "sn_queue t = sn_queue s \<and> sn_ssl_context t = sn_ssl_context s \<and> length (sn_io_loops t) =
      length (sn_io_loops s) \<and>
     (\<forall>j < length (sn_io_loops s). sn_io_loops t ! j =
        (if i \<le> j \<and> j < i + n then Some (io_worker_new j) else sn_io_loops s ! j))"
proof -
  let ?P = "\<lambda>k u. sn_queue u = sn_queue s \<and> sn_ssl_context u = sn_ssl_context s \<and>
      length (sn_io_loops u) = length (sn_io_loops s) \<and>
     (\<forall>j < length (sn_io_loops s). sn_io_loops u ! j =
        (if i \<le> j \<and> j < k then Some (io_worker_new j) else sn_io_loops s ! j))"
  show ?thesis
  proof (rule for_loop_invariant [OF assms, of ?P])
    show "?P i s" by auto
  next
    fix j and x y :: "'a session"
    assume "i \<le> j" and "?P j x" and "fill_loop j x = Inr y"
    then show "?P (Suc j) y"
      by (auto simp: fill_loop_def array_set_def nth_list_update less_Suc_eq split: if_splits)
  qed
qed

lemma fill_loops_total:
  assumes "i + n \<le> length (sn_io_loops s)"
  shows "\<exists>t. for_loop i n fill_loop s = Inr t"
  using assms
proof (induction n arbitrary: i s)
  case (Suc n)
  then show ?case
    by (simp add: fill_loop_def array_set_in)
qed simp

lemma session_make_shape:
  assumes "mpmc_queue_new 1024 = Inr q"
  shows "\<exists>s :: 'ssl session. session_make n = Inr s \<and> sn_queue s = q \<and>
     sn_io_loops s = map (\<lambda>i. Some (io_worker_new i)) [0..<n]"
proof -
  let ?s = "\<lparr>sn_io_loops = replicate n None, sn_ssl_context = None, sn_queue = q, sn_output =
      []\<rparr> :: 'ssl session"
  obtain s where s: "for_loop 0 n fill_loop ?s = Inr s"
    using fill_loops_total [of 0 n ?s] by auto
  have "sn_io_loops s = map (\<lambda>i. Some (io_worker_new i)) [0..<n]" "sn_queue s = q"
    using fill_loops [OF s] by (auto intro: nth_equalityI)
  moreover have "session_make n = Inr s"
    using s assms by (simp add: session_make_def Let_def)
  ultimately show ?thesis by blast
qed

text \<open>
  A worker cannot make a pool with connections: the pool's constructor tests the indeterminate
  \<open>ssl_context\<close>.
\<close>

lemma add_pool_indeterminate:
  assumes "0 < core"
  shows "add_pool env session host core mx (io_worker_new loop) = Inl Indeterminate"
  using assms by (cases core) (simp_all add: add_pool_def pool_new_def io_worker_new_def
      spawn_connection_def)

lemma ssl_session_new_indeterminate:
  assumes "session_make n = Inr s"
  shows "ssl_session_new fresh s = Inl Indeterminate"
  using assms by (auto simp: session_make_def Let_def ssl_session_new_def dest!: fill_loops)

subsection \<open>Properties\<close>

text \<open>
  C25: A session starts with a working queue. For every number of event loops the constructor
  creates one worker for each, and its queue of 1024 places passes the assertion on its size.
  Under every schedule of callers and workers the queue behaves as a first-in first-out queue of
  that capacity. No request is handed out twice or made up, and once no call is under
  way the requests handed out are exactly the first ones put: none is lost.
\<close>

theorem session_queue_fifo:
  assumes "schedule as (threads_init q) = (es, t)" and "length (puts es) < 2 ^ 62"
    and "mpmc_queue_new 1024 = Inr q"
  shows "\<exists>(s :: 'ssl session) f. session_make n = Inr s \<and> sn_queue s = q \<and>
     sn_io_loops s = map (\<lambda>i. Some (io_worker_new i)) [0..<n] \<and>
     fifo_run 1024 fifo_init es f \<and> ff_items f = drop (takes es) (puts es) \<and>
     mset (returned es) \<subseteq># mset (puts es) \<and>
     (all_idle t \<longrightarrow> mset (returned es) = mset (take (takes es) (puts es)))"
proof -
  obtain s :: "'ssl session" where s: "session_make n = Inr s" "sn_queue s = q"
      "sn_io_loops s = map (\<lambda>i. Some (io_worker_new i)) [0..<n]"
    using session_make_shape [OF assms(3)] by blast
  have run: "mpmc_runs 1024 t es"
    using assms by (auto simp: mpmc_runs_def)
  note fifo = mpmc_runs_refines [OF run]
  show ?thesis
    using s fifo fifo_run_items(1) [OF fifo] mpmc_fifo.returned_was_put [OF run]
      mpmc_fifo.nothing_lost [OF run]
    by (auto simp: fifo_init_def)
qed

theorem session_queue_fifo_witness:
  "\<exists>(s :: unit session) f. session_make 2 = Inr s \<and>
     sn_io_loops s = [Some (io_worker_new 0), Some (io_worker_new 1)] \<and>
     fifo_run 1024 fifo_init [(3, Claimed (7 :: nat)), (3, Enqueued)] f \<and> ff_items f = [7]"
proof -
  obtain q :: "nat mpmc_queue" where q: "mpmc_queue_new 1024 = Inr q"
    by (simp add: mpmc_queue_new_def power_of_2_assert_def)
  let ?as = "CallEnqueue 3 7 # replicate 5 (Advance 3 False)"
  let ?t = "snd (schedule ?as (threads_init q))"
  have "fst (schedule ?as (threads_init q)) = [(3, Claimed 7), (3, Enqueued)]"
    using mpmc_idle_step(1) [OF mpmc_ok_init(1) [OF q], of 3 7] by (simp add: threads_init_def)
  then have run: "schedule ?as (threads_init q) = ([(3, Claimed 7), (3, Enqueued)], ?t)"
    by (metis prod.collapse)
  from session_queue_fifo [where 'ssl = unit, OF run _ q, of 2] show ?thesis
    by (auto simp: upt_conv_Cons)
qed

end
