(* ===== verification/Cluster.thy ===== *)
theory Cluster
  imports Session
begin

text \<open>
  \<^verbatim>\<open>include/cql_cluster.hpp\<close>: the options of a cluster, with the program
  \<^verbatim>\<open>src/client/main.cpp\<close> that uses it. An option's value is a pointer and a size.
\<close>

lemmas option_codes = CQL_OPTION_THREADS_IO_def CQL_OPTION_THREADS_CALLBACK_def
  CQL_OPTION_CONTACT_POINT_ADD_def CQL_OPTION_PORT_def CQL_OPTION_CQL_VERSION_def
  CQL_OPTION_SCHEMA_AGREEMENT_WAIT_def CQL_OPTION_CONTROL_CONNECTION_TIMEOUT_def
  CQL_OPTION_COMPRESSION_def

record cluster =
  cl_port :: bytes
  cl_cql_version :: bytes
  cl_compression :: int32
  cl_max_schema_agreement_wait :: size_t
  cl_control_connection_timeout :: size_t
  cl_contact_points :: "bytes list"
  cl_thread_count_io :: size_t
  cl_thread_count_callback :: size_t
  cl_log_callback :: "nat option"

definition cluster_new :: cluster where
  "cluster_new =
     \<lparr>cl_port = str ''9042'', cl_cql_version = str ''3.0.0'', cl_compression = 0,
      cl_max_schema_agreement_wait = 10, cl_control_connection_timeout = 10, cl_contact_points = [],
      cl_thread_count_io = 1, cl_thread_count_callback = 4, cl_log_callback = None\<rparr>"

definition log_callback :: "nat option \<Rightarrow> cluster \<Rightarrow> cluster" where
  "log_callback callback c = c\<lparr>cl_log_callback := callback\<rparr>"

text \<open>\<open>connect\<close> in its three forms; a \<open>Session*\<close> is null or a session.\<close>

definition cluster_connect_ptr :: "char_ptr \<Rightarrow> size_t \<Rightarrow> cluster \<Rightarrow> unit session option" where
  "cluster_connect_ptr keyspace sz c = None"

definition cluster_connect_string :: "bytes \<Rightarrow> cluster \<Rightarrow> unit session option" where
  "cluster_connect_string keyspace c =
     cluster_connect_ptr (Ptr (map Some (keyspace @ [0])) 0) (of_nat (length keyspace)) c"

definition cluster_connect :: "cluster \<Rightarrow> unit session option" where
  "cluster_connect c = cluster_connect_ptr Null 0 c"

text \<open>The value is read as an \<open>int\<close> before the switch, whatever the option is.\<close>

definition cluster_option :: "int \<Rightarrow> char_ptr \<Rightarrow> nat \<Rightarrow> cluster \<Rightarrow> cluster result" where
  "cluster_option opt value sz c =
     bind_result (load_bytes value 4) (\<lambda>bs.
     let int_value = val32 bs in
     if opt = CQL_OPTION_THREADS_IO then Inr (c\<lparr>cl_thread_count_io := scast int_value\<rparr>)
     else if opt = CQL_OPTION_THREADS_CALLBACK then Inr (c\<lparr>cl_thread_count_callback := scast int_value\<rparr>)
     else if opt = CQL_OPTION_CONTACT_POINT_ADD
     then bind_result (load_bytes value sz) (\<lambda>s. Inr (c\<lparr>cl_contact_points := cl_contact_points c @ [s]\<rparr>))
     else if opt = CQL_OPTION_PORT then bind_result (load_bytes value sz) (\<lambda>s. Inr (c\<lparr>cl_port := s\<rparr>))
     else if opt = CQL_OPTION_CQL_VERSION
     then bind_result (load_bytes value sz) (\<lambda>s. Inr (c\<lparr>cl_cql_version := s\<rparr>))
     else if opt = CQL_OPTION_COMPRESSION then Inr (c\<lparr>cl_compression := int_value\<rparr>)
     else if opt = CQL_OPTION_CONTROL_CONNECTION_TIMEOUT
     then Inr (c\<lparr>cl_control_connection_timeout := scast int_value\<rparr>)
     else if opt = CQL_OPTION_SCHEMA_AGREEMENT_WAIT
     then Inr (c\<lparr>cl_max_schema_agreement_wait := scast int_value\<rparr>)
     else Inr c)"

text \<open>
  \<open>print_log\<close> of the client, as the bytes it prints, and \<open>main\<close>, which calls \<open>shutdown\<close> of the
  session it got.
\<close>

definition print_log :: "int \<Rightarrow> char_ptr \<Rightarrow> nat \<Rightarrow> bytes result" where
  "print_log level message sz =
     bind_result (c_string message) (\<lambda>text. Inr (str ''log: '' @ text @ [10]))"

definition client_main :: "unit result" where
  "client_main =
     (let cluster = log_callback (Some 0) cluster_new in
      (case cluster_connect cluster of None \<Rightarrow> Inl NullDeref | Some session \<Rightarrow>
        (let session = shutdown session in Inr ())))"

lemma client_main_faults: "client_main = Inl NullDeref"
  by (simp add: client_main_def cluster_connect_def cluster_connect_ptr_def)

subsection \<open>Adding contact points\<close>

text \<open>A list of host names set one after the other, each in a buffer of its own length.\<close>

fun add_contact_points :: "bytes list \<Rightarrow> cluster \<Rightarrow> cluster result" where
  "add_contact_points [] c = Inr c"
| "add_contact_points (h # hs) c =
     bind_result (cluster_option CQL_OPTION_CONTACT_POINT_ADD (Ptr (map Some h) 0) (length h) c)
       (add_contact_points hs)"

lemma load_exact: "load_bytes (Ptr (map Some h) 0) n = (if n \<le> length h then Inr (take n h)
    else Inl OutOfBounds)"
  by (auto simp: take_map comp_def)

lemma contact_point_option:
  "cluster_option CQL_OPTION_CONTACT_POINT_ADD (Ptr (map Some h) 0) (length h) c =
     (if 4 \<le> length h then Inr (c\<lparr>cl_contact_points := cl_contact_points c @ [h]\<rparr>) else Inl OutOfBounds)"
  by (simp add: cluster_option_def load_exact Let_def option_codes del: load_bytes.simps)

subsection \<open>Properties\<close>

text \<open>
  Contact points are kept in the order in which they are added and nothing else of the cluster
  changes, as long as every name has four bytes or more; a shorter name ends in a read behind its
  buffer, because \<open>option\<close> reads every value as an \<open>int\<close> first.
\<close>

lemma cluster_contact_points:
  "add_contact_points hs c =
     (if list_all (\<lambda>h. 4 \<le> length h) hs
      then Inr (c\<lparr>cl_contact_points := cl_contact_points c @ hs\<rparr>) else Inl OutOfBounds)"
  by (induction hs arbitrary: c) (simp_all add: contact_point_option)

end
