(* ===== verification/Ssl_Session.thy ===== *)
theory Ssl_Session
  imports Connection
begin

text \<open>
  \<^verbatim>\<open>include/cql_ssl_session.hpp\<close>: the session object around OpenSSL, and its place in a
  connection. OpenSSL is not part of the repository: the calls the session makes are the fields
  of the record \<open>openssl\<close>, functions on a state \<open>'o\<close> that stands for the \<open>SSL\<close> object
  with its BIOs. A pointer that \<open>init\<close> has not set is \<open>None\<close>, a null pointer \<open>Some False\<close>.
\<close>

subsection \<open>OpenSSL as a parameter\<close>

datatype bio = SslBio | NetworkBio

record 'o openssl =
  os_bio_new_bio_pair :: "nat \<Rightarrow> nat \<Rightarrow> 'o \<Rightarrow> bool \<times> 'o"
  os_bio_new_ssl :: "'o \<Rightarrow> bool \<times> 'o"
  os_ssl_set_bio :: "'o \<Rightarrow> 'o"
  os_bio_set_ssl :: "'o \<Rightarrow> 'o"
  os_ssl_shutdown :: "'o \<Rightarrow> 'o"
  os_ssl_free :: "'o \<Rightarrow> 'o"
  os_ssl_set_connect_state :: "'o \<Rightarrow> 'o"
  os_ssl_set_accept_state :: "'o \<Rightarrow> 'o"
  os_ssl_do_handshake :: "'o \<Rightarrow> 'o"
  os_ssl_is_init_finished :: "'o \<Rightarrow> bool"
  os_ssl_cipher_description :: "nat \<Rightarrow> 'o \<Rightarrow> bytes"
  os_bio_write :: "bio \<Rightarrow> bytes \<Rightarrow> 'o \<Rightarrow> int32 \<times> 'o"
  os_bio_read :: "bio \<Rightarrow> nat \<Rightarrow> 'o \<Rightarrow> int32 \<times> bytes \<times> 'o"
  os_bio_ctrl_pending :: "bio \<Rightarrow> 'o \<Rightarrow> nat"
  os_bio_get_write_guarantee :: "'o \<Rightarrow> nat"
  os_ssl_get_error :: "int32 \<Rightarrow> 'o \<Rightarrow> int"
  os_err_error_string :: "int \<Rightarrow> bytes"

definition BUFFER_SIZE :: nat where "BUFFER_SIZE = 66560"
definition SSL_ERROR_NONE :: int where "SSL_ERROR_NONE = 0"
definition SSL_ERROR_WANT_READ :: int where "SSL_ERROR_WANT_READ = 2"

subsection \<open>The session\<close>

record 'o ssl_session =
  ss_ssl :: bool
  ss_ssl_bio :: "bool option"
  ss_network_bio :: "bool option"
  ss_internal_bio :: "bool option"
  ss_lib :: 'o

text \<open>The constructor; \<open>ssl\<close> is what \<open>SSL_new\<close> returned, with the library's state.\<close>

definition ssl_session_make :: "bool \<Rightarrow> 'o \<Rightarrow> 'o ssl_session" where
  "ssl_session_make ssl lib =
     \<lparr>ss_ssl = ssl, ss_ssl_bio = None, ss_network_bio = None, ss_internal_bio = None, ss_lib = lib\<rparr>"

definition session_init :: "'o openssl \<Rightarrow> 'o ssl_session \<Rightarrow> bool \<times> 'o ssl_session" where
  "session_init os s =
     (if \<not> ss_ssl s then (False, s)
      else let (pair, lib) = os_bio_new_bio_pair os BUFFER_SIZE BUFFER_SIZE (ss_lib s);
               s = s\<lparr>ss_lib := lib, ss_internal_bio := Some pair, ss_network_bio := Some pair\<rparr> in
        if \<not> pair then (False, s)
        else let (bio, lib) = os_bio_new_ssl os (ss_lib s);
                 s = s\<lparr>ss_lib := lib, ss_ssl_bio := Some bio\<rparr> in
          if \<not> bio then (False, s)
          else (True, s\<lparr>ss_lib := os_bio_set_ssl os (os_ssl_set_bio os (ss_lib s))\<rparr>))"

text \<open>The calls below dereference \<open>ssl\<close>.\<close>

definition with_ssl :: "'o ssl_session \<Rightarrow> 'b result \<Rightarrow> 'b result" where
  "with_ssl s r = (if ss_ssl s then r else Inl NullDeref)"

definition session_shutdown :: "'o openssl \<Rightarrow> 'o ssl_session \<Rightarrow> 'o ssl_session result" where
  "session_shutdown os s =
     with_ssl s (Inr (s\<lparr>ss_lib := os_ssl_free os (os_ssl_shutdown os (ss_lib s))\<rparr>))"

definition session_handshake :: "'o openssl \<Rightarrow> bool \<Rightarrow> 'o ssl_session \<Rightarrow> 'o ssl_session result" where
  "session_handshake os client s =
     with_ssl s
       (let lib = (if client then os_ssl_set_connect_state os (ss_lib s)
                   else os_ssl_set_accept_state os (ss_lib s)) in
        Inr (s\<lparr>ss_lib := os_ssl_do_handshake os lib\<rparr>))"

definition session_handshake_done :: "'o openssl \<Rightarrow> 'o ssl_session \<Rightarrow> bool result" where
  "session_handshake_done os s = with_ssl s (Inr (os_ssl_is_init_finished os (ss_lib s)))"

definition session_ciphers :: "'o openssl \<Rightarrow> nat \<Rightarrow> 'o ssl_session \<Rightarrow> bytes result" where
  "session_ciphers os sz s = with_ssl s (Inr (os_ssl_cipher_description os sz (ss_lib s)))"

subsection \<open>read_write\<close>

text \<open>A BIO that is not there cannot be used.\<close>

definition with_bio :: "bool option \<Rightarrow> 'b result \<Rightarrow> 'b result" where
  "with_bio b r = (case b of None \<Rightarrow> Inl Indeterminate | Some False \<Rightarrow> Inl NullDeref | Some True \<Rightarrow> r)"

text \<open>The output parameters.\<close>

record rw_out =
  rw_read_size :: nat
  rw_read_output :: "block option"
  rw_read_output_size :: size_t
  rw_write_output :: "block option"
  rw_write_output_size :: nat

definition rw_out_init :: rw_out where
  "rw_out_init = \<lparr>rw_read_size = 0, rw_read_output = None, rw_read_output_size = 0,
     rw_write_output = None, rw_write_output_size = 0\<rparr>"

text \<open>\<open>CQL_SSL_CHECK_ERROR\<close>: the error to return, if any.\<close>

definition ssl_check_error :: "'o openssl \<Rightarrow> int32 \<Rightarrow> int \<Rightarrow> 'o \<Rightarrow> cql_error option" where
  "ssl_check_error os input line lib =
     (let err = os_ssl_get_error os input lib in
      if err \<noteq> SSL_ERROR_NONE \<and> err \<noteq> SSL_ERROR_WANT_READ
      then Some (error_make CQL_ERROR_SOURCE_SSL err (os_err_error_string os err)
             (str ''cql_ssl_session.hpp'') line)
      else None)"

text \<open>The bytes that \<open>BIO_read\<close> stored, at the start of the buffer.\<close>

definition fill :: "bytes \<Rightarrow> block \<Rightarrow> block result" where
  "fill bs b = bind_result (put b 0 bs) (\<lambda>(b, _). Inr b)"

text \<open>
  The four parts of \<open>read_write\<close>. Each returns an error to return early with, or goes on with
  the library's state and the outputs.
\<close>

type_synonym 'o rw_step = "(cql_error option \<times> 'o \<times> rw_out) result"

definition rw_write_plain :: "'o openssl \<Rightarrow> bool option \<Rightarrow> char_ptr \<Rightarrow> nat \<Rightarrow> 'o \<Rightarrow> rw_out \<Rightarrow> 'o rw_step" where
  "rw_write_plain os ssl_bio write_input write_input_size lib out =
     (if write_input_size \<noteq> 0
      then with_bio ssl_bio
        (bind_result (load_bytes write_input write_input_size) (\<lambda>bs.
         let (write_status, lib) = os_bio_write os SslBio bs lib in
         Inr (ssl_check_error os write_status 139 lib, lib, out)))
      else Inr (None, lib, out))"

definition rw_read_plain :: "'o openssl \<Rightarrow> allocator \<Rightarrow> bool option \<Rightarrow> 'o \<Rightarrow> rw_out \<Rightarrow> 'o rw_step" where
  "rw_read_plain os alloc ssl_bio lib out =
     with_bio ssl_bio
       (let pending = (of_nat (os_bio_ctrl_pending os SslBio lib) :: int32) in
        if pending \<noteq> 0
        then if sint pending < 0 then Inl BadAlloc
          else let (n, bs, lib) = os_bio_read os SslBio (unat pending) lib in
            bind_result (fill bs (new_char alloc (unat pending))) (\<lambda>b.
            Inr (ssl_check_error os n 147 lib, lib,
              out\<lparr>rw_read_output := Some b, rw_read_output_size := scast n\<rparr>))
        else Inr (None, lib, out))"

definition rw_feed :: "'o openssl \<Rightarrow> bool option \<Rightarrow> char_ptr \<Rightarrow> nat \<Rightarrow> 'o \<Rightarrow> rw_out \<Rightarrow> 'o rw_step" where
  "rw_feed os network_bio read_input read_input_size lib out =
     (if read_input_size > 0
      then with_bio network_bio
        (let room = os_bio_get_write_guarantee os lib in
         if room \<noteq> 0
         then let read_size = (if room > read_input_size then read_input_size else room) in
           bind_result (load_bytes read_input read_size) (\<lambda>bs.
           let (n, lib) = os_bio_write os NetworkBio bs lib in
           Inr (ssl_check_error os n 156 lib, lib, out\<lparr>rw_read_size := read_size\<rparr>))
         else Inr (None, lib, out\<lparr>rw_read_size := 0\<rparr>))
      else Inr (None, lib, out\<lparr>rw_read_size := 0\<rparr>))"

definition rw_drain :: "'o openssl \<Rightarrow> allocator \<Rightarrow> bool option \<Rightarrow> 'o \<Rightarrow> rw_out \<Rightarrow> 'o rw_step" where
  "rw_drain os alloc network_bio lib out =
     with_bio network_bio
       (let sz = os_bio_ctrl_pending os NetworkBio lib in
        if sz \<noteq> 0
        then let (n, bs, lib) = os_bio_read os NetworkBio sz lib in
          bind_result (fill bs (new_char alloc sz)) (\<lambda>b.
          Inr (ssl_check_error os n 166 lib, lib, out\<lparr>rw_write_output := Some b,
            rw_write_output_size := sz\<rparr>))
        else Inr (None, lib, out\<lparr>rw_write_output_size := sz\<rparr>))"

text \<open>The next part, unless the part before it returned an error.\<close>

definition and_then :: "'o rw_step \<Rightarrow> ('o \<Rightarrow> rw_out \<Rightarrow> 'o rw_step) \<Rightarrow> 'o rw_step" where
  "and_then r f = bind_result r (\<lambda>(err, lib, out).
     case err of None \<Rightarrow> f lib out | Some e \<Rightarrow> Inr (Some e, lib, out))"

definition read_write ::
  "'o openssl \<Rightarrow> allocator \<Rightarrow> char_ptr \<Rightarrow> nat \<Rightarrow> char_ptr \<Rightarrow> nat \<Rightarrow> rw_out \<Rightarrow> 'o ssl_session \<Rightarrow>
    (cql_error option \<times> 'o ssl_session \<times> rw_out) result" where
  "read_write os alloc read_input read_input_size write_input write_input_size out s =
     bind_result
       (and_then (and_then (and_then
          (rw_write_plain os (ss_ssl_bio s) write_input write_input_size (ss_lib s) out)
          (rw_read_plain os alloc (ss_ssl_bio s)))
          (rw_feed os (ss_network_bio s) read_input read_input_size))
          (rw_drain os alloc (ss_network_bio s)))
       (\<lambda>(err, lib, out). Inr (err, s\<lparr>ss_lib := lib\<rparr>, out))"

subsection \<open>The session inside a connection\<close>

text \<open>
  What \<open>on_read\<close> makes of a call: it ignores the error, passes on the read output if there is
  one of non-zero size, and sends the write output likewise.
\<close>

definition session_read_write ::
  "'o openssl \<Rightarrow> allocator \<Rightarrow> char_ptr \<Rightarrow> nat \<Rightarrow> 'o ssl_session \<Rightarrow>
    ('o ssl_session \<times> nat \<times> (block \<times> nat) option \<times> (block \<times> nat) option) result" where
  "session_read_write os alloc input n s =
     bind_result (read_write os alloc input n Null 0 rw_out_init s) (\<lambda>(err, s, out).
     Inr (s, rw_read_size out,
       (case rw_read_output out of
          None \<Rightarrow> None
        | Some b \<Rightarrow> if rw_read_output_size out = 0 then None else Some (b, unat (rw_read_output_size out))),
       (case rw_write_output out of
          None \<Rightarrow> None
        | Some b \<Rightarrow> if rw_write_output_size out = 0 then None else Some (b, rw_write_output_size out))))"

definition session_env :: "'o openssl \<Rightarrow> 'o ssl_session conn_env \<Rightarrow> 'o ssl_session conn_env" where
  "session_env os env =
     env\<lparr>ssl_start := (\<lambda>s. s), ssl_read_write := session_read_write os (env_alloc env),
         ssl_handshake_finished := (\<lambda>s. os_ssl_is_init_finished os (ss_lib s))\<rparr>"

text \<open>
  The constructor of a connection with a session, which starts the session (and ignores whether
  \<open>init\<close> succeeded) before the handlers above can run.
\<close>

definition connection_ssl_new ::
  "'o openssl \<Rightarrow> 'o ssl_session conn_env \<Rightarrow> 'o ssl_session \<Rightarrow> 'o ssl_session connection result" where
  "connection_ssl_new os env s =
     bind_result (session_handshake os True (snd (session_init os s))) (\<lambda>s.
     Inr (connection_new (session_env os env) (Some s)))"

end
