(* ===== verification/Ssl_Props.thy ===== *)
theory Ssl_Props
  imports Ssl_Session Connection_Props
begin

text \<open>
  Properties of a connection that reads through an SSL session (\<^verbatim>\<open>include/cql_ssl_session.hpp\<close>
  and the SSL branch of \<open>ClientConnection::on_read\<close>). What OpenSSL is documented to do at the
  calls in question is stated as hypotheses on the parameter \<open>os\<close>; \<open>pipe_os\<close> is an instance, a
  pipe without encryption.
\<close>

subsection \<open>Sessions and their library\<close>

definition connected :: "'o ssl_session \<Rightarrow> bool" where
  "connected s \<longleftrightarrow> ss_ssl s \<and> ss_ssl_bio s = Some True \<and> ss_network_bio s = Some True"

definition SSL_ERROR_ZERO_RETURN :: int where "SSL_ERROR_ZERO_RETURN = 6"

text \<open>
  The peer has closed the SSL connection and bytes are left: reading gives nothing, and
  \<open>SSL_ERROR_ZERO_RETURN\<close>.
\<close>

definition peer_closed :: "'o openssl \<Rightarrow> 'o \<Rightarrow> bool" where
  "peer_closed os lib \<longleftrightarrow>
     (let p = os_bio_ctrl_pending os SslBio lib in
      0 < p \<and> p < 2147483648 \<and> os_bio_read os SslBio p lib = (0, [], lib) \<and>
      os_ssl_get_error os 0 lib = SSL_ERROR_ZERO_RETURN)"

lemma bind_result_right: "bind_result m Inr = m"
  by (cases m) simp_all

lemma with_bio_simps [simp]:
  "with_bio (Some True) r = r" "with_bio (Some False) r = Inl NullDeref" "with_bio None r =
      Inl Indeterminate"
  by (simp_all add: with_bio_def)

lemma and_then_simps [simp]:
  "and_then (Inr (None, lib, out)) f = f lib out"
  "and_then (Inr (Some e, lib, out)) f = Inr (Some e, lib, out)"
  "and_then (Inl x) f = Inl x"
  by (simp_all add: and_then_def)

text \<open>Documented: \<open>BIO_read\<close> stores no more bytes than it is asked for.\<close>

definition reads_at_most :: "'o openssl \<Rightarrow> bool" where
  "reads_at_most os \<longleftrightarrow> (\<forall>b n lib r bs lib'. os_bio_read os b n lib = (r, bs, lib') \<longrightarrow> length bs \<le> n)"

lemma fill_fits:
  assumes "length bs \<le> alloc n"
  shows "fill bs (new_char alloc n) = Inr (framed alloc n 0 bs)"
  using put_new_char [of 0 bs alloc n] assms by (simp add: fill_def)

lemma rw_feed_total:
  assumes "points_to P bs"
  shows "\<exists>err lib' out'. rw_feed os (Some True) P (length bs) lib out = Inr (err, lib', out') \<and>
     rw_read_output out' = rw_read_output out \<and> rw_read_output_size out' = rw_read_output_size out \<and>
     rw_read_size out' \<le> length bs"
proof -
  have "load_bytes P k = Inr (take k bs)" if "k \<le> length bs" for k
    using that assms points_to_append [of P "take k bs" "drop k bs"] by (simp add: load_bytes_iff)
  then show ?thesis by (auto simp: rw_feed_def Let_def split: prod.split)
qed

lemma rw_drain_total:
  assumes "reads_at_most os" and "\<And>n. n \<le> alloc n"
  shows "\<exists>err lib' out'. rw_drain os alloc (Some True) lib out = Inr (err, lib', out') \<and>
     rw_read_output out' = rw_read_output out \<and> rw_read_output_size out' = rw_read_output_size out \<and>
     rw_read_size out' = rw_read_size out"
proof -
  obtain r bs lib' where r: "os_bio_read os NetworkBio (os_bio_ctrl_pending os NetworkBio lib) lib =
      (r, bs, lib')"
    by (cases "os_bio_read os NetworkBio (os_bio_ctrl_pending os NetworkBio lib) lib") auto
  then have "length bs \<le> alloc (os_bio_ctrl_pending os NetworkBio lib)"
    using assms unfolding reads_at_most_def by (meson order_trans)
  then show ?thesis by (simp add: rw_drain_def Let_def r fill_fits)
qed

text \<open>No application data yet: \<open>BIO_read\<close> stores nothing and asks for more input.\<close>

lemma read_write_want_read:
  assumes s: "connected s" and P: "points_to P bs" and os: "reads_at_most os" and alloc: "\<And>n. n \<le> alloc n"
    and pend: "p = os_bio_ctrl_pending os SslBio (ss_lib s)" "0 < p" "p < 2147483648"
    and rd: "os_bio_read os SslBio p (ss_lib s) = (-1, [], lib)" and "os_ssl_get_error os (-1) lib =
      SSL_ERROR_WANT_READ"
  shows "\<exists>err s' out. read_write os alloc P (length bs) Null 0 rw_out_init s = Inr (err, s', out) \<and>
     rw_read_output out = Some (new_char alloc p) \<and> rw_read_output_size out = - 1 \<and>
       rw_read_size out \<le> length bs"
proof -
  let ?out = "rw_out_init\<lparr>rw_read_output := Some (new_char alloc p), rw_read_output_size := - 1\<rparr>"
  have p32: "(of_nat p :: int32) \<noteq> 0" "\<not> sint (of_nat p :: int32) < 0" "unat (of_nat p :: int32) = p"
    using pend(2,3) by (simp_all add: of_nat_32_zero sint_of_nat_32)
  have "fill [] (new_char alloc p) = Inr (new_char alloc p)"
    by (simp add: fill_def put_def)
  then have "rw_read_plain os alloc (Some True) (ss_lib s) rw_out_init = Inr (None, lib, ?out)"
    using assms(9) by (simp add: rw_read_plain_def Let_def p32 flip: pend(1))
      (simp add: rd ssl_check_error_def SSL_ERROR_NONE_def)
  moreover obtain e1 lib1 out1 where feed: "rw_feed os (Some True) P (length bs) lib ?out = Inr (e1,
      lib1, out1)"
    "rw_read_output out1 = Some (new_char alloc p)" "rw_read_output_size out1 =
      - 1" "rw_read_size out1 \<le> length bs"
    using rw_feed_total [OF P, of os lib ?out] by auto
  moreover obtain e2 lib2 out2 where "rw_drain os alloc (Some True) lib1 out1 = Inr (e2, lib2, out2)"
    "rw_read_output out2 = rw_read_output out1" "rw_read_output_size out2 =
      rw_read_output_size out1" "rw_read_size out2 = rw_read_size out1"
    using rw_drain_total [OF os alloc, where lib = lib1 and out = out1] by auto
  ultimately show ?thesis
    using s by (cases e1) (simp_all add: read_write_def connected_def rw_write_plain_def)
qed

lemma minus_one_32: "(of_nat (2 ^ 64 - 1) :: int32) = - 1"
  by (simp add: word_uint_eq_iff unsigned_minus_1_eq_mask mask_eq_exp_minus_1)

lemma consume_huge:
  assumes m: "header_partial (c_incomming c) h" and b: "length b < 2 ^ 64 - 1"
  shows "consume env (Ptr b 0) (2 ^ 64 - 1) c = Inl OutOfBounds"
proof -
  define n :: nat where "n = 2 ^ 64 - 1"
  have n: "(of_nat n :: int32) = - 1" "n = Suc (2 ^ 64 - 2)" "unat (- 1 :: size_t) = n" "length b < n"
    using minus_one_32 b by (simp_all add: n_def unsigned_minus_1_eq_mask mask_eq_exp_minus_1)
  have "sint (word_of_nat (length h) - 1 :: int32) < 8" 
    using m sint_of_nat_32 [of "length h - 1"] by (cases "length h") (auto simp: header_partial_def)
  then have "message_consume (env_alloc env) (c_incomming c) (Ptr b 0) n = Inl OutOfBounds"
    using m n(1,4) by (simp add: message_consume_def Let_def header_partial_def CQL_HEADER_SIZE_def)
  then have "consume_loop (Suc k) env n (Ptr b 0) (- 1) c = Inl OutOfBounds" for k
    by (simp add: n(3))
  then show ?thesis
    unfolding n_def [symmetric] consume_def n(1) using n(2) by metis
qed

lemma unat_minus_one_64: "unat (- 1 :: size_t) = 2 ^ 64 - 1"
  by (simp add: unsigned_minus_1_eq_mask mask_eq_exp_minus_1)

lemma pending_32:
  assumes "0 < p" and "p < 2147483648"
  shows "(of_nat p :: int32) \<noteq> 0" and "\<not> sint (of_nat p :: int32) < 0" and "unat (of_nat p :: int32) = p"
  using assms by (simp_all add: of_nat_32_zero sint_of_nat_32)

lemma session_read_write_closed:
  assumes "connected s" and "peer_closed os (ss_lib s)"
  shows "session_read_write os alloc P n s = Inr (s, 0, None, None)"
proof -
  let ?p = "os_bio_ctrl_pending os SslBio (ss_lib s)"
  have p: "0 < ?p" "?p < 2147483648" and rd: "os_bio_read os SslBio ?p (ss_lib s) = (0, [], ss_lib s)"
    and err: "os_ssl_get_error os 0 (ss_lib s) = SSL_ERROR_ZERO_RETURN"
    using assms(2) by (simp_all add: peer_closed_def Let_def)
  have "fill [] (new_char alloc ?p) = Inr (new_char alloc ?p)"
    by (simp add: fill_def put_def)
  then show ?thesis
    using assms(1) by (simp add: session_read_write_def read_write_def connected_def rw_write_plain_def
        rw_read_plain_def Let_def pending_32 [OF p] rd ssl_check_error_def err SSL_ERROR_ZERO_RETURN_def
        SSL_ERROR_NONE_def SSL_ERROR_WANT_READ_def rw_out_init_def)
qed

lemma send_options_ssl: "send_options env c = Inr c' \<Longrightarrow> c_ssl c' = c_ssl c"
  by (auto simp: send_options_def send_message_def Let_def split: option.splits)

lemma event_received_late_ssl:
  "event_received_late env (c\<lparr>c_state := CLIENT_STATE_HANDSHAKE\<rparr>) = Inr c' \<Longrightarrow> c_ssl c' = c_ssl c"
  using send_options_ssl by (fastforce simp: event_received_late_def event_switch_def Let_def)

lemma ssl_read_loop_closed:
  assumes "connected s" and "peer_closed os (ss_lib s)" and "c_ssl c = Some s" and "0 < n"
  shows "ssl_read_loop fuel (session_env os env) P n c \<noteq> Inr c'"
  using assms(3)
proof (induction fuel arbitrary: P c)
  case (Suc fuel)
  have rw: "ssl_read_write (session_env os env) P n s = Inr (s, 0, None, None)"
    using session_read_write_closed [OF assms(1,2)] by (simp add: session_env_def)
  show ?case
    using Suc assms(4) event_received_late_ssl [of "session_env os env" "c\<lparr>c_ssl := Some s\<rparr>"]
    by (auto simp: rw bind_result_Inr_iff Let_def split: if_splits)
qed simp

text \<open>
  What OpenSSL does in one call of \<open>read_write\<close> without an error: it has \<open>p\<close> bytes pending, of
  which \<open>BIO_read\<close> decrypts \<open>ds\<close> (it is not called if there are none); it has room for the input \<open>bs\<close>,
  which \<open>BIO_write\<close> takes (it is not called if there is none); then it has the bytes \<open>es\<close> to send.
\<close>

definition openssl_flow ::
  "'o openssl \<Rightarrow> 'o \<Rightarrow> nat \<Rightarrow> bytes \<Rightarrow> bytes \<Rightarrow> bytes \<Rightarrow> 'o \<Rightarrow> bool" where
  "openssl_flow os lib p bs ds es lib3 \<longleftrightarrow>
     (\<exists>lib1 lib2 r r'. p = os_bio_ctrl_pending os SslBio lib \<and> p < 2147483648 \<and>
        (if p = 0 then ds = [] \<and> lib1 = lib
         else os_bio_read os SslBio p lib = (of_nat (length ds), ds, lib1) \<and> length ds \<le> p \<and>
           os_ssl_get_error os (of_nat (length ds)) lib1 = SSL_ERROR_NONE) \<and>
        (if bs = [] then lib2 = lib1
         else length bs \<le> os_bio_get_write_guarantee os lib1 \<and>
           os_bio_write os NetworkBio bs lib1 = (r, lib2) \<and> os_ssl_get_error os r lib2 = SSL_ERROR_NONE) \<and>
        length es = os_bio_ctrl_pending os NetworkBio lib2 \<and>
        (if es = [] then lib3 = lib2
         else os_bio_read os NetworkBio (length es) lib2 = (r', es, lib3)))"

lemma rw_read_plain_flow:
  assumes alloc: "p \<le> alloc p" and p: "p = os_bio_ctrl_pending os SslBio lib" "p < 2147483648"
    and rd: "if p = 0 then ds = [] \<and> lib1 = lib
         else os_bio_read os SslBio p lib = (of_nat (length ds), ds, lib1) \<and> length ds \<le> p \<and>
           os_ssl_get_error os (of_nat (length ds)) lib1 = SSL_ERROR_NONE"
  shows "rw_read_plain os alloc (Some True) lib rw_out_init = Inr (None, lib1,
    rw_out_init\<lparr>rw_read_output := (if p = 0 then None else Some (framed alloc p 0 ds)),
      rw_read_output_size := of_nat (length ds)\<rparr>)"
proof (cases "p = 0")
  case True
  then show ?thesis using p(1) rd by (simp add: rw_read_plain_def rw_out_init_def)
next
  case False
  then have "0 < p" by simp
  have len: "length ds < 2147483648" "length ds \<le> alloc p" using p(2) rd alloc False by simp_all
  have sc: "scast (of_nat (length ds) :: int32) = (of_nat (length ds) :: size_t)"
    using sint_of_nat_32 [OF len(1)] by (simp add: signed_def)
  have "fill ds (new_char alloc p) = Inr (framed alloc p 0 ds)" using len(2) by (rule fill_fits)
  then show ?thesis
    using False rd
    by (simp add: rw_read_plain_def Let_def pending_32 [OF \<open>0 < p\<close> p(2)] ssl_check_error_def sc
      flip: p(1))
qed

lemma session_read_write_flow:
  assumes s: "connected s" and P: "points_to P bs" and alloc: "\<And>n. n \<le> alloc n"
    and flow: "openssl_flow os (ss_lib s) p bs ds es lib3"
  shows "session_read_write os alloc P (length bs) s =
    Inr (s\<lparr>ss_lib := lib3\<rparr>, length bs, (if ds = [] then None else Some (framed alloc p 0 ds, length ds)),
      (if es = [] then None else Some (framed alloc (length es) 0 es, length es)))"
proof -
  from flow obtain lib1 lib2 r r' where p: "p = os_bio_ctrl_pending os SslBio (ss_lib s)" "p < 2147483648"
    and rd: "if p = 0 then ds = [] \<and> lib1 = ss_lib s
         else os_bio_read os SslBio p (ss_lib s) = (of_nat (length ds), ds, lib1) \<and> length ds \<le> p \<and>
           os_ssl_get_error os (of_nat (length ds)) lib1 = SSL_ERROR_NONE"
    and wr: "if bs = [] then lib2 = lib1
         else length bs \<le> os_bio_get_write_guarantee os lib1 \<and>
           os_bio_write os NetworkBio bs lib1 = (r, lib2) \<and> os_ssl_get_error os r lib2 = SSL_ERROR_NONE"
    and q: "os_bio_ctrl_pending os NetworkBio lib2 = length es"
    and dr: "if es = [] then lib3 = lib2 else os_bio_read os NetworkBio (length es) lib2 = (r', es, lib3)"
    unfolding openssl_flow_def by auto
  have len: "length ds < 2147483648" and dsp: "p = 0 \<Longrightarrow> ds = []" using p(2) rd by (simp_all split: if_splits)
  have size: "(of_nat (length ds) :: size_t) = 0 \<longleftrightarrow> ds = []" "unat (of_nat (length ds) :: size_t) =
      length ds"
    using len by (auto simp: unat_of_nat take_bit_nat_eq_self word_of_nat_eq_0_iff dest: dvd_imp_le)
  note plain = rw_read_plain_flow [where alloc = alloc, OF alloc p rd]
  have load: "load_bytes P (length bs) = Inr bs" using P by (rule load_points_to)
  have feed: "rw_feed os (Some True) P (length bs) lib1 out = Inr (None, lib2,
      out\<lparr>rw_read_size := length bs\<rparr>)" for out
    using wr load
    by (cases "os_bio_get_write_guarantee os lib1 = length bs")
      (auto simp: rw_feed_def Let_def ssl_check_error_def split: if_splits)
  have "fill es (new_char alloc (length es)) = Inr (framed alloc (length es) 0 es)"
    by (rule fill_fits) (rule alloc)
  then have drain: "\<exists>err. rw_drain os alloc (Some True) lib2 out = Inr (err, lib3,
      out\<lparr>rw_write_output := (if es = [] then None
            else Some (framed alloc (length es) 0 es)), rw_write_output_size := length es\<rparr>)"
    if "rw_write_output out = None" for out
    using dr that by (simp add: rw_drain_def Let_def q split: if_splits)
  obtain err where "rw_drain os alloc (Some True) lib2 (rw_out_init\<lparr>rw_read_output := (if p = 0 then None
        else Some (framed alloc p 0 ds)), rw_read_output_size := of_nat (length ds), rw_read_size :=
          length bs\<rparr>) =
      Inr (err, lib3, rw_out_init\<lparr>rw_read_output := (if p = 0 then None
        else Some (framed alloc p 0 ds)), rw_read_output_size := of_nat (length ds), rw_read_size :=
          length bs,
        rw_write_output := (if es = [] then None else Some (framed alloc (length es) 0 es)),
        rw_write_output_size := length es\<rparr>)"
    using drain [of "rw_out_init\<lparr>rw_read_output := (if p = 0 then None
        else Some (framed alloc p 0 ds)), rw_read_output_size := of_nat (length ds), rw_read_size :=
          length bs\<rparr>"]
    by (simp add: rw_out_init_def) blast
  then show ?thesis
    using s dsp
    by (auto simp: session_read_write_def read_write_def connected_def rw_write_plain_def plain feed size)
qed

subsection \<open>An instance\<close>

text \<open>The library's state is the plain bytes to read, the room for input, and the bytes to send.\<close>

definition pipe_os :: "(bytes \<times> nat \<times> bytes) openssl" where
  "pipe_os =
     \<lparr>os_bio_new_bio_pair = (\<lambda>m n lib. (True, ([], n, []))), os_bio_new_ssl = (\<lambda>lib. (True, lib)),
      os_ssl_set_bio = (\<lambda>lib. lib), os_bio_set_ssl = (\<lambda>lib. lib), os_ssl_shutdown = (\<lambda>lib. lib),
      os_ssl_free = (\<lambda>lib. lib), os_ssl_set_connect_state = (\<lambda>lib. lib), os_ssl_set_accept_state =
        (\<lambda>lib. lib),
      os_ssl_do_handshake = (\<lambda>lib. lib), os_ssl_is_init_finished = (\<lambda>lib. True),
      os_ssl_cipher_description = (\<lambda>n lib. []),
      os_bio_write = (\<lambda>b bs (plain, room, out). case b of
         SslBio \<Rightarrow> (of_nat (length bs), (plain, room, out @ bs))
       | NetworkBio \<Rightarrow> (of_nat (length bs), (plain @ bs, room - length bs, out))),
      os_bio_read = (\<lambda>b n (plain, room, out). case b of
         SslBio \<Rightarrow> (of_nat (length (take n plain)), take n plain, (drop n plain, room, out))
       | NetworkBio \<Rightarrow> (of_nat (length (take n out)), take n out, (plain, room, drop n out))),
      os_bio_ctrl_pending = (\<lambda>b (plain, room, out). case b of SslBio \<Rightarrow> length plain | NetworkBio
        \<Rightarrow> length out),
      os_bio_get_write_guarantee = (\<lambda>(plain, room, out). room),
      os_ssl_get_error = (\<lambda>n lib. SSL_ERROR_NONE), os_err_error_string = (\<lambda>e. [])\<rparr>"

definition pipe_session :: "bytes \<Rightarrow> bytes \<Rightarrow> (bytes \<times> nat \<times> bytes) ssl_session" where
  "pipe_session plain out =
     \<lparr>ss_ssl = True, ss_ssl_bio = Some True, ss_network_bio = Some True, ss_internal_bio = Some True,
      ss_lib = (plain, 100, out)\<rparr>"

definition pipe_env :: "(bytes \<times> nat \<times> bytes) ssl_session conn_env" where
  "pipe_env =
     \<lparr>env_alloc = (\<lambda>n. n), cb_connect = (\<lambda>e. Inr), cb_keyspace = (\<lambda>k n. Inr), cb_prepare = (\<lambda>e d p n. Inr),
      cb_request = (\<lambda>i. Inr), ssl_start = (\<lambda>s. s), ssl_read_write = (\<lambda>P n s. Inr (s, n, None, None)),
      ssl_handshake_finished = (\<lambda>s. True), ip4_name = (\<lambda>a. a), ip6_name = (\<lambda>a. a)\<rparr>"

subsection \<open>Properties\<close>

text \<open>
  C26: Reading through SSL, when the session takes the whole input at once and reports no error
  (in particular not \<open>SSL_ERROR_WANT_READ\<close>, which is not an error to the code either and for which
  the property on the overrun holds). If the session has decrypted bytes, \<open>on_read\<close> hands exactly
  those to \<open>consume\<close>, as if they had been read in the clear, and otherwise does not call it; then
  it writes exactly the bytes that the session has to send to the socket, and nothing if there are
  none.
\<close>

theorem ssl_on_read_flow:
  assumes "connected s" and "c_ssl c = Some s" and "points_to P bs" and "\<And>n. n \<le> env_alloc env n"
    and "openssl_flow os (ss_lib s) p bs ds es lib3"
  shows "on_read (Suc fuel) (session_env os env) eof (int (length bs)) P c =
    bind_result
      (let c = (conn_log CQL_LOG_DEBUG (Literal ''on_read'') c)\<lparr>c_ssl := Some (s\<lparr>ss_lib := lib3\<rparr>)\<rparr> in
       if ds = [] then Inr c
       else consume (session_env os env) (Ptr (framed (env_alloc env) p 0 ds) 0) (length ds) c)
      (\<lambda>c. Inr (if es = [] then c
        else send_data (framed (env_alloc env) (length es) 0 es) (length es) c))"
  using session_read_write_flow [OF assms(1,3,4,5)] assms(2)
  by (auto simp: on_read_def Let_def session_env_def)

text \<open>Decrypted bytes and nothing to send.\<close>

theorem ssl_on_read_flow_witness:
  "on_read (Suc 0) (session_env pipe_os pipe_env) False (int (length [7 :: byte])) (Ptr [Some 7] 0)
     (connection_new (session_env pipe_os pipe_env) (Some (pipe_session [1, 2] []))) =
    consume (session_env pipe_os pipe_env) (Ptr (framed (env_alloc pipe_env) 2 0 [1,
      2]) 0) (length [1, 2 :: byte])
      ((conn_log CQL_LOG_DEBUG (Literal ''on_read'') (connection_new (session_env pipe_os pipe_env) (Some (pipe_session [1, 2] []))))
         \<lparr>c_ssl := Some ((pipe_session [1, 2] [])\<lparr>ss_lib := ([7], 99, [])\<rparr>)\<rparr>)"
proof -
  have "openssl_flow pipe_os (ss_lib (pipe_session [1, 2] [])) 2 [7] [1, 2] [] ([7], 99, [])"
    by (simp add: openssl_flow_def pipe_os_def pipe_session_def)
  moreover have "connected (pipe_session [1, 2] [])" "points_to (Ptr [Some 7] 0) [7]"
    by (simp_all add: connected_def pipe_session_def)
  moreover have "c_ssl (connection_new (session_env pipe_os pipe_env) (Some (pipe_session [1, 2] []))) =
      Some (pipe_session [1, 2] [])"
    by (simp add: connection_new_def session_env_def)
  ultimately show ?thesis
    by (subst ssl_on_read_flow [where p = 2]) (assumption | simp add: pipe_env_def Let_def
      bind_result_right)+
qed

text \<open>
  C36: While a session has input but no application data yet, as during the handshake, \<open>BIO_read\<close>
  returns -1 with \<open>SSL_ERROR_WANT_READ\<close>, which is not treated as an error; \<open>on_read\<close> then
  passes -1 as a \<open>size_t\<close> to \<open>consume\<close>, which reads behind the buffer.
\<close>

theorem ssl_want_read_overrun:
  assumes "connected s" and "c_ssl c = Some s" and "points_to P bs" and "reads_at_most os" and "\<And>n.
      n \<le> env_alloc env n"
    and "p = os_bio_ctrl_pending os SslBio (ss_lib s)" and "0 < p" and "p < 2147483648"
    and "os_bio_read os SslBio p (ss_lib s) = (-1, [], lib)" and "os_ssl_get_error os (-1) lib =
      SSL_ERROR_WANT_READ"
    and "env_alloc env p < 2 ^ 64 - 1" and "header_partial (c_incomming c) h"
  shows "on_read (Suc fuel) (session_env os env) eof (int (length bs)) P c = Inl OutOfBounds"
proof -
  obtain err s' out where "read_write os (env_alloc env) P (length bs) Null 0 rw_out_init s =
      Inr (err, s', out)"
    "rw_read_output out = Some (new_char (env_alloc env) p)" "rw_read_output_size out = - 1"
    using read_write_want_read [OF assms(1,3,4,5-10)] by blast
  then have "\<exists>rs wo. session_read_write os (env_alloc env) P (length bs) s =
      Inr (s', rs, Some (new_char (env_alloc env) p, 2 ^ 64 - 1), wo)"
    by (simp add: session_read_write_def unat_minus_one_64)
  then obtain rs wo where rw: "session_read_write os (env_alloc env) P (length bs) s =
      Inr (s', rs, Some (new_char (env_alloc env) p, 2 ^ 64 - 1), wo)" by blast
  let ?c = "(conn_log CQL_LOG_DEBUG (Literal ''on_read'') c)\<lparr>c_ssl := Some s'\<rparr>"
  have "consume (session_env os env) (Ptr (new_char (env_alloc env) p) 0) (2 ^ 64 - 1) ?c = Inl OutOfBounds"
    using assms(11,12) by (intro consume_huge) simp_all
  then show ?thesis
    using assms(2) rw by (simp add: on_read_def Let_def session_env_def)
qed

theorem ssl_want_read_overrun_witness:
  "on_read (Suc 0) (session_env (pipe_os\<lparr>os_bio_read := \<lambda>b n lib. (- 1, [], lib),
      os_ssl_get_error := \<lambda>n lib. 2\<rparr>) pipe_env)
     False (int (length [22 :: byte])) (Ptr [Some 22] 0) (connection_new pipe_env (Some
       (pipe_session [1] []))) = Inl OutOfBounds"
  by (rule ssl_want_read_overrun [where s = "pipe_session [1] []" and p = 1 and lib = "([1], 100,
      [])" and h = "[]"])
    (simp_all add: pipe_session_def pipe_os_def pipe_env_def connected_def connection_new_def
      reads_at_most_def SSL_ERROR_WANT_READ_def header_partial_new)

text \<open>
  C37: The loop of \<open>on_read\<close> drops the error of \<open>read_write\<close>. Once the peer has closed the SSL
  connection with bytes left to read, \<open>read_write\<close> takes no input, and \<open>on_read\<close> does not
  return, however long it runs.
\<close>

theorem ssl_closed_never_returns:
  assumes "connected s" and "peer_closed os (ss_lib s)" and "c_ssl c = Some s" and "0 < n"
  shows "on_read fuel (session_env os env) eof (int n) P c \<noteq> Inr c'"
  using ssl_read_loop_closed [OF assms(1,2) _ assms(4)] assms(3) by (simp add: on_read_def Let_def)

theorem ssl_closed_never_returns_witness:
  "\<forall>fuel c'. on_read fuel (session_env (pipe_os\<lparr>os_bio_read := \<lambda>b n lib. (0, [], lib),
      os_ssl_get_error := \<lambda>n lib. 6\<rparr>) pipe_env)
     False (int 5) Null (connection_new pipe_env (Some (pipe_session [1] []))) \<noteq> Inr c'"
  by (intro allI ssl_closed_never_returns [where s = "pipe_session [1] []"])
    (simp_all add: pipe_session_def pipe_os_def pipe_env_def connected_def connection_new_def
      peer_closed_def SSL_ERROR_ZERO_RETURN_def)

end
