(* ===== verification/Ssl_Context.thy ===== *)
theory Ssl_Context
  imports Ssl_Session "HOL-Library.State_Monad"
begin

text \<open>
  \<^verbatim>\<open>include/cql_ssl_context.hpp\<close>: keys and certificates for SSL sessions. The class is a thin
  layer over OpenSSL, which is outside the repository and here a parameter \<open>ans\<close>: the answer to
  a call, as a function of the call and of all calls before it (zero is failure and the null
  pointer). The state records the calls, and the objects that were created and not yet released,
  so that the theory can say what each operation leaves behind. Objects are numbered in the order
  of their creation; a pointer is \<open>None\<close> (null) or such a number.
\<close>

subsection \<open>Calls of OpenSSL\<close>

type_synonym obj = "nat option"

datatype ossl_call =
    CRYPTO_malloc_debug_init
  | CRYPTO_dbg_set_options
  | CRYPTO_mem_ctrl
  | SSL_load_error_strings
  | ERR_load_BIO_strings
  | SSL_library_init
  | OpenSSL_add_all_algorithms
  | SSL_CTX_new bool
  | SSL_CTX_set_cipher_list obj bytes
  | SSL_CTX_set_verify obj nat
  | SSL_CTX_set_cert_store obj obj
  | SSL_CTX_add_client_CA obj obj
  | SSL_CTX_use_PrivateKey obj obj
  | SSL_CTX_use_RSAPrivateKey obj obj
  | SSL_CTX_use_certificate obj obj
  | SSL_new obj
  | X509_STORE_new
  | X509_STORE_add_cert obj obj
  | X509_STORE_add_crl obj obj
  | X509_STORE_set_flags obj
  | BIO_new_mem
  | BIO_write_mem obj bytes
  | BIO_free_all obj
  | PEM_read_bio_X509 obj "nat option"
  | PEM_read_bio_X509_CRL obj "nat option"
  | PEM_read_bio_PrivateKey obj "nat option" bytes
  | X509_new
  | X509_free obj
  | X509_CRL_free obj
  | X509_set_version obj int
  | ASN1_INTEGER_set_serial obj int
  | X509_NAME_new
  | X509_NAME_free obj
  | OBJ_txt2nid string
  | X509_NAME_add_entry_by_NID obj int bytes
  | X509_set_subject_name obj obj
  | X509_set_issuer_name obj obj
  | X509_time_adj_notBefore obj int
  | X509_time_adj_notAfter obj int
  | X509_set_pubkey obj obj
  | X509_sign obj obj
  | RSA_new
  | RSA_free obj
  | RSA_generate_key_ex obj nat obj
  | RSAPrivateKey_dup obj
  | RSAPublicKey_dup obj
  | BN_new
  | BN_set_word obj nat
  | BN_free obj
  | EVP_PKEY_new
  | EVP_PKEY_free obj
  | EVP_PKEY_assign_RSA obj obj

text \<open>
  The object that a call releases, given its answer: the \<open>free\<close> functions; an RSA key belongs to
  the \<open>EVP_PKEY\<close> it was assigned to, and a certificate store to its context.
\<close>

fun released :: "ossl_call \<Rightarrow> int \<Rightarrow> obj" where
  "released (BIO_free_all x) r = x"
| "released (X509_free x) r = x"
| "released (X509_CRL_free x) r = x"
| "released (X509_NAME_free x) r = x"
| "released (RSA_free x) r = x"
| "released (BN_free x) r = x"
| "released (EVP_PKEY_free x) r = x"
| "released (EVP_PKEY_assign_RSA p k) r = (if r \<noteq> 0 then k else None)"
| "released (SSL_CTX_set_cert_store c x) r = x"
| "released c r = None"

record ssl_world =
  ow_next :: nat
  ow_live :: "nat list"
  ow_trace :: "ossl_call list"

type_synonym answers = "ossl_call list \<Rightarrow> ossl_call \<Rightarrow> int"
type_synonym 'a ossl = "(ssl_world, 'a) state"

text \<open>A call that returns a status, and a call that returns a new object.\<close>

definition ossl :: "answers \<Rightarrow> ossl_call \<Rightarrow> int ossl" where
  "ossl ans c = State (\<lambda>w.
     let r = ans (ow_trace w) c in
     (r, w\<lparr>ow_trace := ow_trace w @ [c],
           ow_live := (case released c r of None \<Rightarrow> ow_live w | Some x \<Rightarrow> removeAll x (ow_live w))\<rparr>))"

definition ossl_new :: "answers \<Rightarrow> ossl_call \<Rightarrow> obj ossl" where
  "ossl_new ans c = State (\<lambda>w.
     if ans (ow_trace w) c = 0 then (None, w\<lparr>ow_trace := ow_trace w @ [c]\<rparr>)
     else (Some (ow_next w), w\<lparr>ow_next := Suc (ow_next w), ow_live := ow_live w @ [ow_next w],
             ow_trace := ow_trace w @ [c]\<rparr>))"

subsection \<open>The context\<close>

text \<open>
  Callbacks are function pointers, \<open>None\<close> or a number; 0 is \<open>default_verify_callback\<close>.
  \<open>_ca_store\<close> is \<open>None\<close> until it is assigned: the constructor does not initialise it.
\<close>

record ssl_context =
  cx_pem_callback :: "nat option"
  cx_verify_callback :: nat
  cx_ssl_ctx :: obj
  cx_ca_store :: "obj option"

definition ssl_context_new :: ssl_context where
  "ssl_context_new =
     \<lparr>cx_pem_callback = None, cx_verify_callback = 0, cx_ssl_ctx = None, cx_ca_store = None\<rparr>"

definition default_verify_callback :: "int \<Rightarrow> obj \<Rightarrow> int" where
  "default_verify_callback preverify_ok ctx = 1"

definition context_init :: "answers \<Rightarrow> bool \<Rightarrow> bool \<Rightarrow> ssl_context \<Rightarrow> (int \<times> ssl_context) ossl" where
  "context_init ans debug client cx = do {
     (if debug
      then do { ossl ans CRYPTO_malloc_debug_init; ossl ans CRYPTO_dbg_set_options; ossl ans
        CRYPTO_mem_ctrl }
      else State_Monad.return 0);
     ossl ans SSL_load_error_strings;
     ossl ans ERR_load_BIO_strings;
     ossl ans SSL_library_init;
     ossl ans OpenSSL_add_all_algorithms;
     ctx \<leftarrow> ossl_new ans (SSL_CTX_new client);
     ossl ans (SSL_CTX_set_cipher_list ctx (str ''AES256-SHA:TLSv1+HIGH:!SSLv2:!aNULL:!eNULL:!3DES:@STRENGTH''));
     ossl ans (SSL_CTX_set_verify ctx (cx_verify_callback cx));
     State_Monad.return (CQL_ERROR_NO_ERROR, cx\<lparr>cx_ssl_ctx := ctx\<rparr>) }"

text \<open>\<open>session_new\<close>: the session gets what \<open>SSL_new\<close> returned; its library state is \<open>lib\<close>.\<close>

definition session_new :: "answers \<Rightarrow> 'o \<Rightarrow> ssl_context \<Rightarrow> 'o ssl_session ossl" where
  "session_new ans lib cx = do {
     ssl \<leftarrow> ossl_new ans (SSL_new (cx_ssl_ctx cx));
     State_Monad.return (ssl_session_make (ssl \<noteq> None) lib) }"

definition load_bio :: "answers \<Rightarrow> bytes \<Rightarrow> obj ossl" where
  "load_bio ans input = do {
     bio \<leftarrow> ossl_new ans BIO_new_mem;
     r \<leftarrow> ossl ans (BIO_write_mem bio input);
     State_Monad.return (if r \<le> 0 then None else bio) }"

definition load_pem_cert :: "answers \<Rightarrow> bytes \<Rightarrow> nat option \<Rightarrow> obj ossl" where
  "load_pem_cert ans input callback = do {
     bio \<leftarrow> load_bio ans input;
     if bio = None then State_Monad.return None
     else do {
       x509 \<leftarrow> ossl_new ans (PEM_read_bio_X509 bio callback);
       ossl ans (BIO_free_all bio);
       State_Monad.return x509 } }"

definition add_ca :: "answers \<Rightarrow> bytes \<Rightarrow> ssl_context \<Rightarrow> (int \<times> ssl_context) result ossl" where
  "add_ca ans input cx =
     (case cx_ca_store cx of
        None \<Rightarrow> State_Monad.return (Inl Indeterminate)
      | Some store0 \<Rightarrow> do {
          cx \<leftarrow> (if store0 = None
            then do {
              store \<leftarrow> ossl_new ans X509_STORE_new;
              ossl ans (SSL_CTX_set_cert_store (cx_ssl_ctx cx) store);
              State_Monad.return (cx\<lparr>cx_ca_store := Some store\<rparr>) }
            else State_Monad.return cx);
          x509 \<leftarrow> load_pem_cert ans input (cx_pem_callback cx);
          if x509 = None then State_Monad.return (Inr (CQL_ERROR_SSL_CA_CERT, cx))
          else do {
            ossl ans (X509_STORE_add_cert (the (cx_ca_store cx)) x509);
            ossl ans (SSL_CTX_add_client_CA (cx_ssl_ctx cx) x509);
            ossl ans (X509_free x509);
            State_Monad.return (Inr (CQL_ERROR_NO_ERROR, cx)) } })"

definition add_crl :: "answers \<Rightarrow> bytes \<Rightarrow> ssl_context \<Rightarrow> int result ossl" where
  "add_crl ans input cx = do {
     bio \<leftarrow> load_bio ans input;
     if bio = None then State_Monad.return (Inr CQL_ERROR_SSL_CRL)
     else do {
       x509 \<leftarrow> ossl_new ans (PEM_read_bio_X509_CRL bio (cx_pem_callback cx));
       if x509 = None
       then do { ossl ans (BIO_free_all bio); State_Monad.return (Inr CQL_ERROR_SSL_CRL) }
       else (case cx_ca_store cx of
          None \<Rightarrow> State_Monad.return (Inl Indeterminate)
        | Some store \<Rightarrow> do {
            ossl ans (X509_STORE_add_crl store x509);
            ossl ans (X509_STORE_set_flags store);
            ossl ans (BIO_free_all bio);
            ossl ans (X509_CRL_free x509);
            State_Monad.return (Inr CQL_ERROR_NO_ERROR) }) } }"

definition use_key :: "answers \<Rightarrow> bytes \<Rightarrow> bytes \<Rightarrow> ssl_context \<Rightarrow> int ossl" where
  "use_key ans input passphrase cx = do {
     bio \<leftarrow> load_bio ans input;
     if bio = None then State_Monad.return CQL_ERROR_SSL_PRIVATE_KEY
     else do {
       key \<leftarrow> ossl_new ans (PEM_read_bio_PrivateKey bio (cx_pem_callback cx) passphrase);
       if key = None
       then do { ossl ans (BIO_free_all bio); State_Monad.return CQL_ERROR_SSL_PRIVATE_KEY }
       else do {
         ossl ans (SSL_CTX_use_PrivateKey (cx_ssl_ctx cx) key);
         ossl ans (EVP_PKEY_free key);
         ossl ans (BIO_free_all bio);
         State_Monad.return CQL_ERROR_NO_ERROR } } }"

definition use_cert :: "answers \<Rightarrow> bytes \<Rightarrow> ssl_context \<Rightarrow> int ossl" where
  "use_cert ans input cx = do {
     x509 \<leftarrow> load_pem_cert ans input (cx_pem_callback cx);
     if x509 = None then State_Monad.return CQL_ERROR_SSL_CA_CERT
     else do {
       r \<leftarrow> ossl ans (SSL_CTX_use_certificate (cx_ssl_ctx cx) x509);
       ossl ans (X509_free x509);
       State_Monad.return (if r \<le> 0 then CQL_ERROR_SSL_CERT else CQL_ERROR_NO_ERROR) } }"

definition use_rsa_key :: "answers \<Rightarrow> obj \<Rightarrow> ssl_context \<Rightarrow> int ossl" where
  "use_rsa_key ans rsa cx = do {
     r \<leftarrow> ossl ans (SSL_CTX_use_RSAPrivateKey (cx_ssl_ctx cx) rsa);
     State_Monad.return (if r \<le> 0 then CQL_ERROR_SSL_PRIVATE_KEY else CQL_ERROR_NO_ERROR) }"

definition use_x509_cert :: "answers \<Rightarrow> obj \<Rightarrow> ssl_context \<Rightarrow> int ossl" where
  "use_x509_cert ans cert cx = do {
     r \<leftarrow> ossl ans (SSL_CTX_use_certificate (cx_ssl_ctx cx) cert);
     State_Monad.return (if r \<le> 0 then CQL_ERROR_SSL_CERT else CQL_ERROR_NO_ERROR) }"

definition ciphers :: "answers \<Rightarrow> bytes \<Rightarrow> ssl_context \<Rightarrow> int ossl" where
  "ciphers ans list cx = ossl ans (SSL_CTX_set_cipher_list (cx_ssl_ctx cx) list)"

definition pem_callback :: "nat option \<Rightarrow> ssl_context \<Rightarrow> ssl_context" where
  "pem_callback callback cx = cx\<lparr>cx_pem_callback := callback\<rparr>"

definition verify_callback :: "answers \<Rightarrow> nat \<Rightarrow> ssl_context \<Rightarrow> ssl_context ossl" where
  "verify_callback ans callback cx = do {
     ossl ans (SSL_CTX_set_verify (cx_ssl_ctx cx) callback);
     State_Monad.return (cx\<lparr>cx_verify_callback := callback\<rparr>) }"

subsection \<open>Keys and certificates\<close>

definition create_key :: "answers \<Rightarrow> nat \<Rightarrow> obj ossl" where
  "create_key ans sz = do {
     pair \<leftarrow> ossl_new ans RSA_new;
     e \<leftarrow> ossl_new ans BN_new;
     ossl ans (BN_set_word e 65537);
     r \<leftarrow> ossl ans (RSA_generate_key_ex pair sz e);
     let pair = (if r = 0 then None else pair);
     ossl ans (BN_free e);
     State_Monad.return pair }"

text \<open>\<open>CHECK_KEY\<close>: on failure, what exists of the two keys is freed.\<close>

definition free_keys :: "answers \<Rightarrow> obj \<Rightarrow> obj \<Rightarrow> obj ossl" where
  "free_keys ans pkey key = do {
     (if pkey \<noteq> None then ossl ans (EVP_PKEY_free pkey) else State_Monad.return 0);
     (if key \<noteq> None then ossl ans (RSA_free key) else State_Monad.return 0);
     State_Monad.return None }"

definition get_evp_pkey :: "answers \<Rightarrow> obj \<Rightarrow> bool \<Rightarrow> obj ossl" where
  "get_evp_pkey ans rsa priv = do {
     key \<leftarrow> ossl_new ans (if priv then RSAPrivateKey_dup rsa else RSAPublicKey_dup rsa);
     pkey \<leftarrow> ossl_new ans EVP_PKEY_new;
     if key = None then free_keys ans pkey key
     else if pkey = None then free_keys ans pkey key
     else do {
       r \<leftarrow> ossl ans (EVP_PKEY_assign_RSA pkey key);
       if r = 0 then free_keys ans pkey key else State_Monad.return pkey } }"

text \<open>\<open>CHECK_CERT(x)\<close>: free the certificate and return null, or go on.\<close>

definition check_cert :: "answers \<Rightarrow> obj \<Rightarrow> bool \<Rightarrow> obj ossl \<Rightarrow> obj ossl" where
  "check_cert ans x509 x k =
     (if x then do { ossl ans (X509_free x509); State_Monad.return None } else k)"

text \<open>A call whose status is checked.\<close>

definition checked :: "answers \<Rightarrow> obj \<Rightarrow> ossl_call \<Rightarrow> obj ossl \<Rightarrow> obj ossl" where
  "checked ans x509 c k = do { r \<leftarrow> ossl ans c; check_cert ans x509 (r = 0) k }"

text \<open>Both entries of a name: organisation and common name.\<close>

definition name_entries :: "answers \<Rightarrow> obj \<Rightarrow> obj \<Rightarrow> bytes \<Rightarrow> bytes \<Rightarrow> obj ossl \<Rightarrow> obj ossl" where
  "name_entries ans x509 name org cname k = do {
     nid \<leftarrow> ossl ans (OBJ_txt2nid ''organizationName'');
     check_cert ans x509 (nid = 0) (
     checked ans x509 (X509_NAME_add_entry_by_NID name nid org) (do {
       nid \<leftarrow> ossl ans (OBJ_txt2nid ''commonName'');
       check_cert ans x509 (nid = 0) (
       checked ans x509 (X509_NAME_add_entry_by_NID name nid cname) k) })) }"

definition free_unless_null :: "answers \<Rightarrow> (obj \<Rightarrow> ossl_call) \<Rightarrow> obj \<Rightarrow> int ossl" where
  "free_unless_null ans f x = (if x \<noteq> None then ossl ans (f x) else State_Monad.return 0)"

text \<open>
  \<open>create_cert\<close>, from its end to its start. \<open>now\<close> is what \<open>time(NULL)\<close> returns; the version
  argument 2 stands for X.509 version 3.
\<close>

definition cert_finish :: "answers \<Rightarrow> int \<Rightarrow> nat \<Rightarrow> obj \<Rightarrow> obj \<Rightarrow> obj \<Rightarrow> obj \<Rightarrow> obj \<Rightarrow> obj ossl" where
  "cert_finish ans now certLifetime x509 sign_pkey pkey name name_issuer =
     checked ans x509 (X509_set_issuer_name x509 name_issuer) (
     checked ans x509 (X509_time_adj_notBefore x509 now) (
     checked ans x509 (X509_time_adj_notAfter x509 (now + int certLifetime)) (
     checked ans x509 (X509_set_pubkey x509 pkey) (
     checked ans x509 (X509_sign x509 sign_pkey) (do {
       free_unless_null ans EVP_PKEY_free sign_pkey;
       free_unless_null ans EVP_PKEY_free pkey;
       free_unless_null ans X509_NAME_free name;
       free_unless_null ans X509_NAME_free name_issuer;
       State_Monad.return x509 })))))"

definition cert_names ::
  "answers \<Rightarrow> int \<Rightarrow> bytes \<Rightarrow> bytes \<Rightarrow> bytes \<Rightarrow> nat \<Rightarrow> obj \<Rightarrow> obj \<Rightarrow> obj \<Rightarrow> obj ossl" where
  "cert_names ans now cname cnameSign orgName certLifetime x509 sign_pkey pkey = do {
     name \<leftarrow> ossl_new ans X509_NAME_new;
     check_cert ans x509 (name = None) (
     name_entries ans x509 name orgName cname (
     checked ans x509 (X509_set_subject_name x509 name) (do {
     name_issuer \<leftarrow> ossl_new ans X509_NAME_new;
     check_cert ans x509 (name_issuer = None) (
     name_entries ans x509 name_issuer orgName cnameSign (
     cert_finish ans now certLifetime x509 sign_pkey pkey name name_issuer)) }))) }"

definition create_cert ::
  "answers \<Rightarrow> int \<Rightarrow> obj \<Rightarrow> obj \<Rightarrow> bytes \<Rightarrow> bytes \<Rightarrow> bytes \<Rightarrow> nat \<Rightarrow> obj ossl" where
  "create_cert ans now rsa rsaSign cname cnameSign orgName certLifetime = do {
     x509 \<leftarrow> ossl_new ans X509_new;
     check_cert ans x509 (x509 = None) (do {
     sign_pkey \<leftarrow> get_evp_pkey ans rsaSign True;
     check_cert ans x509 (sign_pkey = None) (do {
     pkey \<leftarrow> get_evp_pkey ans rsa False;
     check_cert ans x509 (pkey = None) (
     checked ans x509 (X509_set_version x509 2) (
     checked ans x509 (ASN1_INTEGER_set_serial x509 now) (
     cert_names ans now cname cnameSign orgName certLifetime x509 sign_pkey pkey))) }) }) }"

subsection \<open>What operations leave behind\<close>

definition fresh_world :: "ssl_world \<Rightarrow> bool" where
  "fresh_world w \<longleftrightarrow> (\<forall>i \<in> set (ow_live w). i < ow_next w)"

lemma removeAll_fresh:
  assumes "fresh_world w" and "ow_next w \<le> x"
  shows "removeAll x (ow_live w) = ow_live w"
  using assms by (auto simp: fresh_world_def intro!: removeAll_id)

lemma run_ossl:
  "run_state (ossl ans c) w =
     (ans (ow_trace w) c, w\<lparr>ow_trace := ow_trace w @ [c],
        ow_live := (case released c (ans (ow_trace w) c) of None \<Rightarrow> ow_live w | Some x
          \<Rightarrow> removeAll x (ow_live w))\<rparr>)"
  by (simp add: ossl_def Let_def)

lemma run_ossl_new:
  "run_state (ossl_new ans c) w =
     (if ans (ow_trace w) c = 0 then (None, w\<lparr>ow_trace := ow_trace w @ [c]\<rparr>)
      else (Some (ow_next w), w\<lparr>ow_next := Suc (ow_next w), ow_live := ow_live w @ [ow_next w],
             ow_trace := ow_trace w @ [c]\<rparr>))"
  by (simp add: ossl_new_def)

text \<open>\<open>get_evp_pkey\<close> leaves its result behind, and nothing when it fails.\<close>

lemma get_evp_pkey_live:
  assumes "run_state (get_evp_pkey ans rsa priv) w = (p, w')" and "fresh_world w"
  shows "ow_live w' = ow_live w @ (case p of None \<Rightarrow> [] | Some x \<Rightarrow> [x])"
    and "ow_next w \<le> ow_next w'" and "p = Some x \<Longrightarrow> ow_next w \<le> x \<and> x < ow_next w'"
  using assms removeAll_fresh [OF assms(2), of "ow_next w"] removeAll_fresh [OF assms(2),
      of "Suc (ow_next w)"]
  unfolding get_evp_pkey_def free_keys_def
  by (auto simp: run_ossl run_ossl_new split: if_splits)

lemma checked_SomeD:
  assumes "run_state (checked ans x509 c k) w = (Some y, w')" and "\<And>r. released c r = None"
  obtains w1 where "run_state k w1 = (Some y, w')" and "ow_live w1 = ow_live w" and "ow_next w1 = ow_next w"
  using assms by (auto simp: checked_def check_cert_def run_ossl split: if_splits)

lemma name_entries_SomeD:
  assumes "run_state (name_entries ans x509 name org cname k) w = (Some y, w')"
  obtains w1 where "run_state k w1 = (Some y, w')" and "ow_live w1 = ow_live w" and "ow_next w1 = ow_next w"
  using assms by (auto simp: name_entries_def checked_def check_cert_def run_ossl split: if_splits)

lemma new_checked_SomeD:
  assumes "run_state (do { x \<leftarrow> ossl_new ans c; check_cert ans (g x) (x = None) (f x) }) w = (Some y, w')"
  obtains w1 where "run_state (f (Some (ow_next w))) w1 = (Some y, w')"
    and "ow_live w1 = ow_live w @ [ow_next w]" and "ow_next w1 = Suc (ow_next w)"
  using assms by (auto simp: check_cert_def run_ossl run_ossl_new split: if_splits)

lemma key_checked_SomeD:
  assumes "run_state (do { x \<leftarrow> get_evp_pkey ans rsa priv; check_cert ans x509 (x =
      None) (f x) }) w = (Some y, w')"
    and "fresh_world w"
  obtains x w1 where "run_state (f (Some x)) w1 = (Some y, w')" and "ow_live w1 = ow_live w @ [x]"
    and "ow_next w \<le> x" and "x < ow_next w1"
proof -
  obtain p w1 where p: "run_state (get_evp_pkey ans rsa priv) w = (p, w1)" by force
  with assms(1) have "p \<noteq> None \<and> run_state (f p) w1 = (Some y, w')"
    by (auto simp: check_cert_def run_ossl split: if_splits)
  with get_evp_pkey_live [OF p assms(2)] that show ?thesis by (cases p) auto
qed

lemma fresh_world_append:
  assumes "fresh_world w" and "ow_live w1 = ow_live w @ [x]" and "ow_next w \<le> x" and "x < ow_next w1"
  shows "fresh_world w1"
  using assms by (force simp: fresh_world_def)

lemma fresh_world_cong:
  assumes "fresh_world w" and "ow_live w1 = ow_live w" and "ow_next w1 = ow_next w"
  shows "fresh_world w1"
  using assms by (simp add: fresh_world_def)

lemma cert_finish_live:
  assumes "run_state (cert_finish ans now lifetime x509 (Some a) (Some b) (Some c) (Some d)) w =
      (Some y, w')"
  shows "x509 = Some y" and "ow_live w' = filter (\<lambda>i. i \<notin> {a, b, c, d}) (ow_live w)"
proof -
  show "x509 = Some y" "ow_live w' = filter (\<lambda>i. i \<notin> {a, b, c, d}) (ow_live w)"
    using assms unfolding cert_finish_def
    by (auto elim!: checked_SomeD simp: free_unless_null_def run_ossl removeAll_filter_not_eq
      conj_commute intro!: filter_cong)
qed

lemma cert_names_live:
  assumes "run_state (cert_names ans now cname cnameSign org lifetime x509 (Some a) (Some b)) w =
      (Some y, w')"
    and w: "fresh_world w"
  shows "x509 = Some y \<and> ow_live w' = filter (\<lambda>i. i \<notin> {a, b}) (ow_live w)"
  using assms(1) unfolding cert_names_def
proof (rule new_checked_SomeD)
  let ?c = "Some (ow_next w)"
  fix w1 assume 1: "ow_live w1 = ow_live w @ [ow_next w]" "ow_next w1 = Suc (ow_next w)"
    and run1: "run_state (name_entries ans x509 ?c org cname (
      checked ans x509 (X509_set_subject_name x509 ?c) (do {
      name_issuer \<leftarrow> ossl_new ans X509_NAME_new;
      check_cert ans x509 (name_issuer = None) (
      name_entries ans x509 name_issuer org cnameSign (
      cert_finish ans now lifetime x509 (Some a) (Some b) ?c name_issuer)) }))) w1 = (Some y, w')"
  from run1 obtain w2 where 2: "ow_live w2 = ow_live w1" "ow_next w2 = ow_next w1"
    and run2: "run_state (do {
      name_issuer \<leftarrow> ossl_new ans X509_NAME_new;
      check_cert ans x509 (name_issuer = None) (
      name_entries ans x509 name_issuer org cnameSign (
      cert_finish ans now lifetime x509 (Some a) (Some b) ?c name_issuer)) }) w2 = (Some y, w')"
    by (auto elim!: name_entries_SomeD checked_SomeD)
  from run2 obtain w3 where 3: "ow_live w3 = ow_live w2 @ [ow_next w2]"
    and run3: "run_state (cert_finish ans now lifetime x509 (Some a) (Some b) ?c (Some (ow_next
      w2))) w3 = (Some y, w')"
    by (auto simp: run_ossl_new check_cert_def run_ossl elim!: name_entries_SomeD split: if_splits)
  have "filter (\<lambda>i. i \<notin> {a, b, ow_next w, ow_next w2}) (ow_live w) = filter (\<lambda>i. i \<notin> {a, b}) (ow_live w)"
    using w 1(2) 2(2) by (intro filter_cong) (auto simp: fresh_world_def)
  then show ?thesis
    using cert_finish_live [OF run3] 1 2 3 by simp
qed

lemma create_cert_live:
  assumes run: "run_state (create_cert ans now rsa rsaSign cname cnameSign org lifetime) w = (Some y, w')"
    and w: "fresh_world w"
  shows "ow_live w' = ow_live w @ [y]"
  using run unfolding create_cert_def
proof (rule new_checked_SomeD)
  let ?x = "Some (ow_next w)"
  fix w1 assume 1: "ow_live w1 = ow_live w @ [ow_next w]" "ow_next w1 = Suc (ow_next w)"
    and run1: "run_state (do {
     sign_pkey \<leftarrow> get_evp_pkey ans rsaSign True;
     check_cert ans ?x (sign_pkey = None) (do {
     pkey \<leftarrow> get_evp_pkey ans rsa False;
     check_cert ans ?x (pkey = None) (
     checked ans ?x (X509_set_version ?x 2) (
     checked ans ?x (ASN1_INTEGER_set_serial ?x now) (
     cert_names ans now cname cnameSign org lifetime ?x sign_pkey pkey))) }) }) w1 = (Some y, w')"
  have f1: "fresh_world w1" using w 1(1) by (rule fresh_world_append) (simp_all add: 1(2))
  from run1 obtain a w2 where 2: "ow_live w2 = ow_live w1 @ [a]" "ow_next w1 \<le> a" "a < ow_next w2"
    and run2: "run_state (do {
     pkey \<leftarrow> get_evp_pkey ans rsa False;
     check_cert ans ?x (pkey = None) (
     checked ans ?x (X509_set_version ?x 2) (
     checked ans ?x (ASN1_INTEGER_set_serial ?x now) (
     cert_names ans now cname cnameSign org lifetime ?x (Some a) pkey))) }) w2 = (Some y, w')"
    by (rule key_checked_SomeD [OF _ f1])
  have f2: "fresh_world w2" using f1 2 by (rule fresh_world_append)
  from run2 obtain b w3 where 3: "ow_live w3 = ow_live w2 @ [b]" "ow_next w2 \<le> b" "b < ow_next w3"
    and run3: "run_state (
     checked ans ?x (X509_set_version ?x 2) (
     checked ans ?x (ASN1_INTEGER_set_serial ?x now) (
     cert_names ans now cname cnameSign org lifetime ?x (Some a) (Some b)))) w3 = (Some y, w')"
    by (rule key_checked_SomeD [OF _ f2])
  have f3: "fresh_world w3" using f2 3 by (rule fresh_world_append)
  from run3 obtain w4 where 4: "ow_live w4 = ow_live w3" "ow_next w4 = ow_next w3"
    and run4: "run_state (cert_names ans now cname cnameSign org lifetime ?x (Some a) (Some b)) w4 =
      (Some y, w')"
    by (auto elim!: checked_SomeD)
  have "filter (\<lambda>i. i \<notin> {a, b}) (ow_live w) = ow_live w"
    using w 1(2) 2 3 by (intro filter_True) (auto simp: fresh_world_def)
  then show ?thesis
    using cert_names_live [OF run4 fresh_world_cong [OF f3 4]] 1 2 3 4 by auto
qed

text \<open>The contexts a program can reach with the operations of the class.\<close>

inductive context_reachable :: "answers \<Rightarrow> ssl_context \<Rightarrow> bool" for ans where
  start: "context_reachable ans ssl_context_new"
| init: "context_reachable ans cx \<Longrightarrow> run_state (context_init ans debug client cx) w = ((e, cx'), w') \<Longrightarrow>
    context_reachable ans cx'"
| set_pem: "context_reachable ans cx \<Longrightarrow> context_reachable ans (pem_callback f cx)"
| set_verify: "context_reachable ans cx \<Longrightarrow> run_state (verify_callback ans f cx) w = (cx', w') \<Longrightarrow>
    context_reachable ans cx'"
| ca: "context_reachable ans cx \<Longrightarrow> run_state (add_ca ans input cx) w = (Inr (e, cx'), w') \<Longrightarrow>
    context_reachable ans cx'"

lemma context_reachable_store: "context_reachable ans cx \<Longrightarrow> cx_ca_store cx = None"
  by (induction rule: context_reachable.induct)
    (auto simp: ssl_context_new_def context_init_def pem_callback_def verify_callback_def add_ca_def
      run_ossl run_ossl_new split: if_splits)

definition ready_world :: ssl_world where
  "ready_world = \<lparr>ow_next = 0, ow_live = [], ow_trace = []\<rparr>"

subsection \<open>Properties\<close>

text \<open>
  C27: \<open>create_cert\<close> cleans up when it succeeds: whatever OpenSSL answers, if a certificate is
  returned, it is the only object that the call leaves behind; all keys and names are released.
\<close>

theorem create_cert_owns:
  assumes "fresh_world w"
    and "run_state (create_cert ans now rsa rsaSign cname cnameSign org lifetime) w = (Some y, w')"
  shows "ow_live w' = ow_live w @ [y]"
  using assms(2,1) by (rule create_cert_live)

theorem create_cert_owns_witness:
  "ow_live (snd (run_state (create_cert (\<lambda>tr c. 1) 100 (Some 0) (Some 1) [] [] [] 60)
     (ready_world\<lparr>ow_next := 2, ow_live := [0, 1]\<rparr>))) = [0, 1] @ [2]"
proof -
  let ?w = "ready_world\<lparr>ow_next := 2, ow_live := [0, 1]\<rparr>"
  let ?r = "run_state (create_cert (\<lambda>tr c. 1) 100 (Some 0) (Some 1) [] [] [] 60) ?w"
  have "fst ?r = Some 2"
    by (simp add: create_cert_def get_evp_pkey_def check_cert_def checked_def cert_names_def cert_finish_def
        name_entries_def free_unless_null_def run_ossl run_ossl_new ready_world_def)
  then have "?r = (Some 2, snd ?r)" by (metis prod.collapse)
  from create_cert_owns [OF _ this] show ?thesis
    by (simp add: fresh_world_def ready_world_def)
qed

text \<open>
  \<open>create_cert\<close> does not clean up when it fails behind the creation of the keys: if, for
  instance, \<open>X509_set_version\<close> fails, the certificate is freed but both \<open>EVP_PKEY\<close> objects are
  left behind.
\<close>

lemma create_cert_leaks:
  assumes "fresh_world w" and "\<And>tr x v. ans tr (X509_set_version x v) = 0"
    and "\<And>tr c. (\<And>x v. c \<noteq> X509_set_version x v) \<Longrightarrow> ans tr c \<noteq> 0"
  shows "\<exists>w'. run_state (create_cert ans now rsa rsaSign cname cnameSign org lifetime) w = (None, w') \<and>
     ow_live w' = ow_live w @ [ow_next w + 2, ow_next w + 4]"
  using removeAll_fresh [OF assms(1)]
  by (simp add: create_cert_def get_evp_pkey_def check_cert_def checked_def run_ossl run_ossl_new
      assms(2,3))

text \<open>
  The certificate authorities of a context cannot be set: \<open>_ca_store\<close> is not initialised, and
  in every context a program can reach \<open>add_ca\<close> tests the indeterminate pointer; \<open>add_crl\<close> uses
  it as soon as it has read a list.
\<close>

lemma add_ca_indeterminate:
  assumes "context_reachable ans cx"
  shows "fst (run_state (add_ca ans input cx) w) = Inl Indeterminate \<and>
     fst (run_state (add_crl ans input cx) w) \<in> {Inr CQL_ERROR_SSL_CRL, Inl Indeterminate}"
  using context_reachable_store [OF assms]
  by (simp add: add_ca_def add_crl_def split: prod.split)

end
