(* ===== verification/Unit_Tests.thy ===== *)
theory Unit_Tests
  imports Message Stream_Storage
begin

text \<open>
  \<^verbatim>\<open>src/test/main.cpp\<close>: the unit tests of the repository, as functions of the model. A test
  returns \<open>Inr True\<close> if it passes, \<open>Inr False\<close> where a \<open>CHECK\<close> fails, and a fault where the
  code under test leaves the defined behaviour. \<open>test_ssl\<close> and \<open>main\<close> are in \<open>Ssl_Test\<close>.
\<close>

definition TEST_MESSAGE_ERROR :: bytes where
  "TEST_MESSAGE_ERROR =
    [0x81, 0x01, 0x7F, 0x00, 0x00, 0x00, 0x00, 0x0C,
     0xFF, 0xFF, 0xFF, 0xFF,
     0x00, 0x06, 0x66, 0x6f, 0x6f, 0x62, 0x61, 0x72]"

definition TEST_MESSAGE_OPTIONS :: bytes where
  "TEST_MESSAGE_OPTIONS = [0x02, 0x00, 0x00, 0x05, 0x00, 0x00, 0x00, 0x00]"

definition TEST_MESSAGE_STARTUP :: bytes where
  "TEST_MESSAGE_STARTUP =
    [0x02, 0x00, 0x00, 0x01, 0x00, 0x00, 0x00, 0x16,
     0x00, 0x01,
     0x00, 0x0b, 0x43, 0x51, 0x4c, 0x5f, 0x56, 0x45,
     0x52, 0x53, 0x49, 0x4f, 0x4e,
     0x00, 0x05, 0x33, 0x2e, 0x30, 0x2e, 0x30]"

definition TEST_MESSAGE_QUERY :: bytes where
  "TEST_MESSAGE_QUERY =
    [0x02, 0x00, 0x00, 0x07, 0x00, 0x00, 0x00, 0x22,
     0x00, 0x00, 0x00, 0x1b,
     0x53, 0x45, 0x4c, 0x45, 0x43, 0x54,
     0x20, 0x2a, 0x20,
     0x46, 0x52, 0x4f, 0x4d, 0x20,
     0x73, 0x79, 0x73, 0x74, 0x65, 0x6d, 0x2e,
     0x70, 0x65, 0x65, 0x72, 0x73, 0x3b,
     0x00, 0x01,
     0x00]"

definition TEST_MESSAGE_QUERY_VALUE :: bytes where
  "TEST_MESSAGE_QUERY_VALUE =
    [0x02, 0x00, 0x00, 0x07, 0x00, 0x00, 0x00, 0x27,
     0x00, 0x00, 0x00, 0x10,
     0x53, 0x45, 0x4c, 0x45, 0x43, 0x54,
     0x20, 0x2a, 0x20,
     0x46, 0x52, 0x4f, 0x4d, 0x20,
     0x3f, 0x3b,
     0x00, 0x01,
     0x01,
     0x00, 0x01,
     0x00, 0x0c,
     0x73, 0x79, 0x73, 0x74, 0x65, 0x6d, 0x2e,
     0x70, 0x65, 0x65, 0x72, 0x73]"

definition TEST_MESSAGE_QUERY_PAGING :: bytes where
  "TEST_MESSAGE_QUERY_PAGING =
    [0x02, 0x00, 0x00, 0x07, 0x00, 0x00, 0x00, 0x2a,
     0x00, 0x00, 0x00, 0x1b,
     0x53, 0x45, 0x4c, 0x45, 0x43, 0x54,
     0x20, 0x2a, 0x20,
     0x46, 0x52, 0x4f, 0x4d, 0x20,
     0x73, 0x79, 0x73, 0x74, 0x65, 0x6d, 0x2e,
     0x70, 0x65, 0x65, 0x72, 0x73, 0x3b,
     0x00, 0x01,
     0x08,
     0x00, 0x06,
     0x66, 0x6f, 0x6f, 0x62, 0x61, 0x72]"

text \<open>A C string literal, with its terminating zero.\<close>

definition c_literal :: "string \<Rightarrow> char_ptr" where
  "c_literal s = Ptr (map Some (str s) @ [Some 0]) 0"

definition test_error_consume :: "allocator \<Rightarrow> bool result" where
  "test_error_consume alloc =
     bind_result (message_consume alloc message_new (Ptr (map Some TEST_MESSAGE_ERROR) 0) (length
       TEST_MESSAGE_ERROR))
       (\<lambda>(consumed, message).
     Inr (consumed = of_nat (length TEST_MESSAGE_ERROR) \<and> m_version message = 0x81 \<and>
       m_flags message = 0x01 \<and>
          m_stream message = 0x7F \<and> m_opcode message = 0x00 \<and> m_length message = 0x0C))"

text \<open>The common end of the tests of \<open>prepare\<close>: its result, the size, and \<open>memcmp\<close>.\<close>

definition check_prepare :: "allocator \<Rightarrow> bytes \<Rightarrow> message \<Rightarrow> bool result" where
  "check_prepare alloc expected message =
     bind_result (message_prepare alloc message) (\<lambda>(message, buffer, sz, ok).
     if \<not> ok then Inr False
     else if length expected \<noteq> sz then Inr False
     else bind_result (load_bytes (case buffer of None \<Rightarrow> Null | Some b \<Rightarrow> Ptr b 0) (length expected))
       (\<lambda>bs. Inr (bs = expected)))"

definition test_error_prepare :: "allocator \<Rightarrow> bool result" where
  "test_error_prepare alloc =
     bind_result (body_error_make alloc 0xFFFFFFFF (c_literal ''foobar'') 6) (\<lambda>b.
     check_prepare alloc TEST_MESSAGE_ERROR
       (message_new\<lparr>m_version := 0x81, m_flags := 0x01, m_stream := 0x7F, m_opcode := 0x00,
          m_body := Some (BodyError b)\<rparr>))"

definition test_options_prepare :: "allocator \<Rightarrow> bool result" where
  "test_options_prepare alloc =
     bind_result (message_make CQL_OPCODE_OPTIONS) (check_prepare alloc TEST_MESSAGE_OPTIONS)"

definition test_startup_prepare :: "allocator \<Rightarrow> bool result" where
  "test_startup_prepare alloc =
     bind_result (message_make CQL_OPCODE_STARTUP) (check_prepare alloc TEST_MESSAGE_STARTUP)"

text \<open>A new query message whose body is set up by \<open>f\<close>.\<close>

definition query_message :: "(body_query \<Rightarrow> body_query result) \<Rightarrow> message result" where
  "query_message f =
     bind_result (message_make CQL_OPCODE_QUERY) (\<lambda>message.
     (case m_body message of
        Some (BodyQuery query) \<Rightarrow> bind_result (f query) (\<lambda>query. Inr (message\<lparr>m_body :=
          Some (BodyQuery query)\<rparr>))
      | _ \<Rightarrow> Inl NullDeref))"

definition test_query_query :: "allocator \<Rightarrow> bool result" where
  "test_query_query alloc =
     bind_result (query_message (\<lambda>query.
       bind_result (query_string_cstr (c_literal ''SELECT * FROM system.peers;'') query) (\<lambda>query.
       Inr (consistency CQL_CONSISTENCY_ONE query))))
     (check_prepare alloc TEST_MESSAGE_QUERY)"

definition test_query_query_value :: "allocator \<Rightarrow> bool result" where
  "test_query_query_value alloc =
     bind_result (query_message (\<lambda>query.
       bind_result (query_string_cstr (c_literal ''SELECT * FROM ?;'') query) (\<lambda>query.
       bind_result (c_string (c_literal ''system.peers'')) (\<lambda>value.
       Inr (consistency CQL_CONSISTENCY_ONE (add_value (c_literal ''system.peers'') (length value) query))))))
     (check_prepare alloc TEST_MESSAGE_QUERY_VALUE)"

definition test_query_query_paging :: "allocator \<Rightarrow> bool result" where
  "test_query_query_paging alloc =
     bind_result (query_message (\<lambda>query.
       bind_result (query_string_cstr (c_literal ''SELECT * FROM system.peers;'') query) (\<lambda>query.
       bind_result (c_string (c_literal ''foobar'')) (\<lambda>state.
       paging_state (c_literal ''foobar'') (length state) (consistency CQL_CONSISTENCY_ONE query)))))
     (check_prepare alloc TEST_MESSAGE_QUERY_PAGING)"

subsection \<open>The test of the stream pool\<close>

text \<open>
  \<open>CHECK(!streams.set_stream(i, stream)); CHECK_EQUAL(i, stream);\<close> on \<open>StreamStorage<int, int, 127>\<close>,
  and the same for \<open>get_stream\<close>. The state is \<open>None\<close> after a failed check.
\<close>

type_synonym stream_test = "int stream_storage option \<Rightarrow> int stream_storage option result"

definition check_set :: "int \<Rightarrow> stream_test" where
  "check_set i st = (case st of None \<Rightarrow> Inr None | Some s \<Rightarrow>
     bind_result (set_stream 127 i s) (\<lambda>(err, s, out). Inr (if err = None \<and> out = Some i then Some s
       else None)))"

definition check_get :: "int \<Rightarrow> stream_test" where
  "check_get i st = (case st of None \<Rightarrow> Inr None | Some s \<Rightarrow>
     bind_result (get_stream i True s) (\<lambda>(err, s, out). Inr (if err = None \<and> out = Some i
       then Some s else None)))"

fun run_checks :: "stream_test list \<Rightarrow> stream_test" where
  "run_checks [] st = Inr st"
| "run_checks (t # ts) st = bind_result (t st) (run_checks ts)"

text \<open>The end of the test: allocation must fail, and release after the last release.\<close>

definition check_exhausted :: stream_test where
  "check_exhausted st = (case st of None \<Rightarrow> Inr None | Some s \<Rightarrow>
     bind_result (set_stream 127 128 s) (\<lambda>(err, s, out). Inr (if err \<noteq> None \<and> out = None then Some s
       else None)))"

definition check_released :: stream_test where
  "check_released st = (case st of None \<Rightarrow> Inr None | Some s \<Rightarrow>
     bind_result (get_stream 1 True s) (\<lambda>(err, s, out).
     if err = None then Inr None
     else bind_result (get_stream 1 False s) (\<lambda>(err, s, out). Inr (if err = None then Some s else None))))"

definition test_stream_storage :: "bool result" where
  "test_stream_storage =
     bind_result (run_checks
       ([check_set 1, check_get 1, check_set 1, check_get 1] @ map (\<lambda>i. check_set (int i)) [1..<128] @
        [check_exhausted] @ map (\<lambda>i. check_get (int i)) (rev [1..<128]) @ [check_released])
       (Some (stream_storage_new 127))) (\<lambda>st. Inr (st \<noteq> None))"

lemma test_stream_storage_faults: "test_stream_storage = Inl OutOfBounds"
  by code_simp

subsection \<open>Outcomes\<close>

text \<open>
  With an allocator that gives exactly what is asked for, the tests of ERROR, STARTUP, QUERY and
  paging frames pass byte for byte; the test of OPTIONS writes behind its buffer (and passes where
  the allocator gives room); the test with a value fails, because it expects a length of two bytes
  before the value where the code, as the protocol, writes four; and the test of the stream pool
  writes behind the arrays of the pool (\<open>test_stream_storage_faults\<close>). These are runs of the model
  on the inputs of the repository, which check the model.
\<close>

lemma frame_tests_pass:
  "test_error_consume (\<lambda>n. n) = Inr True" "test_error_prepare (\<lambda>n. n) = Inr True"
  "test_startup_prepare (\<lambda>n. n) = Inr True" "test_query_query (\<lambda>n. n) = Inr True"
  "test_query_query_paging (\<lambda>n. n) = Inr True"
  by code_simp+

lemma options_test_room:
  "test_options_prepare (\<lambda>n. n) = Inl OutOfBounds" "test_options_prepare (\<lambda>n. max n 16) = Inr True"
  by code_simp+

lemma value_test_fails: "test_query_query_value (\<lambda>n. n) = Inr False"
  by code_simp

end
