(* ===== verification/Ssl_Test.thy ===== *)
theory Ssl_Test
  imports Ssl_Context Unit_Tests
begin

text \<open>
  \<open>test_ssl\<close> and \<open>main\<close> of \<^verbatim>\<open>src/test/main.cpp\<close>: a client and a server session of
  \<^verbatim>\<open>include/cql_ssl_session.hpp\<close>, each made by a context of \<^verbatim>\<open>include/cql_ssl_context.hpp\<close>, exchange
  bytes until both have received a string. As in those theories OpenSSL is a parameter: \<open>ans\<close>
  answers the calls of the contexts, \<open>os\<close> is the library behind the sessions, with the states
  \<open>lib1\<close> and \<open>lib2\<close> of the two \<open>SSL\<close> objects. The loop has no bound in the source; the fuel
  bounds its iterations.
\<close>

text \<open>
  A \<open>uv_buf_t\<close>; its pointer is null or points to the start of a block. \<open>delete\<close> leaves the
  pointer as it is, and the source sets the length to zero.
\<close>

record uv_buf =
  ub_base :: "block option"
  ub_len :: size_t

definition buf_null :: uv_buf where
  "buf_null = \<lparr>ub_base = None, ub_len = 0\<rparr>"

definition buf_ptr :: "uv_buf \<Rightarrow> char_ptr" where
  "buf_ptr b = (case ub_base b of None \<Rightarrow> Null | Some bs \<Rightarrow> Ptr bs 0)"

definition buf_clear :: "uv_buf \<Rightarrow> uv_buf" where
  "buf_clear b = (if ub_len b \<noteq> 0 then b\<lparr>ub_len := 0\<rparr> else b)"

text \<open>\<open>new char[strlen(s)]\<close>, \<open>strcpy\<close> and the length.\<close>

definition buf_string :: "allocator \<Rightarrow> bytes \<Rightarrow> uv_buf result" where
  "buf_string alloc s =
     bind_result (fill (s @ [0]) (new_char alloc (length s))) (\<lambda>b.
     Inr \<lparr>ub_base = Some b, ub_len = of_nat (length s)\<rparr>)"

text \<open>
  One call of \<open>read_write\<close> and the checks behind it, which the source writes out for both
  sides. The result is \<open>None\<close> where a \<open>CHECK\<close> fails, and else the session, \<open>read_size\<close>, whether
  the expected string was received, and the two outputs.
\<close>

definition test_side ::
  "'o openssl \<Rightarrow> allocator \<Rightarrow> bool \<Rightarrow> bytes \<Rightarrow> uv_buf \<Rightarrow> uv_buf \<Rightarrow> uv_buf \<Rightarrow> uv_buf \<Rightarrow> 'o ssl_session \<Rightarrow>
    ('o ssl_session \<times> nat \<times> bool \<times> uv_buf \<times> uv_buf) option result" where
  "test_side os alloc established expected input read_output write_input write_output session =
     bind_result (read_write os alloc (buf_ptr input) (unat (ub_len input))
         (buf_ptr write_input) (unat (ub_len write_input))
         \<lparr>rw_read_size = 0, rw_read_output = ub_base read_output, rw_read_output_size = ub_len read_output,
          rw_write_output = ub_base write_output, rw_write_output_size =
            unat (ub_len write_output)\<rparr> session)
       (\<lambda>(err, session, out).
     if err \<noteq> None then Inr None
     else let read_output = \<lparr>ub_base = rw_read_output out, ub_len = rw_read_output_size out\<rparr>;
              write_output = \<lparr>ub_base = rw_write_output out, ub_len = of_nat (rw_write_output_size out)\<rparr>;
              received = (ub_len read_output \<noteq> 0 \<and> established) in
       bind_result
         (if received
          then bind_result (load_bytes (buf_ptr read_output) (length expected)) (\<lambda>bs.
               Inr (bs = expected \<and> of_nat (length expected) = ub_len read_output))
          else Inr True) (\<lambda>ok.
       Inr (if ok then Some (session, rw_read_size out, received, buf_clear read_output, write_output)
            else None)))"

record 'o ssl_test =
  st_client_session :: "'o ssl_session"
  st_server_session :: "'o ssl_session"
  st_client_write_input :: uv_buf
  st_client_write_output :: uv_buf
  st_client_read_output :: uv_buf
  st_server_write_input :: uv_buf
  st_server_write_output :: uv_buf
  st_server_read_output :: uv_buf
  st_ssl_established :: bool
  st_client_string_received :: bool
  st_server_string_received :: bool

definition client_string :: bytes where "client_string = str ''hello''"
definition server_string :: bytes where "server_string = str ''ehllo''"

text \<open>The client's half of an iteration, and the server's.\<close>

definition test_client_side ::
  "'o openssl \<Rightarrow> allocator \<Rightarrow> 'o ssl_test \<Rightarrow> (nat \<times> 'o ssl_test) option result" where
  "test_client_side os alloc t =
     bind_result (test_side os alloc (st_ssl_established t) server_string (st_server_write_output t)
         (st_client_read_output t) (st_client_write_input t) (st_client_write_output t)
           (st_client_session t))
       (\<lambda>r. Inr (map_option (\<lambda>(session, client_read, received, read_output, write_output).
         (client_read, t\<lparr>st_client_session := session,
            st_client_write_input := buf_clear (st_client_write_input t),
            st_client_write_output := write_output, st_client_read_output := read_output,
            st_server_write_output := buf_clear (st_server_write_output t),
            st_server_string_received := received \<or> st_server_string_received t\<rparr>)) r))"

definition test_server_side ::
  "'o openssl \<Rightarrow> allocator \<Rightarrow> 'o ssl_test \<Rightarrow> (nat \<times> 'o ssl_test) option result" where
  "test_server_side os alloc t =
     bind_result (test_side os alloc (st_ssl_established t) client_string (st_client_write_output t)
         (st_server_read_output t) (st_server_write_input t) (st_server_write_output t)
           (st_server_session t))
       (\<lambda>r. Inr (map_option (\<lambda>(session, server_read, received, read_output, write_output).
         (server_read, t\<lparr>st_server_session := session,
            st_server_write_input := buf_clear (st_server_write_input t),
            st_server_write_output := write_output, st_server_read_output := read_output,
            st_client_write_output := buf_clear (st_client_write_output t),
            st_client_string_received := received \<or> st_client_string_received t\<rparr>)) r))"

text \<open>Once both handshakes are done, both sides get their strings to send.\<close>

definition test_establish :: "'o openssl \<Rightarrow> allocator \<Rightarrow> 'o ssl_test \<Rightarrow> 'o ssl_test result" where
  "test_establish os alloc t =
     bind_result
       (if st_ssl_established t then Inr False
        else bind_result (session_handshake_done os (st_server_session t)) (\<lambda>server.
          if server then session_handshake_done os (st_client_session t) else Inr False)) (\<lambda>both.
     if both
     then bind_result (buf_string alloc client_string) (\<lambda>cs.
          bind_result (buf_string alloc server_string) (\<lambda>ss.
          Inr (t\<lparr>st_client_write_input := cs, st_server_write_input := ss, st_ssl_established := True\<rparr>)))
     else Inr t)"

definition test_finished :: "nat \<Rightarrow> nat \<Rightarrow> 'o ssl_test \<Rightarrow> bool" where
  "test_finished client_read server_read t \<longleftrightarrow>
     client_read = 0 \<and> server_read = 0 \<and>
     ub_len (st_client_read_output t) = 0 \<and> ub_len (st_server_read_output t) = 0 \<and>
     ub_len (st_client_write_output t) = 0 \<and> ub_len (st_server_write_output t) = 0 \<and>
     st_client_string_received t \<and> st_server_string_received t"

text \<open>
  The loop, and the check behind it, whose macro argument \<open>a && b\<close> is negated as \<open>!a && b\<close>.
\<close>

fun test_loop :: "nat \<Rightarrow> 'o openssl \<Rightarrow> allocator \<Rightarrow> 'o ssl_test \<Rightarrow> bool result" where
  "test_loop 0 os alloc t = Inl Diverged"
| "test_loop (Suc fuel) os alloc t =
     bind_result (test_client_side os alloc t) (\<lambda>r.
     case r of None \<Rightarrow> Inr False | Some (client_read, t) \<Rightarrow>
     bind_result (test_server_side os alloc t) (\<lambda>r.
     case r of None \<Rightarrow> Inr False | Some (server_read, t) \<Rightarrow>
     bind_result (test_establish os alloc t) (\<lambda>t.
     if test_finished client_read server_read t
     then Inr (\<not> (\<not> st_client_string_received t \<and> st_server_string_received t))
     else test_loop fuel os alloc t)))"

definition test_sessions ::
  "nat \<Rightarrow> 'o openssl \<Rightarrow> allocator \<Rightarrow> 'o ssl_session \<Rightarrow> 'o ssl_session \<Rightarrow> bool result" where
  "test_sessions fuel os alloc client server =
     (let (ok1, client) = session_init os client in
      if \<not> ok1 then Inr False
      else let (ok2, server) = session_init os server in
        if \<not> ok2 then Inr False
        else bind_result (session_handshake os True client) (\<lambda>client.
          bind_result (session_handshake os False server) (\<lambda>server.
          test_loop fuel os alloc
            \<lparr>st_client_session = client, st_server_session = server,
             st_client_write_input = buf_null, st_client_write_output = buf_null,
             st_client_read_output = buf_null, st_server_write_input = buf_null,
             st_server_write_output = buf_null, st_server_read_output = buf_null,
             st_ssl_established = False, st_client_string_received = False,
             st_server_string_received = False\<rparr>)))"

text \<open>
  The contexts and the key, and the rest of the test. \<open>return 1\<close> where no key was made returns
  true.
\<close>

definition test_ssl_key :: "answers \<Rightarrow> (ssl_context \<times> ssl_context \<times> obj) ossl" where
  "test_ssl_key ans = do {
     (_, client_context) \<leftarrow> context_init ans True True ssl_context_new;
     (_, server_context) \<leftarrow> context_init ans True False ssl_context_new;
     rsa \<leftarrow> create_key ans 2048;
     State_Monad.return (client_context, server_context, rsa) }"

definition test_ssl ::
  "nat \<Rightarrow> answers \<Rightarrow> int \<Rightarrow> 'o openssl \<Rightarrow> 'o \<Rightarrow> 'o \<Rightarrow> allocator \<Rightarrow> bool result ossl" where
  "test_ssl fuel ans now os lib1 lib2 alloc = do {
     (client_context, server_context, rsa) \<leftarrow> test_ssl_key ans;
     if rsa = None then State_Monad.return (Inr True)
     else do {
       cert \<leftarrow> create_cert ans now rsa rsa (str ''test name'') (str ''test name'') (str ''DICE'')
         (3 * 365 * 24 * 60 * 60);
       if cert = None then State_Monad.return (Inr False)
       else do {
         use_rsa_key ans rsa server_context;
         use_x509_cert ans cert server_context;
         client \<leftarrow> session_new ans lib1 client_context;
         server \<leftarrow> session_new ans lib2 server_context;
         State_Monad.return (test_sessions fuel os alloc client server) } } }"

text \<open>\<open>main\<close>: the tests in order, until one fails.\<close>

fun run_tests :: "bool result list \<Rightarrow> int result" where
  "run_tests [] = Inr 0"
| "run_tests (t # ts) = bind_result t (\<lambda>ok. if ok then run_tests ts else Inr (- 1))"

definition test_main ::
  "nat \<Rightarrow> answers \<Rightarrow> int \<Rightarrow> 'o openssl \<Rightarrow> 'o \<Rightarrow> 'o \<Rightarrow> allocator \<Rightarrow> ssl_world \<Rightarrow> int result" where
  "test_main fuel ans now os lib1 lib2 alloc w =
     run_tests [test_error_consume alloc, test_error_prepare alloc, test_options_prepare alloc,
       test_startup_prepare alloc, test_query_query alloc, test_query_query_paging alloc,
       fst (run_state (test_ssl fuel ans now os lib1 lib2 alloc) w),
       test_stream_storage, test_query_query_value alloc]"

subsection \<open>Lemmas\<close>

lemma run_tests_passes: "run_tests ts = Inr 0 \<longleftrightarrow> (\<forall>t \<in> set ts. t = Inr True)"
  by (induction ts) (auto simp: bind_result_def split: sum.splits)

text \<open>With an exact allocator there is no room for the zero that \<open>strcpy\<close> writes.\<close>

lemma buf_string_exact: "buf_string (\<lambda>n. n) s = Inl OutOfBounds"
  by (simp add: buf_string_def fill_def put_def new_char_def)

text \<open>Before the sessions are established no string is received.\<close>

definition waiting :: "'o ssl_test \<Rightarrow> bool" where
  "waiting t \<longleftrightarrow> \<not> st_ssl_established t \<and> \<not> st_client_string_received t \<and> \<not> st_server_string_received t"

lemma test_side_waiting:
  "test_side os alloc False s i r wi wo session = Inr (Some (session', n, received, r', wo')) \<Longrightarrow> \<not> received"
  by (auto simp: test_side_def Let_def split: if_splits)

lemma client_side_waiting: "test_client_side os alloc t = Inr (Some (n, t')) \<Longrightarrow> waiting t \<Longrightarrow> waiting t'"
  by (auto simp: test_client_side_def waiting_def dest!: test_side_waiting)

lemma server_side_waiting: "test_server_side os alloc t = Inr (Some (n, t')) \<Longrightarrow> waiting t \<Longrightarrow> waiting t'"
  by (auto simp: test_server_side_def waiting_def dest!: test_side_waiting)

lemma establish_waiting: "test_establish os (\<lambda>n. n) t = Inr t' \<Longrightarrow> waiting t \<Longrightarrow> waiting t'"
  by (auto simp: test_establish_def buf_string_exact split: if_splits)

lemma test_loop_waiting: "waiting t \<Longrightarrow> test_loop fuel os (\<lambda>n. n) t \<noteq> Inr True"
proof (induction fuel arbitrary: t)
  case (Suc fuel)
  show ?case
  proof
    assume "test_loop (Suc fuel) os (\<lambda>n. n) t = Inr True"
    then obtain n1 t1 n2 t2 t3 where t: "test_client_side os (\<lambda>n. n) t = Inr (Some (n1, t1))"
        "test_server_side os (\<lambda>n. n) t1 = Inr (Some (n2, t2))" "test_establish os (\<lambda>n. n) t2 = Inr t3"
      and loop: "test_finished n1 n2 t3 \<or> test_loop fuel os (\<lambda>n. n) t3 = Inr True"
      by (auto split: option.splits if_splits)
    have "waiting t3"
      using t Suc.prems client_side_waiting server_side_waiting establish_waiting by metis
    with loop Suc.IH show False by (auto simp: test_finished_def waiting_def)
  qed
qed simp

lemma test_sessions_exact: "test_sessions fuel os (\<lambda>n. n) client server \<noteq> Inr True"
  by (auto simp: test_sessions_def Let_def waiting_def bind_result_def split: prod.splits sum.splits
      intro!: test_loop_waiting)

subsection \<open>Properties\<close>

text \<open>
  C29: The test of SSL passes exactly if it was not run. With an allocator that gives exactly what is
  asked for, and whatever OpenSSL does, \<open>test_ssl\<close> returns true exactly if no key could be made,
  because it then returns 1; if the sessions are established it copies a string of five
  characters and its zero into five bytes. The program of the tests returns 0 with no
  allocator and no OpenSSL.
\<close>

theorem test_ssl_outcome:
  "(fst (run_state (test_ssl fuel ans now os lib1 lib2 (\<lambda>n. n)) w) = Inr True \<longleftrightarrow>
      snd (snd (fst (run_state (test_ssl_key ans) w))) = None) \<and>
   test_main fuel ans now os lib1 lib2 alloc w \<noteq> Inr 0"
proof
  show "test_main fuel ans now os lib1 lib2 alloc w \<noteq> Inr 0"
    unfolding test_main_def run_tests_passes by (simp add: test_stream_storage_faults)
  show "fst (run_state (test_ssl fuel ans now os lib1 lib2 (\<lambda>n. n)) w) = Inr True \<longleftrightarrow>
      snd (snd (fst (run_state (test_ssl_key ans) w))) = None"
    by (simp add: test_ssl_def test_sessions_exact split_def)
qed

end
