(* ===== verification/Test_Server.thy ===== *)
theory Test_Server
  imports Message
begin

text \<open>
  \<^verbatim>\<open>src/server/main.cpp\<close>: the program that accepts connections and reads messages from them.
  Calls of libuv and the error output are recorded in order. A \<open>uv_buf_t\<close> is the block that
  \<open>alloc_buffer\<close> allocated; libuv writes the \<open>nread\<close> bytes it received to its start, and its
  \<open>len\<close> is the length of the whole block.
\<close>

datatype server_effect =
    ServerStderr string
  | ServerTcpInit
  | ServerAccept
  | ServerReadStart
  | ServerClose
  | ServerBind string nat
  | ServerListen nat
  | ServerRun

record server_connection =
  sc_incomming :: message
  sc_effects :: "server_effect list"

definition server_connection_new :: server_connection where
  "server_connection_new = \<lparr>sc_incomming = message_new, sc_effects = []\<rparr>"

definition server_emit :: "server_effect \<Rightarrow> server_connection \<Rightarrow> server_connection" where
  "server_emit e c = c\<lparr>sc_effects := sc_effects c @ [e]\<rparr>"

definition consume_buffer :: "allocator \<Rightarrow> block \<Rightarrow> server_connection \<Rightarrow> server_connection result" where
  "consume_buffer alloc buf c =
     bind_result (message_consume alloc (sc_incomming c) (Ptr buf 0) (length buf)) (\<lambda>(consumed, message).
     Inr (c\<lparr>sc_incomming := (if consumed \<noteq> 0 then message_new else message)\<rparr>))"

text \<open>\<open>eof\<close>: the last error of the loop is \<open>UV_EOF\<close>.\<close>

definition handle_read :: "allocator \<Rightarrow> bool \<Rightarrow> int \<Rightarrow> block \<Rightarrow> server_connection
    \<Rightarrow> server_connection result" where
  "handle_read alloc eof nread buf c =
     (if nread = - 1
      then Inr (server_emit ServerClose (if eof then c else server_emit (ServerStderr ''Read error'') c))
      else consume_buffer alloc buf c)"

text \<open>\<open>accepted\<close>: \<open>uv_accept\<close> returns zero. The result is the new connection, if there is one.\<close>

definition on_new_connection :: "int \<Rightarrow> bool \<Rightarrow> server_connection option" where
  "on_new_connection status accepted =
     (if status = - 1 then None
      else let c = server_emit ServerAccept (server_emit ServerTcpInit server_connection_new) in
        Some (if accepted then server_emit ServerReadStart c else server_emit ServerClose c))"

text \<open>\<open>main\<close>: what it calls, and its result; \<open>listen\<close> and \<open>run\<close> are the results of libuv.\<close>

definition server_main :: "int \<Rightarrow> int \<Rightarrow> server_effect list \<times> int" where
  "server_main listen run =
     (if listen \<noteq> 0
      then ([ServerTcpInit, ServerBind ''127.0.0.1'' 7777, ServerListen 128, ServerStderr ''Listen error''], 1)
      else ([ServerTcpInit, ServerBind ''127.0.0.1'' 7777, ServerListen 128, ServerRun], run))"

subsection \<open>Reading\<close>

lemma consume_unwritten:
  assumes "length bs < 8" and "8 \<le> length bs + k" and "length bs + k < 2147483648"
  shows "message_consume alloc message_new (Ptr (map Some bs @ replicate k None) 0) (length bs + k)
      = Inl Indeterminate"
proof -
  let ?n = "length bs + k"
  have r: "sint (of_nat ?n :: int32) = int ?n"
    using assms(3) by (intro sint_of_nat_32) simp
  have "(of_nat ?n - of_nat CQL_HEADER_SIZE :: int32) = of_nat (?n - 8)"
    using assms(2) by (simp add: CQL_HEADER_SIZE_def of_nat_diff)
  then have o: "scast (of_nat ?n - of_nat CQL_HEADER_SIZE :: int32) = (of_nat (?n - 8) :: size_t)"
    using assms(3) by (simp only: scast_of_nat)
  have "(of_nat ?n - of_nat (?n - 8) :: size_t) = 8"
    using assms(2) by (simp add: of_nat_diff)
  then have needed: "unat (of_nat ?n - of_nat (?n - 8) :: size_t) = 8" by simp
  have "None \<in> set (take 8 (map Some bs @ replicate k None))"
    using assms(1,2) by simp
  then have load: "load_bytes (Ptr (map Some bs @ replicate k None) 0) 8 = Inl Indeterminate"
    using assms(2) by simp
  have "message_consume alloc message_new P ?n =
      bind_result (consume_header alloc (message_new\<lparr>m_received := of_nat ?n\<rparr>) P ?n)
        (\<lambda>(m, off). consume_body m P ?n off)" for P
    using assms(2) r by (simp add: message_consume_def Let_def message_new_def CQL_HEADER_SIZE_def)
  then show ?thesis
    using o needed load by (simp add: consume_header_def Let_def del: load_bytes.simps of_nat_add)
qed

lemma consume_buffer_frame:
  assumes "sc_incomming c = message_new"
    and "buf = map Some (wire_header v f s op (of_nat (length bs)) @ bs @ rest)"
    and "allocate_body op = Inr b" and "8 + length bs + length rest < 2147483648" and "\<And>n. n \<le> alloc n"
  shows "consume_buffer alloc buf c =
     bind_result (body_consume (Ptr (framed alloc (length bs) 0 bs) 0) (length bs) b) (\<lambda>_. Inr c)"
proof -
  let ?c = "wire_header v f s op (of_nat (length bs))"
  have "points_to (Ptr buf 0) (?c @ bs @ rest)" unfolding assms(2) by (simp del: points_to_append)
  moreover have "length buf = length (?c @ bs @ rest)" by (simp add: assms(2))
  ultimately have "message_consume alloc message_new (Ptr buf 0) (length buf) =
     bind_result (body_consume (Ptr (framed alloc (length bs) 0 bs) 0) (length bs) b) (\<lambda>(b', ok).
     Inr (of_nat (length (?c @ bs)),
       frame_done (header_done alloc (message_new\<lparr>m_received :=
         m_received message_new + of_nat (length buf)\<rparr>) ([] @ ?c) (length bs) b)
         (framed alloc (length bs) 0 bs) (length bs) b' ok))"
    using assms(3-5) by (intro message_consume_frame [OF header_partial_new]) simp_all
  moreover have "(of_nat (length (?c @ bs)) :: int32) \<noteq> 0"
    using assms(4) by (simp del: of_nat_add add: word_of_nat_eq_0_iff nat_dvd_not_less)
  ultimately show ?thesis
    using assms(1) by (cases "body_consume (Ptr (framed alloc (length bs) 0 bs) 0) (length bs) b")
      (auto simp: consume_buffer_def)
qed

subsection \<open>Properties\<close>

text \<open>
  C38: The server hands the whole receive buffer to the message, not the \<open>nread\<close> bytes it holds: when
  less than a header has arrived, it reads bytes of the buffer that nobody wrote.
\<close>

theorem server_reads_unwritten:
  assumes "sc_incomming c = message_new" and "length bs < 8" and "8 \<le> length bs + k"
    and "length bs + k < 2147483648"
  shows "handle_read alloc eof (int (length bs)) (map Some bs @ replicate k None) c = Inl Indeterminate"
  using consume_unwritten [OF assms(2-4), of alloc] assms(1)
  by (simp add: handle_read_def consume_buffer_def)

theorem server_reads_unwritten_witness:
  "handle_read (\<lambda>n. n) False (int (length [2, 0, 0 :: byte])) (map Some [2, 0, 0] @ replicate 65533 None)
     server_connection_new = Inl Indeterminate"
  by (rule server_reads_unwritten) (simp_all add: server_connection_new_def)

end
