(* ===== verification/Buffers.thy ===== *)
theory Buffers
  imports Prelude "HOL-Library.Multiset"
begin

text \<open>
  Who owns the memory of buffers: \<open>alloc_buffer\<close>, \<open>free_buffer\<close> and \<open>clear_buffer_deque\<close> of
  \<^verbatim>\<open>include/cql_common.hpp\<close>, and the objects that \<open>send_message\<close>, \<open>send_data\<close>, \<open>on_write\<close> and
  \<open>on_read\<close> of \<^verbatim>\<open>include/cql_client_connection.hpp\<close> create and delete. Contents of buffers are
  left to the other theories: here an object is a number and the form of \<open>new\<close> that made it.

  The sources delete arrays with \<open>delete\<close> instead of \<open>delete[]\<close>, which C++ leaves undefined
  and many allocators accept. The flag \<open>lenient\<close> says whether the allocator, which is not part of
  the repository, accepts it.
\<close>

subsection \<open>Objects\<close>

datatype new_form = ScalarNew | ArrayNew

record alloc_state =
  al_next :: nat
  al_live :: "(nat \<times> new_form) list"

definition alloc_init :: alloc_state where
  "alloc_init = \<lparr>al_next = 0, al_live = []\<rparr>"

definition new_object :: "new_form \<Rightarrow> alloc_state \<Rightarrow> nat \<times> alloc_state" where
  "new_object f a = (al_next a, \<lparr>al_next = Suc (al_next a), al_live = (al_next a, f) # al_live a\<rparr>)"

definition delete_object :: "bool \<Rightarrow> nat option \<Rightarrow> alloc_state \<Rightarrow> alloc_state result" where
  "delete_object lenient p a =
     (case p of
        None \<Rightarrow> Inr a
      | Some x \<Rightarrow>
          (case map_of (al_live a) x of
             None \<Rightarrow> Inl BadFree
           | Some f \<Rightarrow> if f = ArrayNew \<and> \<not> lenient then Inl MismatchedDelete
               else Inr (a\<lparr>al_live := filter (\<lambda>(y, _). y \<noteq> x) (al_live a)\<rparr>)))"

subsection \<open>cql_common.hpp\<close>

record uv_buf_ref =
  br_base :: "nat option"
  br_len :: nat

definition alloc_buffer :: "nat \<Rightarrow> alloc_state \<Rightarrow> uv_buf_ref \<times> alloc_state" where
  "alloc_buffer suggested_size a =
     (let (p, a) = new_object ArrayNew a in (\<lparr>br_base = Some p, br_len = suggested_size\<rparr>, a))"

text \<open>The overload that libuv calls, with a handle that is not used.\<close>

definition alloc_buffer_cb :: "'h \<Rightarrow> nat \<Rightarrow> alloc_state \<Rightarrow> uv_buf_ref \<times> alloc_state" where
  "alloc_buffer_cb handle suggested_size a = alloc_buffer suggested_size a"

definition free_buffer :: "bool \<Rightarrow> uv_buf_ref \<Rightarrow> alloc_state \<Rightarrow> alloc_state result" where
  "free_buffer lenient buf a = delete_object lenient (br_base buf) a"

fun free_buffers :: "bool \<Rightarrow> uv_buf_ref list \<Rightarrow> alloc_state \<Rightarrow> alloc_state result" where
  "free_buffers lenient [] a = Inr a"
| "free_buffers lenient (b # bs) a = bind_result (free_buffer lenient b a) (free_buffers lenient bs)"

definition clear_buffer_deque ::
  "bool \<Rightarrow> uv_buf_ref list \<Rightarrow> alloc_state \<Rightarrow> (uv_buf_ref list \<times> alloc_state) result" where
  "clear_buffer_deque lenient buffers a =
     bind_result (free_buffers lenient buffers a) (\<lambda>a. Inr ([], a))"

subsection \<open>Writing and reading\<close>

text \<open>\<open>WriteRequestData\<close> with the \<open>uv_write_t\<close> that points to it.\<close>

record write_request =
  wr_req :: nat
  wr_data :: nat
  wr_buf :: uv_buf_ref

record io_memory =
  im_alloc :: alloc_state
  im_pending :: "write_request list"

definition send_data_memory :: "uv_buf_ref \<Rightarrow> io_memory \<Rightarrow> io_memory" where
  "send_data_memory buf s =
     (let (req, a) = new_object ScalarNew (im_alloc s);
          (data, a) = new_object ScalarNew a in
      s\<lparr>im_alloc := a, im_pending := im_pending s @ [\<lparr>wr_req = req, wr_data = data, wr_buf = buf\<rparr>]\<rparr>)"

text \<open>
  \<open>Message::prepare\<close> makes the buffer that \<open>send_message\<close> sends; \<open>no_stream\<close> says that
  \<open>set_stream\<close> returned an error, which is returned before anything is made.
\<close>

definition send_message_memory :: "bool \<Rightarrow> nat \<Rightarrow> io_memory \<Rightarrow> io_memory" where
  "send_message_memory no_stream n s =
     (if no_stream then s
      else let (p, a) = new_object ArrayNew (im_alloc s) in
        send_data_memory \<lparr>br_base = Some p, br_len = n\<rparr> (s\<lparr>im_alloc := a\<rparr>))"

text \<open>Messages that a handler sends, one after the other.\<close>

fun send_messages_memory :: "(bool \<times> nat) list \<Rightarrow> io_memory \<Rightarrow> io_memory" where
  "send_messages_memory [] s = s"
| "send_messages_memory ((e, n) # ms) s = send_messages_memory ms (send_message_memory e n s)"

text \<open>libuv calls \<open>on_write\<close> for one of the requests that are under way.\<close>

definition on_write_memory :: "bool \<Rightarrow> nat \<Rightarrow> io_memory \<Rightarrow> io_memory result" where
  "on_write_memory lenient i s =
     (let r = im_pending s ! i in
      bind_result (delete_object lenient (br_base (wr_buf r)) (im_alloc s)) (\<lambda>a.
      bind_result (delete_object lenient (Some (wr_data r)) a) (\<lambda>a.
      bind_result (delete_object lenient (Some (wr_req r)) a) (\<lambda>a.
      Inr (s\<lparr>im_alloc := a, im_pending := take i (im_pending s) @ drop (Suc i) (im_pending s)\<rparr>)))))"

text \<open>
  One iteration of the SSL loop of \<open>on_read\<close>. What the session and the handlers do is given:
  \<open>sr_plain\<close> is \<open>None\<close> when \<open>read_write\<close> makes no read output (nothing is pending), and otherwise
  the size it reports for the array it makes, which may be 0; \<open>sr_out\<close> is the size of the write
  output, for which an array is made unless it is 0; \<open>sr_sends\<close> are the messages that \<open>consume\<close>
  sends, \<open>sr_event\<close> those that \<open>event_received\<close> sends at the end of the handshake. The read output is
  deleted behind \<open>consume\<close>, which is called only if its size is not 0; the write output is handed
  to \<open>send_data\<close>. The result lists the arrays that nobody refers to any more.
\<close>

record ssl_round =
  sr_plain :: "nat option"
  sr_sends :: "(bool \<times> nat) list"
  sr_out :: nat
  sr_event :: "(bool \<times> nat) list"

definition new_array :: "bool \<Rightarrow> alloc_state \<Rightarrow> nat option \<times> alloc_state" where
  "new_array wanted a =
     (if wanted then (let (p, a) = new_object ArrayNew a in (Some p, a)) else (None, a))"

definition ssl_round_memory :: "bool \<Rightarrow> ssl_round \<Rightarrow> io_memory \<Rightarrow> (nat list \<times> io_memory) result" where
  "ssl_round_memory lenient r s =
     (let (read_output, a) = new_array (sr_plain r \<noteq> None) (im_alloc s);
          (write_output, a) = new_array (sr_out r \<noteq> 0) a;
          s = s\<lparr>im_alloc := a\<rparr> in
      bind_result
        (if read_output \<noteq> None \<and> sr_plain r \<noteq> Some 0
         then let s = send_messages_memory (sr_sends r) s in
           bind_result (delete_object lenient read_output (im_alloc s)) (\<lambda>a. Inr ([], s\<lparr>im_alloc := a\<rparr>))
         else Inr ((case read_output of None \<Rightarrow> [] | Some p \<Rightarrow> [p]), s)) (\<lambda>(lost, s).
      let s = (if write_output \<noteq> None
               then send_data_memory \<lparr>br_base = write_output, br_len = sr_out r\<rparr> s else s) in
      Inr (lost, send_messages_memory (sr_event r) s)))"

fun ssl_rounds_memory :: "bool \<Rightarrow> ssl_round list \<Rightarrow> io_memory \<Rightarrow> (nat list \<times> io_memory) result" where
  "ssl_rounds_memory lenient [] s = Inr ([], s)"
| "ssl_rounds_memory lenient (r # rs) s =
     bind_result (ssl_round_memory lenient r s) (\<lambda>(lost, s).
     bind_result (ssl_rounds_memory lenient rs s) (\<lambda>(lost', s). Inr (lost' @ lost, s)))"

text \<open>
  libuv gets a buffer of \<open>n\<close> bytes from \<open>alloc_buffer\<close> and hands it to \<open>on_read\<close>, which returns
  early on an error, without freeing it. Otherwise the bytes go through the SSL session (the
  rounds of the loop) or to \<open>consume\<close> (the messages it sends).
\<close>

datatype read_work = Plain "(bool \<times> nat) list" | Ssl "ssl_round list"

definition on_read_memory ::
  "bool \<Rightarrow> nat \<Rightarrow> int \<Rightarrow> read_work \<Rightarrow> io_memory \<Rightarrow> (nat list \<times> io_memory) result" where
  "on_read_memory lenient n nread work s =
     (let (buf, a) = alloc_buffer n (im_alloc s); s = s\<lparr>im_alloc := a\<rparr> in
      if nread = - 1 then Inr ([the (br_base buf)], s)
      else bind_result
        (case work of
           Ssl rounds \<Rightarrow> ssl_rounds_memory lenient rounds s
         | Plain sends \<Rightarrow> Inr ([], send_messages_memory sends s)) (\<lambda>(lost, s).
        bind_result (free_buffer lenient buf (im_alloc s)) (\<lambda>a. Inr (lost, s\<lparr>im_alloc := a\<rparr>))))"

text \<open>
  The events of a connection, in any order; the last argument collects the arrays that reads leave
  behind.
\<close>

inductive io_reachable :: "bool \<Rightarrow> io_memory \<Rightarrow> nat list \<Rightarrow> bool" for lenient where
  start: "io_reachable lenient \<lparr>im_alloc = alloc_init, im_pending = []\<rparr> []"
| send: "io_reachable lenient s lost \<Longrightarrow> io_reachable lenient (send_message_memory e n s) lost"
| written: "io_reachable lenient s lost \<Longrightarrow> i < length (im_pending s) \<Longrightarrow>
    on_write_memory lenient i s = Inr s' \<Longrightarrow> io_reachable lenient s' lost"
| read: "io_reachable lenient s lost \<Longrightarrow> on_read_memory lenient n nread work s = Inr (lost', s') \<Longrightarrow>
    io_reachable lenient s' (lost' @ lost)"

subsection \<open>Lemmas\<close>

text \<open>The live objects, as a multiset; numbers are not used twice.\<close>

definition owns :: "alloc_state \<Rightarrow> (nat \<times> new_form) multiset \<Rightarrow> bool" where
  "owns a M \<longleftrightarrow> mset (al_live a) = M \<and> distinct (map fst (al_live a)) \<and>
     (\<forall>x \<in> fst ` set (al_live a). x < al_next a)"

lemma owns_init: "owns alloc_init {#}"
  by (simp add: owns_def alloc_init_def)

lemma owns_new: "owns a M \<Longrightarrow> owns (snd (new_object f a)) (add_mset (al_next a, f) M)"
  by (auto simp: owns_def new_object_def)

lemma filter_remove1:
  assumes "distinct (map fst xs)" and "(x, f) \<in> set xs"
  shows "filter (\<lambda>(y, _). y \<noteq> x) xs = remove1 (x, f) xs"
  using assms
proof (induction xs)
  case (Cons z xs)
  show ?case
  proof (cases "fst z = x")
    case True
    then have "filter (\<lambda>(y, _). y \<noteq> x) xs = xs"
      using Cons.prems(1) by (intro filter_True) (auto simp: image_iff split: prod.splits)
    then show ?thesis using Cons.prems True by (cases z) force
  next
    case False
    then show ?thesis using Cons by (cases z) auto
  qed
qed simp

lemma owns_delete:
  assumes "owns a (add_mset (x, f) M)"
  shows "f = ArrayNew \<Longrightarrow> \<not> lenient \<Longrightarrow> delete_object lenient (Some x) a = Inl MismatchedDelete"
    and "f = ArrayNew \<longrightarrow> lenient \<Longrightarrow> \<exists>a'. delete_object lenient (Some x) a = Inr a' \<and> owns a' M \<and>
      al_next a' = al_next a"
proof -
  have in_live: "(x, f) \<in> set (al_live a)" and dist: "distinct (map fst (al_live a))"
    using assms by (auto simp: owns_def simp flip: set_mset_mset)
  then have get: "map_of (al_live a) x = Some f" by simp
  show "delete_object lenient (Some x) a = Inl MismatchedDelete" if "f = ArrayNew" "\<not> lenient"
    using get that by (simp add: delete_object_def)
  let ?a = "a\<lparr>al_live := remove1 (x, f) (al_live a)\<rparr>"
  have "owns ?a M"
    using assms distinct_map_filter [OF dist, of "\<lambda>(y, _). y \<noteq> x"] set_remove1_subset [of "(x,
      f)" "al_live a"]
    by (auto simp: owns_def filter_remove1 [OF dist in_live])
  then show "\<exists>a'. delete_object lenient (Some x) a = Inr a' \<and> owns a' M \<and> al_next a' = al_next a"
    if "f = ArrayNew \<longrightarrow> lenient"
    using get that by (auto simp: delete_object_def filter_remove1 [OF dist in_live])
qed

text \<open>The objects of a request under way, with their forms.\<close>

definition owned :: "write_request \<Rightarrow> (nat \<times> new_form) multiset" where
  "owned r = {#(the (br_base (wr_buf r)), ArrayNew), (wr_data r, ScalarNew), (wr_req r, ScalarNew)#}"

abbreviation lost_arrays :: "nat list \<Rightarrow> (nat \<times> new_form) multiset" where
  "lost_arrays lost \<equiv> image_mset (\<lambda>x. (x, ArrayNew)) (mset lost)"

text \<open>\<open>M\<close> are objects held by the handler that is running.\<close>

definition io_with :: "(nat \<times> new_form) multiset \<Rightarrow> io_memory \<Rightarrow> nat list \<Rightarrow> bool" where
  "io_with M s lost \<longleftrightarrow>
     owns (im_alloc s) (M + (sum_list (map owned (im_pending s)) + lost_arrays lost)) \<and>
     (\<forall>r \<in> set (im_pending s). br_base (wr_buf r) \<noteq> None)"

definition io_ok :: "io_memory \<Rightarrow> nat list \<Rightarrow> bool" where
  "io_ok s lost \<longleftrightarrow>
     owns (im_alloc s) (sum_list (map owned (im_pending s)) + lost_arrays lost) \<and>
     (\<forall>r \<in> set (im_pending s). br_base (wr_buf r) \<noteq> None)"

lemma io_with_empty [simp]: "io_with {#} s lost \<longleftrightarrow> io_ok s lost"
  by (simp add: io_with_def io_ok_def)

lemma sum_list_split:
  assumes "i < length xs"
  shows "sum_list (map owned xs) = owned (xs ! i) + sum_list (map owned (take i xs @ drop (Suc i) xs))"
proof -
  have "xs = take i xs @ xs ! i # drop (Suc i) xs" using assms by (rule id_take_nth_drop)
  then have "sum_list (map owned xs) = sum_list (map owned (take i xs @ xs ! i # drop (Suc i) xs))" by simp
  then show ?thesis by (simp add: ac_simps)
qed

lemma io_with_new:
  assumes "io_with M s lost" and "new_object f (im_alloc s) = (p, a)"
  shows "io_with (add_mset (p, f) M) (s\<lparr>im_alloc := a\<rparr>) lost"
  using assms owns_new [of "im_alloc s" _ f] by (auto simp: io_with_def new_object_def)

lemma io_with_delete:
  assumes "io_with (add_mset (p, f) M) s lost" and "delete_object lenient (Some p) (im_alloc s) = Inr a"
  shows "io_with M (s\<lparr>im_alloc := a\<rparr>) lost"
proof -
  have own: "owns (im_alloc s) (add_mset (p, f) (M + (sum_list (map owned (im_pending s)) +
      lost_arrays lost)))"
    using assms(1) by (simp add: io_with_def)
  have "f = ArrayNew \<longrightarrow> lenient" using owns_delete(1) [OF own, of lenient] assms(2) by (cases lenient) auto
  from owns_delete(2) [OF own this] assms show ?thesis by (auto simp: io_with_def)
qed

lemma send_data_memory_ok:
  assumes "io_with (add_mset (p, ArrayNew) M) s lost"
  shows "io_with M (send_data_memory \<lparr>br_base = Some p, br_len = n\<rparr> s) lost"
proof -
  let ?a1 = "snd (new_object ScalarNew (im_alloc s))"
  have "owns (snd (new_object ScalarNew ?a1)) (add_mset (al_next ?a1, ScalarNew)
      (add_mset (al_next (im_alloc s), ScalarNew)
      (add_mset (p, ArrayNew) M + (sum_list (map owned (im_pending s)) + lost_arrays lost))))"
    using assms by (intro owns_new) (simp add: io_with_def)
  then show ?thesis
    using assms
    by (auto simp: send_data_memory_def new_object_def io_with_def owned_def add_mset_commute ac_simps)
qed

lemma send_message_memory_ok:
  assumes "io_with M s lost"
  shows "io_with M (send_message_memory e n s) lost"
  using io_with_new [OF assms, of ArrayNew] send_data_memory_ok assms
  by (auto simp: send_message_memory_def split: prod.split)

lemma send_messages_memory_ok: "io_with M s lost \<Longrightarrow> io_with M (send_messages_memory ms s) lost"
  by (induction ms s rule: send_messages_memory.induct) (simp_all add: send_message_memory_ok)

text \<open>The array of a read output or write output, if there is one.\<close>

definition held_array :: "nat option \<Rightarrow> (nat \<times> new_form) multiset" where
  "held_array p = (case p of None \<Rightarrow> {#} | Some x \<Rightarrow> {#(x, ArrayNew)#})"

lemma held_array_simps [simp]: "held_array None = {#}" "held_array (Some x) = {#(x, ArrayNew)#}"
  by (simp_all add: held_array_def)

lemma new_array_ok:
  assumes "io_with M s lost" and "new_array w (im_alloc s) = (p, a)"
  shows "io_with (held_array p + M) (s\<lparr>im_alloc := a\<rparr>) lost" and "p \<noteq> None \<longleftrightarrow> w"
  using assms io_with_new [OF assms(1), of ArrayNew]
  by (auto simp: new_array_def split: if_splits prod.splits)

lemma io_with_lose:
  "io_with (add_mset (p, ArrayNew) M) s lost \<longleftrightarrow> io_with M s (p # lost)"
  by (simp add: io_with_def)

lemma ssl_round_memory_ok:
  assumes "io_with M s lost" and "ssl_round_memory lenient r s = Inr (lost', s')"
  shows "io_with M s' (lost' @ lost)"
proof -
  obtain ro a1 where ro: "new_array (sr_plain r \<noteq> None) (im_alloc s) = (ro, a1)"
      by (cases "new_array (sr_plain r \<noteq> None) (im_alloc s)")
  obtain wo a2 where wo: "new_array (sr_out r \<noteq> 0) a1 = (wo, a2)" by (cases "new_array (sr_out r \<noteq> 0) a1")
  let ?s1 = "s\<lparr>im_alloc := a1\<rparr>" and ?s2 = "s\<lparr>im_alloc := a2\<rparr>"
  note ok1 = new_array_ok [OF assms(1) ro]
  have "new_array (sr_out r \<noteq> 0) (im_alloc ?s1) = (wo, a2)" using wo by simp
  note ok2 = new_array_ok [OF ok1(1) this]
  have ok2': "io_with (held_array wo + (held_array ro + M)) ?s2 lost" using ok2(1) by simp
  obtain s3 where s3: "io_with (held_array wo + M) s3 (lost' @ lost)"
    and s': "s' = send_messages_memory (sr_event r)
      (if wo \<noteq> None then send_data_memory \<lparr>br_base = wo, br_len = sr_out r\<rparr> s3 else s3)"
  proof (cases "ro \<noteq> None \<and> sr_plain r \<noteq> Some 0")
    case True
    then obtain p where p: "ro = Some p" by auto
    let ?s = "send_messages_memory (sr_sends r) ?s2"
    obtain a3 where a3: "delete_object lenient (Some p) (im_alloc ?s) = Inr a3"
      and rest: "lost' = []" "s' = send_messages_memory (sr_event r)
        (if wo \<noteq> None then send_data_memory \<lparr>br_base = wo, br_len = sr_out r\<rparr> (?s\<lparr>im_alloc := a3\<rparr>)
         else ?s\<lparr>im_alloc := a3\<rparr>)"
      using assms(2) True unfolding ssl_round_memory_def ro wo Let_def prod.case if_P [OF True]
        by (auto simp: p)
    have "io_with (add_mset (p, ArrayNew) (held_array wo + M)) ?s lost"
      using send_messages_memory_ok [OF ok2'] by (simp add: p)
    from io_with_delete [OF this a3] that rest show thesis by simp
  next
    case False
    then have "lost' = (case ro of None \<Rightarrow> [] | Some p \<Rightarrow> [p])" "s' = send_messages_memory (sr_event r)
        (if wo \<noteq> None then send_data_memory \<lparr>br_base = wo, br_len = sr_out r\<rparr> ?s2 else ?s2)"
      using assms(2) unfolding ssl_round_memory_def ro wo Let_def prod.case if_not_P [OF False] by auto
    moreover have "io_with (held_array wo + M) ?s2 ((case ro of None \<Rightarrow> [] | Some p \<Rightarrow> [p]) @ lost)"
      using ok2' by (cases ro) (simp_all add: io_with_lose)
    ultimately show thesis using that [of ?s2] by simp
  qed
  have "io_with M (if wo \<noteq> None then send_data_memory \<lparr>br_base = wo, br_len = sr_out r\<rparr> s3
      else s3) (lost' @ lost)"
    using s3 send_data_memory_ok by (cases wo) auto
  then show ?thesis unfolding s' by (rule send_messages_memory_ok)
qed

lemma ssl_rounds_memory_ok:
  "io_with M s lost \<Longrightarrow> ssl_rounds_memory lenient rs s = Inr (lost', s') \<Longrightarrow> io_with M s' (lost' @ lost)"
proof (induction rs arbitrary: s lost lost')
  case (Cons r rs)
  from Cons.prems(2) obtain l1 s1 l2 where
    r: "ssl_round_memory lenient r s = Inr (l1, s1)" "ssl_rounds_memory lenient rs s1 = Inr (l2, s')"
      "lost' = l2 @ l1"
    by auto
  from Cons.IH [OF ssl_round_memory_ok [OF Cons.prems(1) r(1)] r(2)] r(3) show ?case by simp
qed simp

lemma on_write_memory_ok:
  assumes ok: "io_ok s lost" and i: "i < length (im_pending s)"
  shows "\<not> lenient \<Longrightarrow> on_write_memory lenient i s = Inl MismatchedDelete"
    and "lenient \<Longrightarrow> \<exists>s'. on_write_memory lenient i s = Inr s' \<and> io_ok s' lost \<and>
      im_pending s' = take i (im_pending s) @ drop (Suc i) (im_pending s)"
proof -
  let ?r = "im_pending s ! i" and ?rest = "take i (im_pending s) @ drop (Suc i) (im_pending s)"
  let ?M = "sum_list (map owned ?rest) + lost_arrays lost"
  obtain p where p: "br_base (wr_buf ?r) = Some p"
    using ok nth_mem [OF i] by (auto simp: io_ok_def)
  have own: "owns (im_alloc s) (add_mset (p, ArrayNew) (add_mset (wr_data ?r, ScalarNew)
      (add_mset (wr_req ?r, ScalarNew) ?M)))"
    using ok p unfolding io_ok_def sum_list_split [OF i] by (simp add: owned_def)
  show "on_write_memory lenient i s = Inl MismatchedDelete" if "\<not> lenient"
    using owns_delete(1) [OF own _ that] by (simp add: on_write_memory_def Let_def p)
  have "\<forall>r \<in> set ?rest. br_base (wr_buf r) \<noteq> None"
    using ok by (auto simp: io_ok_def dest: in_set_takeD in_set_dropD)
  moreover assume lenient
  moreover from owns_delete(2) [OF own, of lenient] \<open>lenient\<close> obtain a1 where
    a1: "delete_object lenient (Some p) (im_alloc s) = Inr a1"
      "owns a1 (add_mset (wr_data ?r, ScalarNew) (add_mset (wr_req ?r, ScalarNew) ?M))" by blast
  moreover from owns_delete(2) [OF a1(2), of lenient] obtain a2 where
    a2: "delete_object lenient (Some (wr_data ?r)) a1 = Inr a2" "owns a2 (add_mset (wr_req ?r,
      ScalarNew) ?M)"
    by blast
  moreover from owns_delete(2) [OF a2(2), of lenient] obtain a3 where
    "delete_object lenient (Some (wr_req ?r)) a2 = Inr a3" "owns a3 ?M" by blast
  ultimately show "\<exists>s'. on_write_memory lenient i s = Inr s' \<and> io_ok s' lost \<and> im_pending s' = ?rest"
    by (simp add: on_write_memory_def Let_def p io_ok_def)
qed

lemma on_read_memory_ok:
  assumes "io_ok s lost" and "on_read_memory lenient n nread work s = Inr (lost', s')"
  shows "io_ok s' (lost' @ lost)"
proof -
  obtain p a where new: "new_object ArrayNew (im_alloc s) = (p, a)"
    by (cases "new_object ArrayNew (im_alloc s)")
  have s1: "io_with (add_mset (p, ArrayNew) {#}) (s\<lparr>im_alloc := a\<rparr>) lost"
    using io_with_new [OF _ new, of "{#}" lost] assms(1) by simp
  show ?thesis
  proof (cases "nread = - 1")
    case True
    then have "lost' = [p]" "s' = s\<lparr>im_alloc := a\<rparr>"
      using assms(2) by (simp_all add: on_read_memory_def alloc_buffer_def new Let_def)
    with s1 show ?thesis by (simp add: io_with_lose)
  next
    case False
    obtain s2 a2 where work: "(case work of
           Ssl rounds \<Rightarrow> ssl_rounds_memory lenient rounds (s\<lparr>im_alloc := a\<rparr>)
         | Plain sends \<Rightarrow> Inr ([], send_messages_memory sends (s\<lparr>im_alloc := a\<rparr>))) = Inr (lost', s2)"
      and del: "delete_object lenient (Some p) (im_alloc s2) = Inr a2" and s': "s' = s2\<lparr>im_alloc := a2\<rparr>"
      using assms(2) False by (auto simp: on_read_memory_def alloc_buffer_def free_buffer_def new Let_def)
    have "io_with (add_mset (p, ArrayNew) {#}) s2 (lost' @ lost)"
      using work ssl_rounds_memory_ok [OF s1] send_messages_memory_ok [OF s1]
      by (cases work) auto
    from io_with_delete [OF this del] show ?thesis by (simp add: s')
  qed
qed

lemma io_reachable_ok: "io_reachable lenient s lost \<Longrightarrow> io_ok s lost"
proof (induction rule: io_reachable.induct)
  case start
  then show ?case by (simp add: io_ok_def owns_init)
next
  case (send s lost e n)
  then show ?case using send_message_memory_ok [of "{#}" s lost e n] by simp
next
  case (written s lost i s')
  show ?case
    using on_write_memory_ok [OF written.IH written.hyps(2), of lenient] written.hyps(3) by fastforce
next
  case (read s lost n nread work lost' s')
  then show ?case using on_read_memory_ok by blast
qed

text \<open>A queue of buffers, all from \<open>alloc_buffer\<close>.\<close>

fun alloc_buffers :: "nat list \<Rightarrow> alloc_state \<Rightarrow> uv_buf_ref list \<times> alloc_state" where
  "alloc_buffers [] a = ([], a)"
| "alloc_buffers (n # ns) a =
     (let (b, a) = alloc_buffer n a; (bs, a) = alloc_buffers ns a in (b # bs, a))"

definition arrays :: "uv_buf_ref list \<Rightarrow> (nat \<times> new_form) multiset" where
  "arrays bs = image_mset (\<lambda>b. (the (br_base b), ArrayNew)) (mset bs)"

lemma arrays_simps [simp]:
  "arrays [] = {#}" "arrays (b # bs) = add_mset (the (br_base b), ArrayNew) (arrays bs)"
  by (simp_all add: arrays_def)

lemma alloc_buffers_owns:
  assumes "alloc_buffers ns a = (bs, a')" and "owns a M"
  shows "owns a' (M + arrays bs) \<and> map br_len bs = ns \<and> (\<forall>b \<in> set bs. br_base b \<noteq> None)"
  using assms
proof (induction ns arbitrary: a bs M)
  case (Cons n ns)
  let ?b = "\<lparr>br_base = Some (al_next a), br_len = n\<rparr>" and ?a = "snd (new_object ArrayNew a)"
  have own: "owns ?a (add_mset (al_next a, ArrayNew) M)" by (rule owns_new) (rule Cons.prems(2))
  obtain cs where cs: "alloc_buffers ns ?a = (cs, a')" "bs = ?b # cs"
    using Cons.prems(1) by (auto simp: alloc_buffer_def new_object_def split: prod.splits)
  from Cons.IH [OF cs(1) own] cs(2) show ?case by simp
qed simp

lemma free_buffers_owns:
  assumes "owns a (M + arrays bs)" and "\<forall>b \<in> set bs. br_base b \<noteq> None"
  shows "\<exists>a'. free_buffers True bs a = Inr a' \<and> owns a' M"
  using assms
proof (induction bs arbitrary: a)
  case (Cons b bs)
  obtain x where x: "br_base b = Some x" using Cons.prems(2) by auto
  then have "owns a (add_mset (x, ArrayNew) (M + arrays bs))" using Cons.prems(1) by simp
  from owns_delete(2) [OF this, of True] obtain a1 where
    a1: "delete_object True (Some x) a = Inr a1" "owns a1 (M + arrays bs)" by blast
  from Cons.IH [OF a1(2)] Cons.prems(2) a1(1) show ?case by (simp add: free_buffer_def x)
qed simp

lemma free_buffers_strict:
  assumes "owns a (M + arrays bs)" and "\<forall>b \<in> set bs. br_base b \<noteq> None" and "bs \<noteq> []"
  shows "free_buffers False bs a = Inl MismatchedDelete"
proof -
  obtain b cs x where b: "bs = b # cs" "br_base b = Some x"
    using assms(2,3) by (cases bs) auto
  then have "owns a (add_mset (x, ArrayNew) (M + arrays cs))" using assms(1) by simp
  from owns_delete(1) [OF this, of False] show ?thesis by (simp add: b free_buffer_def)
qed

subsection \<open>Properties\<close>

text \<open>
  C21: Buffers of writes and reads have one owner, with and without SSL. Of the buffers, request data
  and write requests that a connection makes for its writes and reads, the live ones are in
  every reachable state, each once, those of the writes under way (the buffer, the request and its
  data) and those left behind by reads, which nobody frees: the buffer of a failed read, and
  decrypted output of size 0. When libuv completes any of the writes, \<open>on_write\<close> deletes its three
  objects, each of them there, provided that the allocator accepts \<open>delete\<close> for an array;
  otherwise it goes wrong at its first \<open>delete\<close>. Messages and requests are not counted.
\<close>

theorem write_buffers_owned:
  assumes "io_reachable lenient s lost" and "i < length (im_pending s)"
  shows "distinct (map fst (al_live (im_alloc s))) \<and>
     mset (al_live (im_alloc s)) =
       sum_list (map owned (im_pending s)) + image_mset (\<lambda>x. (x, ArrayNew)) (mset lost) \<and>
     (if lenient
      then \<exists>s'. on_write_memory lenient i s = Inr s' \<and>
        mset (al_live (im_alloc s)) = mset (al_live (im_alloc s')) + owned (im_pending s ! i)
      else on_write_memory lenient i s = Inl MismatchedDelete)"
proof -
  note ok = io_reachable_ok [OF assms(1)]
  have live: "mset (al_live (im_alloc s)) = sum_list (map owned (im_pending s)) + lost_arrays lost"
    "distinct (map fst (al_live (im_alloc s)))"
    using ok by (simp_all add: io_ok_def owns_def)
  show ?thesis
  proof (cases lenient)
    case True
    from on_write_memory_ok(2) [OF ok assms(2) this] obtain s' where
      s': "on_write_memory lenient i s = Inr s'" "io_ok s' lost"
        "im_pending s' = take i (im_pending s) @ drop (Suc i) (im_pending s)" by blast
    then have "mset (al_live (im_alloc s')) + owned (im_pending s ! i) =
        sum_list (map owned (im_pending s)) + lost_arrays lost"
      unfolding sum_list_split [OF assms(2)] by (simp add: io_ok_def owns_def)
    then show ?thesis using live s'(1) True by auto
  next
    case False
    then show ?thesis using live on_write_memory_ok(1) [OF ok assms(2) False] by simp
  qed
qed

text \<open>An SSL read that decrypts nothing to an array and has bytes to send.\<close>

definition sample_round :: ssl_round where
  "sample_round = \<lparr>sr_plain = Some 0, sr_sends = [], sr_out = 5, sr_event = []\<rparr>"

theorem write_buffers_owned_witness:
  "\<exists>s s'. on_read_memory True 64 9 (Ssl [sample_round]) \<lparr>im_alloc = alloc_init, im_pending = []\<rparr> =
      Inr ([1], s) \<and>
     on_write_memory True 0 s = Inr s' \<and> al_live (im_alloc s') = [(1, ArrayNew)]"
proof -
  obtain s where s: "on_read_memory True 64 9 (Ssl [sample_round]) \<lparr>im_alloc = alloc_init,
      im_pending = []\<rparr> =
      Inr ([1], s)" "length (im_pending s) = 1"
    "owned (im_pending s ! 0) = {#(2, ArrayNew), (4, ScalarNew), (3, ScalarNew)#}"
    "mset (al_live (im_alloc s)) = {#(1, ArrayNew), (2, ArrayNew), (4, ScalarNew), (3, ScalarNew)#}"
    by (auto simp: on_read_memory_def alloc_buffer_def new_object_def alloc_init_def ssl_round_memory_def
        new_array_def sample_round_def send_data_memory_def free_buffer_def delete_object_def owned_def
        eval_nat_numeral add_mset_commute)
  with write_buffers_owned [OF io_reachable.read [OF io_reachable.start s(1)], of 0] obtain s' where
    "on_write_memory True 0 s = Inr s'" "mset (al_live (im_alloc s')) = {#(1, ArrayNew)#}"
    by auto
  with s(1) show ?thesis by (auto simp: mset_single_iff_right)
qed

text \<open>
  C22: \<open>clear_buffer_deque\<close> frees a queue of buffers from \<open>alloc_buffer\<close> completely and touches nothing
  else, provided that the allocator accepts \<open>delete\<close> for an array; otherwise it goes wrong at the
  first buffer.
\<close>

theorem clear_frees_buffers:
  assumes "owns a M" and "alloc_buffers ns a = (bs, a')"
  shows "map br_len bs = ns \<and> (\<exists>a''. clear_buffer_deque True bs a' = Inr ([], a'') \<and> owns a'' M) \<and>
     (if ns = [] then clear_buffer_deque False bs a' = Inr ([], a)
      else clear_buffer_deque False bs a' = Inl MismatchedDelete)"
  using alloc_buffers_owns [OF assms(2,1)] free_buffers_owns [of a' M bs] free_buffers_strict [of a' M bs]
    assms(2)
  by (auto simp: clear_buffer_deque_def)

theorem clear_frees_buffers_witness:
  "\<exists>a''. clear_buffer_deque True (fst (alloc_buffers [64, 0] alloc_init)) (snd (alloc_buffers [64, 0] alloc_init)) =
       Inr ([], a'') \<and> owns a'' {#}"
  using clear_frees_buffers [OF owns_init prod.collapse [symmetric], of "[64, 0]"] by simp

end
