(* ===== verification/Spec2Isabelle.thy ===== *)
theory Spec2Isabelle
  imports Answers Segmentation Stream_Exhaustion Mpmc_Progress Cluster Ssl_Props Ssl_Test
      Test_Server Buffers
begin

text \<open>
  A verification library for uv-client-server, a C++ client library for Cassandra's native
  protocol (version 2) on top of libuv and OpenSSL, with a test server, a test client and unit
  tests.

  \<^bold>\<open>The program.\<close> A \<open>Cluster\<close> holds options and makes sessions. A \<open>Session\<close> owns a number of event
  loops (\<open>IOWorker\<close>), each with one \<open>Pool\<close> of connections per host, and a lock-free queue
  through which callers hand requests to the loops. A \<open>ClientConnection\<close> resolves a host,
  connects, runs the SSL handshake if it has an \<open>SSLSession\<close> (made by an \<open>SSLContext\<close>),
  negotiates with OPTIONS, SUPPORTED, STARTUP and READY frames, and then carries requests. A
  request takes a stream id from \<open>StreamStorage\<close>, goes out as a \<open>Message\<close> whose \<open>Body\<close> writes
  its payload, and is completed when a frame with the same stream id comes back: the bytes that
  libuv (or SSL) delivers go through \<open>ClientConnection::consume\<close>, which feeds
  \<open>Message::consume\<close>, which calls the parser of the body. A caller waits on its
  \<open>CallerRequest\<close> for the answer.

  \<^bold>\<open>Conventions.\<close> Operations return \<open>fault + 'a\<close> (\<open>Prelude\<close>): \<open>Inl\<close> stands for a failed assertion, a
  null dereference, an access outside a block, a read of an indeterminate value, a failed
  allocation of a negative size, a wrong \<open>delete\<close>, or a loop that ran out of fuel (\<open>Diverged\<close>).
      Integers have the
  width of the source (\<open>int32\<close>, \<open>size_t\<close> and so on are word types), so wrap-around and sign
  conversions are those of a 64-bit target. Memory is a list of bytes that may be indeterminate,
  with pointers as block and offset (\<open>Memory\<close>). Calls of libuv, log lines and error output are
  recorded as lists of effects.

  \<^bold>\<open>Theories and sources\<close> (all paths under \<^verbatim>\<open>src/\<close>):

  \<^item> \<open>Prelude\<close>, \<open>Protocol_Constants\<close>, \<open>Memory\<close>, \<open>Std_Map\<close>: faults, loops, words; the constants of
    \<^verbatim>\<open>include/cql.h\<close>; blocks, pointers and byte order
    (\<^verbatim>\<open>memcpy\<close>, \<^verbatim>\<open>htons\<close>, \<^verbatim>\<open>htonl\<close>); \<open>std::map\<close>.

  \<^item> \<open>Serialization\<close>: \<^verbatim>\<open>include/cql_serialization.hpp\<close>, one definition per function. The locale
    \<open>entry_reader\<close> is the contract of the counted loops of the decoders and is interpreted on
    string lists, maps, multimaps, columns and cells. Shown: encoders write exactly the reference
    encoding or fault; string maps come back from the wire.

  \<^item> \<open>Body_Simple\<close>, \<open>Body_Startup\<close>, \<open>Body_Query\<close>, \<open>Body_Result\<close>: the message bodies
    (\<^verbatim>\<open>include/cql_body*.hpp\<close>). The locale \<open>payload_body\<close> is the contract of
    \<open>Body::prepare\<close>, interpreted on ERROR, PREPARE, STARTUP and QUERY. Shown: the QUERY payload,
    the parsing of result metadata and rows, the row iterator with and without null cells,
    schema changes.

  \<^item> \<open>Message\<close>: \<^verbatim>\<open>include/cql_message.hpp\<close>. Shown: what \<open>prepare\<close> makes of every
    message, round trips, reassembly from pieces, and what happens to bad headers and split bodies.

  \<^item> \<open>Errors\<close>, \<open>Request\<close>: \<^verbatim>\<open>include/cql_error.hpp\<close> and \<^verbatim>\<open>include/cql_request.hpp\<close>; any number
    of waiting threads and a notifier as a step relation with reachable states and an invariant.

  \<^item> \<open>Stream_Storage\<close>: \<^verbatim>\<open>include/cql_stream_storage.hpp\<close>. The locale \<open>stream_pool\<close> is the
    contract that connections use; its interpretation discharges it for the arrays of the code.
    Shown: the invariant of all reachable pools, every stream given back returns what was
    stored under it, and the outcome of \<open>set_stream\<close> up to the last stream, whose use writes
    behind the arrays.

  \<^item> \<open>Connection\<close>, \<open>Connection_Lemmas\<close>, \<open>Connection_Props\<close>, \<open>Frame_Stream\<close>, \<open>Segmentation\<close>,
    \<open>Answers\<close>, \<open>Stream_Exhaustion\<close>: \<^verbatim>\<open>include/cql_client_connection.hpp\<close> and
    \<^verbatim>\<open>include/cql_common.hpp\<close>. The locale
    \<open>client_callbacks\<close> states what a connection relies on in the callbacks of its user, and is
    interpreted on the callbacks of the pool. Shown: the negotiation from \<open>init\<close> to READY, for an
    allocator that gives room for the OPTIONS header and for one that does not; the invariant of
    all reachable connections; the classes of the bodies that handlers cast; what
    \<open>send_message\<close> and a RESULT frame do in every case; the loop of \<open>consume\<close> ends, and \<open>consume\<close>
    agrees with a reference that is given the frames of a chunk; ERROR frames. \<open>Answers\<close> shows that
    \<open>exec\<close> and \<open>prepare\<close> never get to make a request, so that no request is ever answered; its
    locale \<open>quiet_callbacks\<close> extends \<open>client_callbacks\<close> and is interpreted on the pool as well.
    \<open>Segmentation\<close> shows that what the handlers get does not depend on how the bytes are cut into
    chunks, and \<open>Stream_Exhaustion\<close> that SUPPORTED frames use up the streams, until the storage is
    written out of bounds.

  \<^item> \<open>Buffers\<close>: the helpers of \<^verbatim>\<open>include/cql_common.hpp\<close> for buffers, and which objects the writes
    and reads of a connection create and delete. Shown: the live objects are those of the
    writes under way and the arrays that reads leave behind, also through the SSL branch of
    \<open>on_read\<close>.

  \<^item> \<open>Host_Pool\<close>: \<^verbatim>\<open>include/cql_pool.hpp\<close>; the choice of a connection, the bounds of the pool, and
    that no connection leaves the pending list.

  \<^item> \<open>Mpmc_Queue\<close>, \<open>Queue_Contract\<close>, \<open>Mpmc_Props\<close>, \<open>Mpmc_Progress\<close>:
    \<^verbatim>\<open>include/cql_mpmc_queue.hpp\<close>. Every thread
    runs the atomic actions of \<open>enqueue\<close> and \<open>dequeue\<close> one by one in any interleaving. Shown: a
    simulation by a bounded first-in first-out queue. The locale \<open>fifo_object\<close> is the contract
    for users of the queue, with its consequences (no element is lost, duplicated or invented).
    \<open>Mpmc_Progress\<close> shows that no thread waits for another.

  \<^item> \<open>Session\<close>, \<open>Cluster\<close>: \<^verbatim>\<open>include/cql_session.hpp\<close>, \<^verbatim>\<open>include/cql_cluster.hpp\<close>,
    \<^verbatim>\<open>src/client/main.cpp\<close>; the constructor of a session with its queue, workers, options.

  \<^item> \<open>Ssl_Session\<close>, \<open>Ssl_Props\<close>, \<open>Ssl_Context\<close>: \<^verbatim>\<open>include/cql_ssl_session.hpp\<close>,
    \<^verbatim>\<open>include/cql_ssl_context.hpp\<close>. OpenSSL is a parameter: a record of functions for the session, and an
    oracle that answers each call for the context. Shown: the flow of decrypted and encrypted
    bytes through \<open>on_read\<close>, two ways in which it goes wrong, and the ownership of the objects
    that \<open>create_cert\<close> makes.

  \<^item> \<open>Test_Server\<close>, \<open>Unit_Tests\<close>, \<open>Ssl_Test\<close>: \<^verbatim>\<open>src/server/main.cpp\<close> and \<^verbatim>\<open>src/test/main.cpp\<close>.
    The unit tests are evaluated on the model, as a check of it (lemmas, not properties),
      except \<open>test_ssl\<close>, whose outcome is proved for every
    behaviour of OpenSSL.

  \<^bold>\<open>Bounds and fuel.\<close> The loop of \<open>consume\<close> gets as much fuel as the chunk has bytes; each iteration
  takes at least one, and \<open>consume_terminates\<close> proves that the fuel is never used up. The loop
  of \<open>on_read\<close> over an SSL session may run forever, so its fuel is an argument:
  \<open>ssl_on_read_flow\<close> gives the fuel that suffices, and \<open>ssl_closed_never_returns\<close> holds for every
  fuel. Theorems on frames bound a chunk by 2147483640 bytes, because the code counts received
  bytes in an \<open>int32_t\<close>. Theorems on the queue bound the number of elements so that the sequence
  numbers stay below the sign bit of \<open>intptr_t\<close>.

  \<^bold>\<open>Assumptions.\<close> Atomic actions are sequentially consistent. Condition variables have no spurious
  wake-ups. libuv calls \<open>on_write\<close> once for each write. An allocation of a non-negative size
      succeeds and gives at least what was asked for
  (the parameter \<open>alloc\<close>). The target has 64-bit pointers and little-endian byte order.

  \<^bold>\<open>Not modelled.\<close> Deallocation outside \<open>Buffers\<close> and the OpenSSL objects of \<open>Ssl_Context\<close>: messages,
  requests and errors are never deleted in the model, so it does not speak about leaks or
  dangling pointers of them. \<open>print_hex\<close> of the tests, which prints and is not called. Enumerations that
  no code uses (\<open>Compression\<close>, \<open>SchemaEventType\<close>, \<open>HostDistance\<close>).
  libuv and OpenSSL themselves.
\<close>

end
